theory Spec2Isabelle
  imports Main
begin

section \<open>The process environment\<close>

text \<open>
  \<^verbatim>\<open>process.env\<close> maps variable names to strings; a variable that is not set
  reads as \<^verbatim>\<open>undefined\<close>. Both modules test a variable with \<^verbatim>\<open>!process.env[v]\<close>,
  which holds for an unset variable and for the empty string.
\<close>

type_synonym env = "string \<rightharpoonup> string"

definition falsy_str :: "string option \<Rightarrow> bool" where
  "falsy_str v = (case v of None \<Rightarrow> True | Some s \<Rightarrow> s = [])"

section \<open>JavaScript values and JSON\<close>

text \<open>
  Strings are byte strings (\<open>string\<close>): the UTF-8 text of the JavaScript string, with a
  code unit that is half of no surrogate pair written as three bytes, like any other
  code unit in its range. \<open>jsval\<close> is a JavaScript value that JSON can carry, or
  \<^verbatim>\<open>undefined\<close>. A number is given by the text JavaScript prints for it (\<^verbatim>\<open>3600\<close>
  for 3600, \<^verbatim>\<open>1e+21\<close> for \<open>10^21\<close>, \<^verbatim>\<open>Infinity\<close>); zero and negative zero are
  both \<^verbatim>\<open>0\<close>. The one number that is computed with (the expiry in seconds) is read
  from its text by parseInt. An object is the list of
  its own properties in the order in which JavaScript enumerates them: the keys that
  are array indices first, in ascending order, then the other keys in the order of
  their creation. A key occurs once.
\<close>

datatype jsval =
    JUndefined
  | JNull
  | JBool bool
  | JNum string
  | JStr string
  | JArr "jsval list"
  | JObj "(string \<times> jsval) list"

datatype error =
    ErrorMsg string     \<comment> \<open>\<^verbatim>\<open>new Error(msg)\<close>, thrown by the client constructors\<close>
  | SyntaxError         \<comment> \<open>thrown by JSON.parse\<close>
  | TypeError           \<comment> \<open>a property of null or undefined, a missing method, an object without a string form\<close>
  | RangeError          \<comment> \<open>\<^verbatim>\<open>toISOString\<close> of an invalid date; the call stack exhausted\<close>
  | ServiceError string \<comment> \<open>any rejection or exception of an external service\<close>

text \<open>
  The numbers that the signed-URL route computes with: an integer that is a double, an
  infinity, or NaN. Negative zero is not told apart from zero: both print as
  \<^verbatim>\<open>0\<close>, in the signed URL and in the response, and both add nothing to a date.
\<close>

datatype number = NaN | PlusInfinity | MinusInfinity | Finite int

text \<open>
  Assigning a property whose key is not an array index: an existing key keeps its place
  and takes the new value, a new key comes last.
\<close>

fun obj_put :: "(string \<times> jsval) list \<Rightarrow> string \<Rightarrow> jsval \<Rightarrow> (string \<times> jsval) list" where
  "obj_put [] k v = [(k, v)]"
| "obj_put ((k', v') # fs) k v = (if k' = k then (k, v) # fs else (k', v') # obj_put fs k v)"

text \<open>
  Reading \<^verbatim>\<open>v.name\<close>, also by destructuring, for a name that no built-in prototype
  defines (the code reads \<^verbatim>\<open>topic\<close>, \<^verbatim>\<open>text\<close>, \<^verbatim>\<open>fileKey\<close> and
  \<^verbatim>\<open>expiresIn\<close>): a TypeError on null and undefined, the own property of an object,
  and \<^verbatim>\<open>undefined\<close> otherwise.
\<close>

definition get_property :: "jsval \<Rightarrow> string \<Rightarrow> error + jsval" where
  "get_property v name =
     (case v of
        JUndefined \<Rightarrow> Inl TypeError
      | JNull \<Rightarrow> Inl TypeError
      | JObj fs \<Rightarrow> (case map_of fs name of None \<Rightarrow> Inr JUndefined | Some x \<Rightarrow> Inr x)
      | _ \<Rightarrow> Inr JUndefined)"

fun join :: "string \<Rightarrow> string list \<Rightarrow> string" where
  "join sep [] = []"
| "join sep [x] = x"
| "join sep (x # y # ys) = x @ sep @ join sep (y # ys)"

subsection \<open>Characters, property keys and the number grammar\<close>

definition code :: "char \<Rightarrow> nat" where
  "code c = of_char c"

definition is_ws :: "char \<Rightarrow> bool" where
  "is_ws c = (code c = 0x20 \<or> code c = 0x09 \<or> code c = 0x0A \<or> code c = 0x0D)"

definition skip_ws :: "string \<Rightarrow> string" where
  "skip_ws cs = dropWhile is_ws cs"

definition is_digit :: "char \<Rightarrow> bool" where
  "is_digit c = (48 \<le> code c \<and> code c \<le> 57)"

text \<open>
  An array index is the decimal text, without leading zeros, of an integer below
  \<open>2^32 - 1\<close>. A new property with such a key is enumerated before every key that is
  not an array index and before every greater array index.
\<close>

definition digits_int :: "string \<Rightarrow> int" where
  "digits_int ds = foldl (\<lambda>acc c. acc * 10 + int (code c - 48)) 0 ds"

definition array_index :: "string \<Rightarrow> int option" where
  "array_index k =
     (if k = [] \<or> 10 < length k \<or> \<not> list_all is_digit k \<or> (length k > 1 \<and> hd k = CHR ''0'')
      then None
      else if digits_int k < 4294967295 then Some (digits_int k) else None)"

fun insert_index ::
  "int \<Rightarrow> string \<Rightarrow> jsval \<Rightarrow> (string \<times> jsval) list \<Rightarrow> (string \<times> jsval) list" where
  "insert_index i k v [] = [(k, v)]"
| "insert_index i k v ((k', v') # fs) =
     (case array_index k' of
        None \<Rightarrow> (k, v) # (k', v') # fs
      | Some j \<Rightarrow> if j < i then (k', v') # insert_index i k v fs else (k, v) # (k', v') # fs)"

text \<open>Defining a property of any key, as JSON.parse does for each member of an object.\<close>

definition obj_define :: "(string \<times> jsval) list \<Rightarrow> string \<Rightarrow> jsval \<Rightarrow> (string \<times> jsval) list" where
  "obj_define fs k v =
     (case array_index k of
        None \<Rightarrow> obj_put fs k v
      | Some i \<Rightarrow> if map_of fs k = None then insert_index i k v fs else obj_put fs k v)"

text \<open>The number grammar: \<^verbatim>\<open>-? (0 | [1-9][0-9]*) (. [0-9]+)? ([eE] [+-]? [0-9]+)?\<close>.
  Each part returns its text and the rest of the input.\<close>

definition lex_int :: "string \<Rightarrow> (string \<times> string) option" where
  "lex_int cs =
     (case cs of
        [] \<Rightarrow> None
      | c # r \<Rightarrow>
          if c = CHR ''0'' then Some ([c], r)
          else if is_digit c then Some (takeWhile is_digit cs, dropWhile is_digit cs)
          else None)"

definition lex_frac :: "string \<Rightarrow> (string \<times> string) option" where
  "lex_frac cs =
     (case cs of
        [] \<Rightarrow> Some ([], [])
      | c # r \<Rightarrow>
          if c = CHR ''.'' then
            (if takeWhile is_digit r = [] then None
             else Some (c # takeWhile is_digit r, dropWhile is_digit r))
          else Some ([], cs))"

definition lex_sign :: "string \<Rightarrow> string \<times> string" where
  "lex_sign cs =
     (case cs of
        [] \<Rightarrow> ([], [])
      | c # r \<Rightarrow> if c = CHR ''+'' \<or> c = CHR ''-'' then ([c], r) else ([], cs))"

definition lex_exp :: "string \<Rightarrow> (string \<times> string) option" where
  "lex_exp cs =
     (case cs of
        [] \<Rightarrow> Some ([], [])
      | c # r \<Rightarrow>
          if c = CHR ''e'' \<or> c = CHR ''E'' then
            (case lex_sign r of (sg, r') \<Rightarrow>
               if takeWhile is_digit r' = [] then None
               else Some (c # sg @ takeWhile is_digit r', dropWhile is_digit r'))
          else Some ([], cs))"

definition lex_number :: "string \<Rightarrow> (string \<times> string) option" where
  "lex_number cs =
     (case (case cs of [] \<Rightarrow> ([], []) | c # r \<Rightarrow> if c = CHR ''-'' then ([c], r) else ([], cs)) of
        (sg, r0) \<Rightarrow>
          (case lex_int r0 of
             None \<Rightarrow> None
           | Some (i, r1) \<Rightarrow>
               (case lex_frac r1 of
                  None \<Rightarrow> None
                | Some (f, r2) \<Rightarrow>
                    (case lex_exp r2 of
                       None \<Rightarrow> None
                     | Some (e, r3) \<Rightarrow> Some (sg @ i @ f @ e, r3)))))"

subsection \<open>Numbers\<close>

text \<open>
  A number literal is read as the double nearest to its value, ties to the even
  significand, and the double is kept as the text that
  \<^verbatim>\<open>Number.prototype.toString\<close> prints for it: the shortest decimal that reads back as
  the same double. Everything is computed with integers: a positive finite double is
  \<open>m * 2^x\<close> for a significand \<open>m\<close> and an exponent \<open>x\<close>, and \<open>None\<close> stands for
  an infinity.
\<close>

function bit_length :: "int \<Rightarrow> nat" where
  "bit_length a = (if a \<le> 0 then 0 else Suc (bit_length (a div 2)))"
  by pat_completeness auto
termination
  by (relation "measure nat") auto

declare bit_length.simps [simp del]

definition pow10 :: "int \<Rightarrow> int" where
  "pow10 n = 10 ^ nat n"

definition pow2 :: "int \<Rightarrow> int" where
  "pow2 n = 2 ^ nat n"

text \<open>
  The parts of a literal of the number grammar: whether it has a minus sign, the digits
  of its integer and fraction parts, and the power of ten that the digits, read as an
  integer, are multiplied by.
\<close>

definition literal_parts :: "string \<Rightarrow> bool \<times> string \<times> int" where
  "literal_parts lx =
     (let negative = (lx \<noteq> [] \<and> hd lx = CHR ''-'');
          u = (if negative then tl lx else lx);
          ip = takeWhile is_digit u;
          r1 = dropWhile is_digit u;
          point = (r1 \<noteq> [] \<and> hd r1 = CHR ''.'');
          fp = (if point then takeWhile is_digit (tl r1) else []);
          r2 = (if point then dropWhile is_digit (tl r1) else r1);
          ex = (case r2 of
                  [] \<Rightarrow> 0
                | c # r3 \<Rightarrow>
                    (case r3 of
                       [] \<Rightarrow> 0
                     | sg # r4 \<Rightarrow>
                         if sg = CHR ''-'' then - digits_int r4
                         else if sg = CHR ''+'' then digits_int r4
                         else digits_int r3))
      in (negative, ip @ fp, ex - int (length fp)))"

text \<open>
  The double nearest to the ratio of a natural number and a positive one. The binary
  exponent \<open>e\<close> of the ratio is found from the bit lengths; the last place of the
  significand has the exponent \<open>x\<close>, which is \<open>e - 52\<close> and at least \<open>- 1074\<close>; the
  significand is the ratio divided by \<open>2^x\<close> and rounded, ties to even. A result of
  \<open>2^1024\<close> or more is an infinity.
\<close>

definition round_ratio :: "int \<Rightarrow> int \<Rightarrow> (int \<times> int) option" where
  "round_ratio num den =
     (if num = 0 then Some (0, 0)
      else
        (let e0 = int (bit_length num) - int (bit_length den);
             e = (if den * pow2 e0 \<le> num * pow2 (- e0) then e0 else e0 - 1);
             x = max e (- 1022) - 52;
             N = num * pow2 (- x);
             D = den * pow2 x;
             q = N div D;
             r = N mod D;
             m = (if D < 2 * r \<or> (2 * r = D \<and> odd q) then q + 1 else q)
         in if 971 < x \<or> (x = 971 \<and> 2 ^ 53 \<le> m) then None
            else if m = 0 then Some (0, 0)
            else Some (m, x)))"

definition same_double :: "(int \<times> int) option \<Rightarrow> (int \<times> int) option \<Rightarrow> bool" where
  "same_double a b =
     (case (a, b) of
        (None, None) \<Rightarrow> True
      | (Some (m, x), Some (m', x')) \<Rightarrow> m * pow2 (x - x') = m' * pow2 (x' - x)
      | _ \<Rightarrow> False)"

text \<open>
  The double that the digits \<open>ds\<close> times \<open>10^ex\<close> are read as. A value of \<open>10^310\<close>
  or more is beyond every double, and a value below \<open>10^(-330)\<close> is read as zero; the
  powers of ten are computed for the values in between only.
\<close>

definition read_decimal :: "string \<Rightarrow> int \<Rightarrow> (int \<times> int) option" where
  "read_decimal ds ex =
     (let sig = dropWhile (\<lambda>c. c = CHR ''0'') ds;
          p = int (length sig) + ex
      in if sig = [] then Some (0, 0)
         else if 310 < p then None
         else if p < - 330 then Some (0, 0)
         else round_ratio (digits_int sig * pow10 ex) (pow10 (- ex)))"

text \<open>
  Printing a positive double \<open>dn / dd\<close>. \<open>decimal_position\<close> is the \<open>n\<close> with
  \<open>10^(n-1) \<le> dn / dd < 10^n\<close>, found near the estimate that the bit lengths give.
  \<open>digit_candidates\<close> are the pairs \<open>(s, n)\<close> of an integer \<open>s\<close> of \<open>k\<close> digits and
  a position \<open>n\<close> for which \<open>s * 10^(n-k)\<close> reads back as the double; only the two
  neighbours of the double among the decimals of \<open>k\<close> digits need to be tried.
  \<open>shortest\<close> takes the least \<open>k\<close> that has a candidate, and of its candidates the
  one nearest to the double (the even one of two equally near); 17 digits always
  suffice.
\<close>

definition decimal_position :: "int \<Rightarrow> int \<Rightarrow> int" where
  "decimal_position dn dd =
     (let e = int (bit_length dn) - int (bit_length dd);
          c = (e * 30103) div 100000
      in hd (filter (\<lambda>n. dd * pow10 (n - 1) \<le> dn * pow10 (1 - n)
                          \<and> dn * pow10 (- n) < dd * pow10 n)
               [c - 1, c, c + 1, c + 2, c + 3] @ [c]))"

definition digit_candidates :: "int \<Rightarrow> int \<Rightarrow> int \<Rightarrow> int \<Rightarrow> (int \<times> int) list" where
  "digit_candidates dn dd n0 k =
     filter (\<lambda>(s, n). pow10 (k - 1) \<le> s \<and> s < pow10 k
                \<and> same_double (round_ratio (s * pow10 (n - k)) (pow10 (k - n)))
                     (round_ratio dn dd))
       (concat (map (\<lambda>n. (let fl = (dn * pow10 (k - n)) div (dd * pow10 (n - k))
                           in [(fl, n), (fl + 1, n)]))
                  [n0, n0 + 1]))"

text \<open>
  The distance of \<open>s * 10^(n-k)\<close> from \<open>dn / dd\<close>, as a numerator and a denominator.
\<close>

definition distance :: "int \<Rightarrow> int \<Rightarrow> int \<Rightarrow> int \<times> int \<Rightarrow> int \<times> int" where
  "distance dn dd k c =
     (case c of (s, n) \<Rightarrow>
        (\<bar>s * pow10 (n - k) * dd - dn * pow10 (k - n)\<bar>, dd * pow10 (k - n)))"

definition nearer :: "int \<Rightarrow> int \<Rightarrow> int \<Rightarrow> int \<times> int \<Rightarrow> int \<times> int \<Rightarrow> int \<times> int" where
  "nearer dn dd k a b =
     (case (distance dn dd k a, distance dn dd k b) of
        ((p, q), (p', q')) \<Rightarrow>
          if p * q' < p' * q then a
          else if p' * q < p * q' then b
          else if even (fst a) then a else b)"

fun shortest :: "int \<Rightarrow> int \<Rightarrow> int \<Rightarrow> nat \<Rightarrow> int \<Rightarrow> int \<times> int \<times> int" where
  "shortest dn dd n0 0 k = (0, 1, 1)"
| "shortest dn dd n0 (Suc fuel) k =
     (case digit_candidates dn dd n0 k of
        [] \<Rightarrow> shortest dn dd n0 fuel (k + 1)
      | c # cs \<Rightarrow> (case foldl (nearer dn dd k) c cs of (s, n) \<Rightarrow> (s, k, n)))"

text \<open>The last \<open>k\<close> decimal digits of an integer, and the decimal text of a natural number.\<close>

fun digits_of :: "nat \<Rightarrow> int \<Rightarrow> string" where
  "digits_of 0 s = []"
| "digits_of (Suc k) s = digits_of k (s div 10) @ [char_of (48 + nat (s mod 10))]"

definition decimal_text :: "int \<Rightarrow> string" where
  "decimal_text n =
     (if n = 0 then ''0''
      else digits_of (length (filter (\<lambda>k. pow10 (int k) \<le> n) [0..<400])) n)"

text \<open>
  \<^verbatim>\<open>Number.prototype.toString\<close>: with the digits \<open>s\<close>, their number \<open>k\<close> and the
  position \<open>n\<close> of the decimal point, the text is the digits followed by zeros when
  \<open>k \<le> n \<le> 21\<close>, the digits with a point inside when \<open>0 < n \<le> 21\<close>, the digits after
  \<^verbatim>\<open>0.\<close> and zeros when \<open>- 6 < n \<le> 0\<close>, and exponential notation otherwise.
\<close>

definition number_to_string :: "bool \<Rightarrow> (int \<times> int) option \<Rightarrow> string" where
  "number_to_string negative d =
     (case d of
        None \<Rightarrow> (if negative then ''-Infinity'' else ''Infinity'')
      | Some (m, x) \<Rightarrow>
          if m = 0 then ''0''
          else
            (case shortest (m * pow2 x) (pow2 (- x))
                    (decimal_position (m * pow2 x) (pow2 (- x))) 17 1 of
               (s, k, n) \<Rightarrow>
                 (let ds = digits_of (nat k) s;
                      body =
                        (if k \<le> n \<and> n \<le> 21 then ds @ replicate (nat (n - k)) (CHR ''0'')
                         else if 0 < n \<and> n \<le> 21 then take (nat n) ds @ ''.'' @ drop (nat n) ds
                         else if - 6 < n \<and> n \<le> 0 then
                           ''0.'' @ replicate (nat (- n)) (CHR ''0'') @ ds
                         else
                           (let e = n - 1;
                                mant = (if k = 1 then ds else take 1 ds @ ''.'' @ drop 1 ds)
                            in mant @ ''e'' @ (if e < 0 then ''-'' else ''+'')
                                 @ decimal_text \<bar>e\<bar>))
                  in (if negative then ''-'' else []) @ body)))"

text \<open>The text of the number that a literal is read as.\<close>

definition number_text :: "string \<Rightarrow> string" where
  "number_text lx =
     (case literal_parts lx of
        (negative, ds, ex) \<Rightarrow> number_to_string negative (read_decimal ds ex))"

subsection \<open>String literals\<close>

definition hex_val :: "char \<Rightarrow> nat option" where
  "hex_val c =
     (if 48 \<le> code c \<and> code c \<le> 57 then Some (code c - 48)
      else if 97 \<le> code c \<and> code c \<le> 102 then Some (code c - 87)
      else if 65 \<le> code c \<and> code c \<le> 70 then Some (code c - 55)
      else None)"

definition hex4 :: "char \<Rightarrow> char \<Rightarrow> char \<Rightarrow> char \<Rightarrow> nat option" where
  "hex4 a b c d =
     (case (hex_val a, hex_val b, hex_val c, hex_val d) of
        (Some p, Some q, Some r, Some s) \<Rightarrow> Some (((p * 16 + q) * 16 + r) * 16 + s)
      | _ \<Rightarrow> None)"

text \<open>The UTF-8 bytes of a code point, or of a code unit that is half of no pair.\<close>

definition utf8 :: "nat \<Rightarrow> string" where
  "utf8 n =
     (if n < 0x80 then [char_of n]
      else if n < 0x800 then [char_of (0xC0 + n div 64), char_of (0x80 + n mod 64)]
      else if n < 0x10000 then
        [char_of (0xE0 + n div 4096), char_of (0x80 + (n div 64) mod 64),
         char_of (0x80 + n mod 64)]
      else
        [char_of (0xF0 + n div 262144), char_of (0x80 + (n div 4096) mod 64),
         char_of (0x80 + (n div 64) mod 64), char_of (0x80 + n mod 64)])"

text \<open>
  The code unit written \<^verbatim>\<open>\uXXXX\<close> at the start of the input (after the backslash
  and the \<^verbatim>\<open>u\<close>), if there is one.
\<close>

definition lex_unit :: "string \<Rightarrow> nat option" where
  "lex_unit cs =
     (case cs of
        h1 # h2 # h3 # h4 # r \<Rightarrow> hex4 h1 h2 h3 h4
      | _ \<Rightarrow> None)"

text \<open>
  The low half of a surrogate pair written as an escape at the start of the input.
\<close>

definition lex_low_surrogate :: "string \<Rightarrow> nat option" where
  "lex_low_surrogate cs =
     (case cs of
        b # u # r \<Rightarrow>
          if b = CHR 0x5C \<and> u = CHR ''u'' then
            (case lex_unit r of
               None \<Rightarrow> None
             | Some m \<Rightarrow> if 0xDC00 \<le> m \<and> m < 0xE000 then Some m else None)
          else None
      | _ \<Rightarrow> None)"

definition unescape :: "char \<Rightarrow> char option" where
  "unescape e =
     (if e = CHR 0x22 then Some (CHR 0x22)
      else if e = CHR 0x5C then Some (CHR 0x5C)
      else if e = CHR ''/'' then Some (CHR ''/'')
      else if e = CHR ''b'' then Some (CHR 0x08)
      else if e = CHR ''f'' then Some (CHR 0x0C)
      else if e = CHR ''n'' then Some (CHR 0x0A)
      else if e = CHR ''r'' then Some (CHR 0x0D)
      else if e = CHR ''t'' then Some (CHR 0x09)
      else None)"

definition prepend :: "string \<Rightarrow> (string \<times> string) option \<Rightarrow> (string \<times> string) option" where
  "prepend p r = (case r of None \<Rightarrow> None | Some (s, rest) \<Rightarrow> Some (p @ s, rest))"

text \<open>
  The characters of a string literal after its opening quote, up to the closing quote:
  the decoded string and the input after the quote. Control characters below 0x20 must
  be escaped. The escape of a high surrogate that is followed at once by the escape of
  a low surrogate makes one code point with it.
\<close>

fun lex_string :: "string \<Rightarrow> (string \<times> string) option" where
  "lex_string [] = None"
| "lex_string (c # cs) =
     (if c = CHR 0x22 then Some ([], cs)
      else if c = CHR 0x5C then
        (case cs of
           [] \<Rightarrow> None
         | e # r \<Rightarrow>
             if e = CHR ''u'' then
               (case lex_unit r of
                  None \<Rightarrow> None
                | Some n \<Rightarrow>
                    (case lex_low_surrogate (drop 4 r) of
                       None \<Rightarrow> prepend (utf8 n) (lex_string (drop 4 r))
                     | Some m \<Rightarrow>
                         if 0xD800 \<le> n \<and> n < 0xDC00 then
                           prepend (utf8 (0x10000 + (n - 0xD800) * 1024 + (m - 0xDC00)))
                             (lex_string (drop 10 r))
                         else prepend (utf8 n) (lex_string (drop 4 r))))
             else
               (case unescape e of
                  None \<Rightarrow> None
                | Some ch \<Rightarrow> prepend [ch] (lex_string r)))
      else if code c < 0x20 then None
      else prepend [c] (lex_string cs))"

subsection \<open>JSON.parse\<close>

text \<open>
  The recursive-descent parser. The first argument bounds the number of nested calls;
  every call is made after at least one character has been consumed, so a bound of the
  input's length is never reached before the input is exhausted: any larger bound gives
  the same result (\<open>JSON_parse_any_fuel\<close> below). The input of \<open>parse_value\<close> starts at
  the value (white space already skipped); the result is the value and the input after
  it. A repeated key of an object keeps its place and takes its last value.
\<close>

fun parse_value :: "nat \<Rightarrow> string \<Rightarrow> (jsval \<times> string) option"
  and parse_elements :: "nat \<Rightarrow> jsval list \<Rightarrow> string \<Rightarrow> (jsval list \<times> string) option"
  and parse_member :: "nat \<Rightarrow> string \<Rightarrow> ((string \<times> jsval) \<times> string) option"
  and parse_members ::
    "nat \<Rightarrow> (string \<times> jsval) list \<Rightarrow> string \<Rightarrow> ((string \<times> jsval) list \<times> string) option"
where
  "parse_value 0 cs = None"
| "parse_value (Suc n) cs =
     (case cs of
        [] \<Rightarrow> None
      | c # r \<Rightarrow>
          if c = CHR ''['' then
            (case skip_ws r of
               [] \<Rightarrow> None
             | d # r' \<Rightarrow>
                 if d = CHR '']'' then Some (JArr [], r')
                 else
                   (case parse_value n (d # r') of
                      None \<Rightarrow> None
                    | Some (v, rest) \<Rightarrow>
                        (case parse_elements n [v] (skip_ws rest) of
                           None \<Rightarrow> None
                         | Some (vs, rest') \<Rightarrow> Some (JArr vs, rest'))))
          else if c = CHR ''{'' then
            (case skip_ws r of
               [] \<Rightarrow> None
             | d # r' \<Rightarrow>
                 if d = CHR ''}'' then Some (JObj [], r')
                 else
                   (case parse_member n (d # r') of
                      None \<Rightarrow> None
                    | Some ((k, v), rest) \<Rightarrow>
                        (case parse_members n [(k, v)] (skip_ws rest) of
                           None \<Rightarrow> None
                         | Some (fs, rest') \<Rightarrow> Some (JObj fs, rest'))))
          else if c = CHR 0x22 then
            (case lex_string r of None \<Rightarrow> None | Some (s, rest) \<Rightarrow> Some (JStr s, rest))
          else if c = CHR ''-'' \<or> is_digit c then
            (case lex_number cs of
               None \<Rightarrow> None
             | Some (lx, rest) \<Rightarrow> Some (JNum (number_text lx), rest))
          else if take 4 cs = ''true'' then Some (JBool True, drop 4 cs)
          else if take 5 cs = ''false'' then Some (JBool False, drop 5 cs)
          else if take 4 cs = ''null'' then Some (JNull, drop 4 cs)
          else None)"
| "parse_elements 0 acc cs = None"
| "parse_elements (Suc n) acc cs =
     (case cs of
        [] \<Rightarrow> None
      | c # r \<Rightarrow>
          if c = CHR '']'' then Some (acc, r)
          else if c = CHR '','' then
            (case parse_value n (skip_ws r) of
               None \<Rightarrow> None
             | Some (v, rest) \<Rightarrow> parse_elements n (acc @ [v]) (skip_ws rest))
          else None)"
| "parse_member 0 cs = None"
| "parse_member (Suc n) cs =
     (case cs of
        [] \<Rightarrow> None
      | c # r \<Rightarrow>
          if c = CHR 0x22 then
            (case lex_string r of
               None \<Rightarrow> None
             | Some (k, rest) \<Rightarrow>
                 (case skip_ws rest of
                    [] \<Rightarrow> None
                  | d # r' \<Rightarrow>
                      if d = CHR '':'' then
                        (case parse_value n (skip_ws r') of
                           None \<Rightarrow> None
                         | Some (v, rest') \<Rightarrow> Some ((k, v), rest'))
                      else None))
          else None)"
| "parse_members 0 acc cs = None"
| "parse_members (Suc n) acc cs =
     (case cs of
        [] \<Rightarrow> None
      | c # r \<Rightarrow>
          if c = CHR ''}'' then Some (acc, r)
          else if c = CHR '','' then
            (case parse_member n (skip_ws r) of
               None \<Rightarrow> None
             | Some ((k, v), rest) \<Rightarrow> parse_members n (obj_define acc k v) (skip_ws rest))
          else None)"

text \<open>
  \<^verbatim>\<open>JSON.parse(text)\<close>: one value, with white space allowed around it and nothing
  else; anything else is a SyntaxError.
\<close>

definition JSON_parse :: "string \<Rightarrow> error + jsval" where
  "JSON_parse text =
     (case parse_value (Suc (length text)) (skip_ws text) of
        None \<Rightarrow> Inl SyntaxError
      | Some (v, rest) \<Rightarrow> if skip_ws rest = [] then Inr v else Inl SyntaxError)"

text \<open>
  The argument of JSON.parse is converted to a string first: \<^verbatim>\<open>undefined\<close> becomes the
  text \<^verbatim>\<open>undefined\<close> (which is not JSON).
\<close>

definition string_of_optional :: "string option \<Rightarrow> string" where
  "string_of_optional s = (case s of None \<Rightarrow> ''undefined'' | Some t \<Rightarrow> t)"

subsection \<open>JSON.stringify\<close>

definition hex_digit :: "nat \<Rightarrow> char" where
  "hex_digit n = (if n < 10 then char_of (48 + n) else char_of (87 + n))"

definition quote_char :: "char \<Rightarrow> string" where
  "quote_char c =
     (if c = CHR 0x22 then [CHR 0x5C, CHR 0x22]
      else if c = CHR 0x5C then [CHR 0x5C, CHR 0x5C]
      else if c = CHR 0x08 then [CHR 0x5C, CHR ''b'']
      else if c = CHR 0x0C then [CHR 0x5C, CHR ''f'']
      else if c = CHR 0x0A then [CHR 0x5C, CHR ''n'']
      else if c = CHR 0x0D then [CHR 0x5C, CHR ''r'']
      else if c = CHR 0x09 then [CHR 0x5C, CHR ''t'']
      else if code c < 0x20 then
        [CHR 0x5C, CHR ''u'', CHR ''0'', CHR ''0'', hex_digit (code c div 16), hex_digit (code c mod 16)]
      else [c])"

text \<open>
  The characters of a string between the quotes. A code unit that is half of no
  surrogate pair (three bytes, the first \<open>0xED\<close> and the second at least \<open>0xA0\<close>) is
  written as an escape, in lower case.
\<close>

fun quote_chars :: "string \<Rightarrow> string" where
  "quote_chars [] = []"
| "quote_chars (c # cs) =
     (if code c = 0xED \<and> length cs \<ge> 2 \<and> 0xA0 \<le> code (hd cs) then
        (let u = 0xD000 + (code (hd cs) - 0x80) * 64 + (code (hd (tl cs)) - 0x80) in
         [CHR 0x5C, CHR ''u'', hex_digit (u div 4096), hex_digit ((u div 256) mod 16),
          hex_digit ((u div 16) mod 16), hex_digit (u mod 16)] @ quote_chars (drop 2 cs))
      else quote_char c @ quote_chars cs)"

definition quote :: "string \<Rightarrow> string" where
  "quote s = CHR 0x22 # quote_chars s @ [CHR 0x22]"

text \<open>
  The text of a value inside a document: a property whose value is \<^verbatim>\<open>undefined\<close> is
  left out of its object, \<^verbatim>\<open>undefined\<close> in an array is written \<^verbatim>\<open>null\<close>, and so
  is a number that is not finite.
\<close>

fun serialize :: "jsval \<Rightarrow> string" where
  "serialize JUndefined = ''null''"
| "serialize JNull = ''null''"
| "serialize (JBool b) = (if b then ''true'' else ''false'')"
| "serialize (JNum t) =
     (if t = ''Infinity'' \<or> t = ''-Infinity'' \<or> t = ''NaN'' then ''null'' else t)"
| "serialize (JStr s) = quote s"
| "serialize (JArr xs) = ''['' @ join '','' (map serialize xs) @ '']''"
| "serialize (JObj fs) =
     ''{'' @ join '','' (map (\<lambda>(k, v). quote k @ '':'' @ serialize v)
                          (filter (\<lambda>(k, v). v \<noteq> JUndefined) fs)) @ ''}''"

subsection \<open>Conversion to a string\<close>

text \<open>The first error of a list of results, or all their values.\<close>

fun sequence_results :: "(error + 'a) list \<Rightarrow> error + 'a list" where
  "sequence_results [] = Inr []"
| "sequence_results (Inl e # rs) = Inl e"
| "sequence_results (Inr x # rs) =
     (case sequence_results rs of Inl e \<Rightarrow> Inl e | Inr xs \<Rightarrow> Inr (x # xs))"

text \<open>
  The string a value is converted to where a string is needed: in a template literal
  and in the argument of parseInt. A number is given by the text JavaScript prints for
  it, so its text is the conversion. An array joins the conversions of its elements
  with commas, \<^verbatim>\<open>null\<close> and \<^verbatim>\<open>undefined\<close> giving the empty string. An object is
  converted by its \<^verbatim>\<open>toString\<close> method: the inherited one gives
  \<^verbatim>\<open>[object Object]\<close>, but an own property of that name hides it, and its value, which
  has come from JSON, is no function; the inherited \<^verbatim>\<open>valueOf\<close> then returns the object
  itself (and an own \<^verbatim>\<open>valueOf\<close> is no function either), so the conversion throws a
  TypeError.
\<close>

fun to_string :: "jsval \<Rightarrow> error + string" where
  "to_string JUndefined = Inr ''undefined''"
| "to_string JNull = Inr ''null''"
| "to_string (JBool b) = Inr (if b then ''true'' else ''false'')"
| "to_string (JNum t) = Inr t"
| "to_string (JStr s) = Inr s"
| "to_string (JArr xs) =
     (case sequence_results
             (map (\<lambda>x. if x = JUndefined \<or> x = JNull then Inr [] else to_string x) xs) of
        Inl e \<Rightarrow> Inl e
      | Inr ts \<Rightarrow> Inr (join '','' ts))"
| "to_string (JObj fs) =
     (if map_of fs ''toString'' = None then Inr ''[object Object]'' else Inl TypeError)"

section \<open>The process, its trace and the outside world\<close>

text \<open>
  The AWS clients of both modules are built from the same three settings; each is
  \<^verbatim>\<open>process.env.X\<close>, a string or \<^verbatim>\<open>undefined\<close>.
\<close>

record aws_client =
  region :: "string option"
  accessKeyId :: "string option"
  secretAccessKey :: "string option"

text \<open>A received queue message: the two fields the code reads, each a string or \<^verbatim>\<open>undefined\<close>.\<close>

record sqs_message =
  Body :: "string option"
  ReceiptHandle :: "string option"

text \<open>The commands handed to \<^verbatim>\<open>client.send\<close> and to the presigner.\<close>

record receive_command =
  rc_QueueUrl :: "string option"
  rc_MaxNumberOfMessages :: nat
  rc_WaitTimeSeconds :: nat
  rc_MessageAttributeNames :: "string list"

record delete_command =
  dc_QueueUrl :: "string option"
  dc_ReceiptHandle :: "string option"

record send_command =
  sc_QueueUrl :: "string option"
  sc_MessageBody :: "string option"
  sc_Topic_DataType :: string
  sc_Topic_StringValue :: jsval

record get_object_command =
  gc_Bucket :: "string option"
  gc_Key :: jsval

text \<open>
  Console output, one constructor for each line the code prints, with the values the
  line is built from.
\<close>

datatype log_line =
    MissingEnvVars string       \<comment> \<open>\<^verbatim>\<open>console.error(..., errorMsg)\<close> in getSQSClient, getS3Client\<close>
  | SQSClientInitialized
  | S3ClientInitialized
  | StartingPolling
  | NewSQSMessage jsval jsval   \<comment> \<open>\<^verbatim>\<open>body.topic\<close> and \<^verbatim>\<open>body\<close>, which the line shows as text\<close>
  | FailedToParse error         \<comment> \<open>\<^verbatim>\<open>console.error('Failed to parse SQS message:', parseErr)\<close>\<close>
  | SQSPollingError error       \<comment> \<open>\<^verbatim>\<open>console.error('SQS Polling Error:', error)\<close>\<close>
  | SendingToSQS jsval jsval    \<comment> \<open>\<^verbatim>\<open>topic\<close> and \<^verbatim>\<open>text\<close>, which the line shows as text\<close>
  | SocketSendError error
  | SignedUrlError error

text \<open>
  What the process does to the outside, in order: console lines, the commands sent to
  the queue service, broadcasts to the connected sockets, timers, presigning.
\<close>

datatype event =
    Console log_line
  | SqsReceive receive_command
  | SqsDelete delete_command
  | SqsSend send_command
  | IoEmit string jsval          \<comment> \<open>\<^verbatim>\<open>io.emit(name, value)\<close>\<close>
  | SetTimeout nat               \<comment> \<open>awaiting a timer of that many milliseconds\<close>
  | Presign get_object_command number   \<comment> \<open>\<^verbatim>\<open>getSignedUrl(client, command, { expiresIn })\<close>\<close>

text \<open>
  The mutable state of the process: the two lazily created clients (\<^verbatim>\<open>null\<close> is
  \<open>None\<close>) and the trace of events so far.
\<close>

record runtime =
  sqsClient :: "aws_client option"
  s3Client :: "aws_client option"
  trace :: "event list"

text \<open>
  The outside world answers each call. An answer may depend on everything that has
  happened so far (the trace, which ends with the call being answered), so the world is
  any deterministic environment: services that fail, recover, return any batch.
  \<open>Inl\<close> is a rejected promise or a thrown exception. The engine belongs to the
  world too: it decides whether its call stack is exhausted when the nested arrays and
  objects of a value are written as JSON, or when its nested arrays are joined.
\<close>

record world =
  sqs_receive_reply :: "event list \<Rightarrow> error + sqs_message list option"
  sqs_delete_reply :: "event list \<Rightarrow> error + unit"
  sqs_send_reply :: "event list \<Rightarrow> error + string"
  io_emit_reply :: "event list \<Rightarrow> error + unit"
  presign_reply :: "event list \<Rightarrow> error + string"
  date_iso :: "event list \<Rightarrow> string"    \<comment> \<open>\<^verbatim>\<open>new Date().toISOString()\<close>\<close>
  date_now :: "event list \<Rightarrow> int"       \<comment> \<open>\<^verbatim>\<open>Date.now()\<close>, milliseconds\<close>
  stringify_overflow :: "jsval \<Rightarrow> bool"  \<comment> \<open>JSON.stringify of the value exhausts the stack\<close>
  join_overflow :: "jsval \<Rightarrow> bool"       \<comment> \<open>joining the array exhausts the stack\<close>

subsection \<open>Statements that may throw\<close>

text \<open>
  A statement takes the state and returns the new state with either a value or the
  exception thrown (\<open>Inl\<close>). \<open>try_catch\<close> is the \<^verbatim>\<open>try { } catch (e) { }\<close> block.
\<close>

type_synonym 'a prog = "runtime \<Rightarrow> (error + 'a) \<times> runtime"

definition return_prog :: "'a \<Rightarrow> 'a prog" where
  "return_prog x = (\<lambda>st. (Inr x, st))"

definition throw_prog :: "error \<Rightarrow> 'a prog" where
  "throw_prog e = (\<lambda>st. (Inl e, st))"

definition lift_result :: "error + 'a \<Rightarrow> 'a prog" where
  "lift_result r = (\<lambda>st. (r, st))"

definition bind_prog :: "'a prog \<Rightarrow> ('a \<Rightarrow> 'b prog) \<Rightarrow> 'b prog" where
  "bind_prog m f =
     (\<lambda>st. case m st of (Inl e, st') \<Rightarrow> (Inl e, st') | (Inr x, st') \<Rightarrow> f x st')"

definition try_catch :: "'a prog \<Rightarrow> (error \<Rightarrow> 'a prog) \<Rightarrow> 'a prog" where
  "try_catch m handler =
     (\<lambda>st. case m st of (Inl e, st') \<Rightarrow> handler e st' | (Inr x, st') \<Rightarrow> (Inr x, st'))"

definition emit_event :: "event \<Rightarrow> unit prog" where
  "emit_event ev = (\<lambda>st. (Inr (), st\<lparr>trace := trace st @ [ev]\<rparr>))"

text \<open>A call to the outside: the event is recorded, then the world answers.\<close>

definition call_world :: "event \<Rightarrow> (event list \<Rightarrow> error + 'a) \<Rightarrow> 'a prog" where
  "call_world ev reply = bind_prog (emit_event ev) (\<lambda>_. (\<lambda>st. (reply (trace st), st)))"

text \<open>Reading a clock leaves no event.\<close>

definition read_world :: "(event list \<Rightarrow> 'a) \<Rightarrow> 'a prog" where
  "read_world f = (\<lambda>st. (Inr (f (trace st)), st))"

subsection \<open>Built-in conversions that may throw\<close>

text \<open>
  \<^verbatim>\<open>JSON.stringify(v)\<close> is \<^verbatim>\<open>undefined\<close> for \<^verbatim>\<open>undefined\<close> and a string otherwise.
  A property that is named \<^verbatim>\<open>toJSON\<close> has come from JSON and is no function, so no
  method is called; the call throws only when an array or object is nested so deeply
  that the stack is exhausted (a RangeError).
\<close>

definition is_nested :: "jsval \<Rightarrow> bool" where
  "is_nested v = (case v of JArr xs \<Rightarrow> True | JObj fs \<Rightarrow> True | _ \<Rightarrow> False)"

definition JSON_stringify :: "world \<Rightarrow> jsval \<Rightarrow> error + string option" where
  "JSON_stringify w v =
     (if is_nested v \<and> stringify_overflow w v then Inl RangeError
      else if v = JUndefined then Inr None
      else Inr (Some (serialize v)))"

text \<open>
  The conversion to a string, as the engine performs it: only an array recurses (into
  its elements), so only an array can exhaust the stack.
\<close>

definition ToString :: "world \<Rightarrow> jsval \<Rightarrow> error + string" where
  "ToString w v =
     (case v of
        JArr xs \<Rightarrow> if join_overflow w v then Inl RangeError else to_string v
      | _ \<Rightarrow> to_string v)"

section \<open>sqsConfig: the queue client\<close>

definition sqs_requiredEnvVars :: "string list" where
  "sqs_requiredEnvVars =
     [''AWS_REGION'', ''AWS_ACCESS_KEY_ID'', ''AWS_SECRET_ACCESS_KEY'', ''AWS_SQS_QUEUE_URL'']"

text \<open>
  \<^verbatim>\<open>
  function getSQSClient() {
      if (!sqsClient) {
          const missingVars = requiredEnvVars.filter(varName => !process.env[varName]);
          if (missingVars.length > 0) {
              const errorMsg = `Missing required AWS SQS environment variables: ${missingVars.join(', ')}`;
              console.error(..., errorMsg);
              throw new Error(errorMsg);
          }
          sqsClient = new SQSClient({ region: ..., credentials: { ... } });
          console.log('... SQS Client initialized successfully');
      }
      return sqsClient;
  }
  \<close>
\<close>

definition new_client :: "env \<Rightarrow> aws_client" where
  "new_client env =
     \<lparr>region = env ''AWS_REGION'',
      accessKeyId = env ''AWS_ACCESS_KEY_ID'',
      secretAccessKey = env ''AWS_SECRET_ACCESS_KEY''\<rparr>"

definition getSQSClient :: "env \<Rightarrow> aws_client prog" where
  "getSQSClient env =
     (\<lambda>st. case sqsClient st of
        Some client \<Rightarrow> (Inr client, st)
      | None \<Rightarrow>
          (let missingVars = filter (\<lambda>varName. falsy_str (env varName)) sqs_requiredEnvVars in
           if length missingVars > 0 then
             (let errorMsg =
                ''Missing required AWS SQS environment variables: '' @ join '', '' missingVars
              in bind_prog (emit_event (Console (MissingEnvVars errorMsg)))
                   (\<lambda>_. throw_prog (ErrorMsg errorMsg)) st)
           else
             bind_prog (emit_event (Console SQSClientInitialized))
               (\<lambda>_. return_prog (new_client env))
               (st\<lparr>sqsClient := Some (new_client env)\<rparr>)))"

text \<open>
  \<^verbatim>\<open>
  async function sendSQSMessage(data, topic = 'general') {
      const client = getSQSClient();
      const body = JSON.stringify({ ...data, topic, timestamp: new Date().toISOString() });
      const command = new SendMessageCommand({
          QueueUrl: process.env.AWS_SQS_QUEUE_URL,
          MessageBody: body,
          MessageAttributes: { "Topic": { DataType: "String", StringValue: topic } }
      });
      return await client.send(command);
  }
  \<close>
  \<open>data\<close> is the list of the payload object's properties. The default of the parameter
  applies when the argument is \<^verbatim>\<open>undefined\<close>. The object literal copies the
  properties of \<^verbatim>\<open>data\<close> and then assigns \<^verbatim>\<open>topic\<close> and \<^verbatim>\<open>timestamp\<close>.
\<close>

definition sendSQSMessage :: "world \<Rightarrow> env \<Rightarrow> (string \<times> jsval) list \<Rightarrow> jsval \<Rightarrow> string prog" where
  "sendSQSMessage w env data topic_arg =
     (let topic = (if topic_arg = JUndefined then JStr ''general'' else topic_arg) in
      bind_prog (getSQSClient env) (\<lambda>client.
      bind_prog (read_world (date_iso w)) (\<lambda>now.
      bind_prog (lift_result (JSON_stringify w
                   (JObj (obj_put (obj_put data ''topic'' topic) ''timestamp'' (JStr now)))))
        (\<lambda>body.
          (let command = \<lparr>sc_QueueUrl = env ''AWS_SQS_QUEUE_URL'',
                          sc_MessageBody = body,
                          sc_Topic_DataType = ''String'',
                          sc_Topic_StringValue = topic\<rparr>
           in call_world (SqsSend command) (sqs_send_reply w))))))"

text \<open>
  \<^verbatim>\<open>
  async function receiveSQSMessages(maxMessages = 5) {
      const client = getSQSClient();
      const command = new ReceiveMessageCommand({
          QueueUrl: process.env.AWS_SQS_QUEUE_URL,
          MaxNumberOfMessages: maxMessages,
          WaitTimeSeconds: 20,
          MessageAttributeNames: ["All"]
      });
      const response = await client.send(command);
      return response.Messages || [];
  }
  \<close>
\<close>

definition receiveSQSMessages :: "world \<Rightarrow> env \<Rightarrow> nat \<Rightarrow> sqs_message list prog" where
  "receiveSQSMessages w env maxMessages =
     bind_prog (getSQSClient env) (\<lambda>client.
       (let command = \<lparr>rc_QueueUrl = env ''AWS_SQS_QUEUE_URL'',
                       rc_MaxNumberOfMessages = maxMessages,
                       rc_WaitTimeSeconds = 20,
                       rc_MessageAttributeNames = [''All'']\<rparr>
        in bind_prog (call_world (SqsReceive command) (sqs_receive_reply w)) (\<lambda>Messages.
             return_prog (case Messages of None \<Rightarrow> [] | Some ms \<Rightarrow> ms))))"

text \<open>
  \<^verbatim>\<open>
  async function deleteSQSMessage(receiptHandle) {
      const client = getSQSClient();
      const command = new DeleteMessageCommand({
          QueueUrl: process.env.AWS_SQS_QUEUE_URL,
          ReceiptHandle: receiptHandle
      });
      return await client.send(command);
  }
  \<close>
\<close>

definition deleteSQSMessage :: "world \<Rightarrow> env \<Rightarrow> string option \<Rightarrow> unit prog" where
  "deleteSQSMessage w env receiptHandle =
     bind_prog (getSQSClient env) (\<lambda>client.
       (let command = \<lparr>dc_QueueUrl = env ''AWS_SQS_QUEUE_URL'',
                       dc_ReceiptHandle = receiptHandle\<rparr>
        in call_world (SqsDelete command) (sqs_delete_reply w)))"

section \<open>index.js: the polling loop and the socket handler\<close>

text \<open>
  The body of the \<^verbatim>\<open>for\<close> loop, with its own \<^verbatim>\<open>try\<close>/\<^verbatim>\<open>catch\<close>:
  \<^verbatim>\<open>
  try {
      const body = JSON.parse(message.Body);
      console.log(`... New SQS Message: [${body.topic}] ${JSON.stringify(body)}`);
      io.emit('message', body);
      await deleteSQSMessage(message.ReceiptHandle);
  } catch (parseErr) {
      console.error('Failed to parse SQS message:', parseErr);
  }
  \<close>
  Before anything is printed the template literal reads \<^verbatim>\<open>body.topic\<close>, converts
  it to a string and calls JSON.stringify; each of the three may throw.
\<close>

definition process_message :: "world \<Rightarrow> env \<Rightarrow> sqs_message \<Rightarrow> unit prog" where
  "process_message w env message =
     try_catch
       (bind_prog (lift_result (JSON_parse (string_of_optional (Body message)))) (\<lambda>body.
        bind_prog (lift_result (get_property body ''topic'')) (\<lambda>topic.
        bind_prog (lift_result (ToString w topic)) (\<lambda>topic_text.
        bind_prog (lift_result (JSON_stringify w body)) (\<lambda>body_text.
        bind_prog (emit_event (Console (NewSQSMessage topic body))) (\<lambda>_.
        bind_prog (call_world (IoEmit ''message'' body) (io_emit_reply w)) (\<lambda>_.
        deleteSQSMessage w env (ReceiptHandle message))))))))
       (\<lambda>parseErr. emit_event (Console (FailedToParse parseErr)))"

text \<open>\<^verbatim>\<open>for (const message of messages) { ... }\<close>\<close>

fun for_messages :: "world \<Rightarrow> env \<Rightarrow> sqs_message list \<Rightarrow> unit prog" where
  "for_messages w env [] = return_prog ()"
| "for_messages w env (message # rest) =
     bind_prog (process_message w env message) (\<lambda>_. for_messages w env rest)"

text \<open>
  The body of \<^verbatim>\<open>while (true)\<close>:
  \<^verbatim>\<open>
  try {
      const messages = await receiveSQSMessages(5);
      for (const message of messages) { ... }
  } catch (error) {
      console.error('SQS Polling Error:', error);
      await new Promise(resolve => setTimeout(resolve, 5000));
  }
  \<close>
\<close>

definition poll_once :: "world \<Rightarrow> env \<Rightarrow> unit prog" where
  "poll_once w env =
     try_catch
       (bind_prog (receiveSQSMessages w env 5) (\<lambda>messages. for_messages w env messages))
       (\<lambda>error. bind_prog (emit_event (Console (SQSPollingError error)))
                   (\<lambda>_. emit_event (SetTimeout 5000)))"

text \<open>
  The loop has no exit of its own, so it is observed after a number of iterations:
  \<open>Running\<close> with the state reached when all of them have completed, or \<open>Rejected\<close>
  when an iteration let an exception out of the loop (which would reject the promise
  of \<^verbatim>\<open>startSQSPolling\<close> and end the polling).
\<close>

datatype loop_outcome = Running runtime | Rejected error runtime

fun poll_loop :: "world \<Rightarrow> env \<Rightarrow> nat \<Rightarrow> runtime \<Rightarrow> loop_outcome" where
  "poll_loop w env 0 st = Running st"
| "poll_loop w env (Suc n) st =
     (case poll_once w env st of
        (Inl e, st') \<Rightarrow> Rejected e st'
      | (Inr u, st') \<Rightarrow> poll_loop w env n st')"

definition startSQSPolling :: "world \<Rightarrow> env \<Rightarrow> nat \<Rightarrow> runtime \<Rightarrow> loop_outcome" where
  "startSQSPolling w env n st =
     poll_loop w env n (snd (emit_event (Console StartingPolling) st))"

text \<open>
  The handler of a socket's \<^verbatim>\<open>send-message\<close> event:
  \<^verbatim>\<open>
  socket.on('send-message', async (data) => {
      try {
          const { text, topic } = data;
          console.log(`... Sending message to SQS: [${topic}] ${text}`);
          await sendSQSMessage({ text, senderId: socket.id }, topic);
      } catch (error) {
          console.error('Socket send-message error:', error);
      }
  });
  \<close>
  The template literal converts \<^verbatim>\<open>topic\<close> and then \<^verbatim>\<open>text\<close> to strings before
  anything is printed.
\<close>

definition on_send_message :: "world \<Rightarrow> env \<Rightarrow> string \<Rightarrow> jsval \<Rightarrow> unit prog" where
  "on_send_message w env socket_id data =
     try_catch
       (bind_prog (lift_result (get_property data ''text'')) (\<lambda>text.
        bind_prog (lift_result (get_property data ''topic'')) (\<lambda>topic.
        bind_prog (lift_result (ToString w topic)) (\<lambda>topic_text.
        bind_prog (lift_result (ToString w text)) (\<lambda>text_text.
        bind_prog (emit_event (Console (SendingToSQS topic text))) (\<lambda>_.
        bind_prog (sendSQSMessage w env [(''text'', text), (''senderId'', JStr socket_id)] topic)
          (\<lambda>_. return_prog ())))))))
       (\<lambda>error. emit_event (Console (SocketSendError error)))"

section \<open>s3Config: the storage client and the URLs\<close>

definition s3_requiredEnvVars :: "string list" where
  "s3_requiredEnvVars =
     [''AWS_REGION'', ''AWS_ACCESS_KEY_ID'', ''AWS_SECRET_ACCESS_KEY'', ''AWS_S3_BUCKET_NAME'']"

text \<open>\<^verbatim>\<open>getS3Client\<close> has the shape of \<^verbatim>\<open>getSQSClient\<close>, with its own variable list and message.\<close>

definition getS3Client :: "env \<Rightarrow> aws_client prog" where
  "getS3Client env =
     (\<lambda>st. case s3Client st of
        Some client \<Rightarrow> (Inr client, st)
      | None \<Rightarrow>
          (let missingVars = filter (\<lambda>varName. falsy_str (env varName)) s3_requiredEnvVars in
           if length missingVars > 0 then
             (let errorMsg =
                ''Missing required AWS environment variables: '' @ join '', '' missingVars
              in bind_prog (emit_event (Console (MissingEnvVars errorMsg)))
                   (\<lambda>_. throw_prog (ErrorMsg errorMsg)) st)
           else
             bind_prog (emit_event (Console S3ClientInitialized))
               (\<lambda>_. return_prog (new_client env))
               (st\<lparr>s3Client := Some (new_client env)\<rparr>)))"

text \<open>
  \<^verbatim>\<open>
  async function getSignedUrlForFile(key, expiresIn = 3600) {
      const command = new GetObjectCommand({ Bucket: process.env.AWS_S3_BUCKET_NAME, Key: key });
      const client = getS3Client();
      const signedUrl = await getSignedUrl(client, command, { expiresIn });
      return signedUrl;
  }
  \<close>
  The route always passes the second argument.
\<close>

definition getSignedUrlForFile :: "world \<Rightarrow> env \<Rightarrow> jsval \<Rightarrow> number \<Rightarrow> string prog" where
  "getSignedUrlForFile w env key expiresIn =
     (let command = \<lparr>gc_Bucket = env ''AWS_S3_BUCKET_NAME'', gc_Key = key\<rparr> in
      bind_prog (getS3Client env) (\<lambda>client.
        call_world (Presign command expiresIn) (presign_reply w)))"

text \<open>
  \<^verbatim>\<open>domain.replace(/\/$/, '')\<close>: the pattern is anchored at the end of the input and has
  no \<^verbatim>\<open>g\<close> flag, so it removes one slash when the string ends with one.
\<close>

definition replace_trailing_slash :: "string \<Rightarrow> string" where
  "replace_trailing_slash s =
     (if s \<noteq> [] \<and> last s = CHR ''/'' then butlast s else s)"

text \<open>\<^verbatim>\<open>key.replace(/^\//, '')\<close>: removes one slash when the string starts with one.\<close>

definition replace_leading_slash :: "string \<Rightarrow> string" where
  "replace_leading_slash s =
     (case s of [] \<Rightarrow> [] | c # cs \<Rightarrow> if c = CHR ''/'' then cs else c # cs)"

text \<open>
  \<^verbatim>\<open>
  function getCloudFrontUrl(key) {
      const domain = process.env.AWS_CLOUDFRONT_DOMAIN;
      if (!domain) return null;
      const cleanDomain = domain.replace(/\/$/, '');
      const cleanKey = key.replace(/^\//, '');
      return `https://${cleanDomain}/${cleanKey}`;
  }
  \<close>
  The key is a string, as the function documents; the result \<^verbatim>\<open>null\<close> is \<open>None\<close>.
\<close>

definition getCloudFrontUrl :: "env \<Rightarrow> string \<Rightarrow> string option" where
  "getCloudFrontUrl env key =
     (let domain = env ''AWS_CLOUDFRONT_DOMAIN'' in
      if falsy_str domain then None
      else (case domain of
              None \<Rightarrow> None
            | Some d \<Rightarrow>
                (let cleanDomain = replace_trailing_slash d;
                     cleanKey = replace_leading_slash key
                 in Some (''https://'' @ cleanDomain @ ''/'' @ cleanKey))))"

text \<open>
  The route passes whatever the request carried as \<^verbatim>\<open>fileKey\<close>. A value that is not
  a string has no \<^verbatim>\<open>replace\<close> method: the call throws a TypeError once the domain
  is configured.
\<close>

definition getCloudFrontUrl_of :: "env \<Rightarrow> jsval \<Rightarrow> error + string option" where
  "getCloudFrontUrl_of env key =
     (case key of
        JStr k \<Rightarrow> Inr (getCloudFrontUrl env k)
      | _ \<Rightarrow> if falsy_str (env ''AWS_CLOUDFRONT_DOMAIN'') then Inr None else Inl TypeError)"

section \<open>uploadRoutes: POST /api/get-signed-url\<close>

text \<open>
  \<^verbatim>\<open>!v\<close> is false exactly for the truthy values. A number is given by its text:
  zero and negative zero print as \<^verbatim>\<open>0\<close>.
\<close>

definition truthy :: "jsval \<Rightarrow> bool" where
  "truthy v =
     (case v of
        JUndefined \<Rightarrow> False
      | JNull \<Rightarrow> False
      | JBool b \<Rightarrow> b
      | JNum t \<Rightarrow> t \<noteq> ''0'' \<and> t \<noteq> ''NaN''
      | JStr s \<Rightarrow> s \<noteq> []
      | JArr xs \<Rightarrow> True
      | JObj fs \<Rightarrow> True)"

text \<open>
  The white space that parseInt skips, in UTF-8: the ASCII characters 9 to 13 and 32,
  U+00A0, U+1680, U+2000 to U+200A, U+2028, U+2029, U+202F, U+205F, U+3000 and U+FEFF.
  \<open>ws_length\<close> is the number of bytes of the white-space character at the start of the
  input, 0 when there is none.
\<close>

definition ws_length :: "string \<Rightarrow> nat" where
  "ws_length s =
     (let b = map code (take 3 s) in
      case b of
        [] \<Rightarrow> 0
      | b0 # r0 \<Rightarrow>
          if b0 = 0x20 \<or> (0x09 \<le> b0 \<and> b0 \<le> 0x0D) then 1
          else if take 1 r0 = [0xA0] \<and> b0 = 0xC2 then 2
          else if b0 = 0xE1 \<and> r0 = [0x9A, 0x80] then 3
          else if b0 = 0xE2 \<and> length r0 = 2 \<and> hd r0 = 0x80
                  \<and> ((0x80 \<le> last r0 \<and> last r0 \<le> 0x8A) \<or> last r0 = 0xA8
                      \<or> last r0 = 0xA9 \<or> last r0 = 0xAF) then 3
          else if b0 = 0xE2 \<and> r0 = [0x81, 0x9F] then 3
          else if b0 = 0xE3 \<and> r0 = [0x80, 0x80] then 3
          else if b0 = 0xEF \<and> r0 = [0xBB, 0xBF] then 3
          else 0)"

fun trim_start :: "string \<Rightarrow> string" where
  "trim_start [] = []"
| "trim_start (c # cs) =
     (if ws_length (c # cs) = 0 then c # cs
      else trim_start (drop (ws_length (c # cs) - 1) cs))"

text \<open>
  The double nearest to an integer, ties to the even significand; the integers up to
  \<open>2^53\<close> in size are doubles themselves, and an integer that rounds to \<open>2^1024\<close> or
  beyond gives an infinity.
\<close>

definition round_to_double :: "int \<Rightarrow> number" where
  "round_to_double n =
     (let a = \<bar>n\<bar>; b = bit_length a in
      if b \<le> 53 then Finite n
      else
        (let ulp = 2 ^ (b - 53);
             q = a div ulp;
             r = a mod ulp;
             q' = (if ulp < 2 * r \<or> (2 * r = ulp \<and> odd q) then q + 1 else q);
             m = q' * ulp
         in if 2 ^ 1024 \<le> m then (if n < 0 then MinusInfinity else PlusInfinity)
            else Finite (if n < 0 then - m else m)))"

text \<open>
  \<^verbatim>\<open>parseInt(string)\<close> with no radix: leading white space is skipped, then an optional
  sign, then \<^verbatim>\<open>0x\<close> or \<^verbatim>\<open>0X\<close> selects radix 16, then the longest run of digits of the
  radix is read. No digit at all gives NaN; otherwise the result is the double nearest
  to the integer read (the standard allows an engine to read the digits of a decimal
  after the twentieth as zeros; the exact integer is rounded here). The route converts
  the argument to a string first.
\<close>

definition digit_of :: "char \<Rightarrow> nat" where
  "digit_of c =
     (if 48 \<le> code c \<and> code c \<le> 57 then code c - 48
      else if 97 \<le> code c \<and> code c \<le> 122 then code c - 87
      else if 65 \<le> code c \<and> code c \<le> 90 then code c - 55
      else 36)"

definition digits_value :: "nat \<Rightarrow> string \<Rightarrow> int" where
  "digits_value radix ds = foldl (\<lambda>acc c. acc * int radix + int (digit_of c)) 0 ds"

definition parseInt :: "string \<Rightarrow> number" where
  "parseInt s =
     (let s1 = trim_start s;
          negative = (s1 \<noteq> [] \<and> hd s1 = CHR ''-'');
          s2 = (if s1 \<noteq> [] \<and> (hd s1 = CHR ''-'' \<or> hd s1 = CHR ''+'') then tl s1 else s1);
          hex = (take 2 s2 = ''0x'' \<or> take 2 s2 = ''0X'');
          radix = (if hex then 16 else 10);
          s3 = (if hex then drop 2 s2 else s2);
          ds = takeWhile (\<lambda>c. digit_of c < radix) s3
      in if ds = [] then NaN
         else round_to_double ((if negative then - 1 else 1) * digits_value radix ds))"

text \<open>
  \<^verbatim>\<open>Math.min(a, b)\<close> is NaN when an argument is NaN, and the smaller argument
  otherwise.
\<close>

definition Math_min :: "number \<Rightarrow> number \<Rightarrow> number" where
  "Math_min a b =
     (if a = NaN \<or> b = NaN then NaN
      else if a = MinusInfinity \<or> b = MinusInfinity then MinusInfinity
      else if a = PlusInfinity then b
      else if b = PlusInfinity then a
      else (case (a, b) of
              (Finite x, Finite y) \<Rightarrow> Finite (min x y)
            | _ \<Rightarrow> NaN))"

text \<open>
  \<^verbatim>\<open>expiry * 1000\<close> and \<^verbatim>\<open>Date.now() + ...\<close>, in double arithmetic: the exact result
  is rounded. \<^verbatim>\<open>Date.now()\<close> is an integer.
\<close>

definition times_1000 :: "number \<Rightarrow> number" where
  "times_1000 a = (case a of Finite x \<Rightarrow> round_to_double (x * 1000) | _ \<Rightarrow> a)"

definition plus_number :: "int \<Rightarrow> number \<Rightarrow> number" where
  "plus_number now a = (case a of Finite x \<Rightarrow> round_to_double (now + x) | _ \<Rightarrow> a)"

text \<open>
  \<^verbatim>\<open>new Date(t).toISOString()\<close> throws a RangeError when \<^verbatim>\<open>t\<close> is NaN, an infinity
  or outside \<open>\<plusminus>8.64e15\<close> milliseconds. The instant stands for its ISO text.
\<close>

definition toISOString :: "number \<Rightarrow> error + int" where
  "toISOString t =
     (case t of
        Finite ms \<Rightarrow> if \<bar>ms\<bar> \<le> 8640000000000000 then Inr ms else Inl RangeError
      | _ \<Rightarrow> Inl RangeError)"

record signed_url_data =
  d_fileKey :: jsval
  d_signedUrl :: string
  d_cloudFrontUrl :: "string option"
  d_expiresIn :: number
  d_expiresAt :: int

datatype http_response =
    Status200 signed_url_data
  | Status400 string
  | Status500 string error

text \<open>
  \<^verbatim>\<open>
  router.post('/get-signed-url', async (req, res) => {
      try {
          const { fileKey, expiresIn = 3600 } = req.body;
          if (!fileKey) {
              return res.status(400).json({ success: false, error: 'fileKey is required' });
          }
          const maxExpiry = 7 * 24 * 60 * 60;
          const expiry = Math.min(parseInt(expiresIn), maxExpiry);
          const signedUrl = await getSignedUrlForFile(fileKey, expiry);
          const cloudFrontUrl = getCloudFrontUrl(fileKey);
          res.status(200).json({ success: true, data: { fileKey, signedUrl, cloudFrontUrl,
              expiresIn: expiry,
              expiresAt: new Date(Date.now() + expiry * 1000).toISOString() } });
      } catch (error) {
          console.error('Signed URL error:', error);
          res.status(500).json({ success: false, error: 'Failed to generate signed URL',
              message: error.message });
      }
  });
  \<close>
  \<open>body\<close> is \<^verbatim>\<open>req.body\<close>. The default of \<^verbatim>\<open>expiresIn\<close> applies when the property
  is \<^verbatim>\<open>undefined\<close>. \<^verbatim>\<open>res.json\<close> writes its argument with JSON.stringify; in the
  response of the \<^verbatim>\<open>try\<close> block \<^verbatim>\<open>fileKey\<close> is the only part that can be nested.
\<close>

definition maxExpiry :: int where
  "maxExpiry = 7 * 24 * 60 * 60"

definition post_get_signed_url :: "world \<Rightarrow> env \<Rightarrow> jsval \<Rightarrow> http_response prog" where
  "post_get_signed_url w env body =
     try_catch
       (bind_prog (lift_result (get_property body ''fileKey'')) (\<lambda>fileKey.
        bind_prog (lift_result (get_property body ''expiresIn'')) (\<lambda>given.
          (let expiresIn = (if given = JUndefined then JNum ''3600'' else given) in
           if \<not> truthy fileKey then return_prog (Status400 ''fileKey is required'')
           else
             bind_prog (lift_result (ToString w expiresIn)) (\<lambda>inputString.
               (let expiry = Math_min (parseInt inputString) (Finite maxExpiry) in
                bind_prog (getSignedUrlForFile w env fileKey expiry) (\<lambda>signedUrl.
                bind_prog (lift_result (getCloudFrontUrl_of env fileKey)) (\<lambda>cloudFrontUrl.
                bind_prog (read_world (date_now w)) (\<lambda>now.
                bind_prog (lift_result (toISOString (plus_number now (times_1000 expiry))))
                  (\<lambda>expiresAt.
                bind_prog (lift_result (JSON_stringify w fileKey)) (\<lambda>written.
                  return_prog (Status200
                    \<lparr>d_fileKey = fileKey, d_signedUrl = signedUrl,
                     d_cloudFrontUrl = cloudFrontUrl, d_expiresIn = expiry,
                     d_expiresAt = expiresAt\<rparr>))))))))))))
       (\<lambda>error. bind_prog (emit_event (Console (SignedUrlError error)))
                   (\<lambda>_. return_prog (Status500 ''Failed to generate signed URL'' error)))"

section \<open>Notions used in the statements\<close>

text \<open>The state with further events appended to its trace.\<close>

definition add_events :: "runtime \<Rightarrow> event list \<Rightarrow> runtime" where
  "add_events st evs = st\<lparr>trace := trace st @ evs\<rparr>"

text \<open>The later state has the trace of the earlier one as a prefix.\<close>

definition extends_trace :: "runtime \<Rightarrow> runtime \<Rightarrow> bool" where
  "extends_trace st st' = (take (length (trace st)) (trace st') = trace st)"

text \<open>The events that happened between two states.\<close>

definition events_after :: "runtime \<Rightarrow> runtime \<Rightarrow> event list" where
  "events_after st st' = drop (length (trace st)) (trace st')"

text \<open>The broadcasts, the delete commands and the timers among some events, in order.\<close>

fun publish_calls :: "event list \<Rightarrow> jsval list" where
  "publish_calls [] = []"
| "publish_calls (IoEmit name v # evs) = v # publish_calls evs"
| "publish_calls (ev # evs) = publish_calls evs"

fun delete_calls :: "event list \<Rightarrow> delete_command list" where
  "delete_calls [] = []"
| "delete_calls (SqsDelete cmd # evs) = cmd # delete_calls evs"
| "delete_calls (ev # evs) = delete_calls evs"

fun send_calls :: "event list \<Rightarrow> send_command list" where
  "send_calls [] = []"
| "send_calls (SqsSend cmd # evs) = cmd # send_calls evs"
| "send_calls (ev # evs) = send_calls evs"

fun timers :: "event list \<Rightarrow> nat list" where
  "timers [] = []"
| "timers (SetTimeout ms # evs) = ms # timers evs"
| "timers (ev # evs) = timers evs"

text \<open>The required variables that are missing, and the message that names them.\<close>

definition sqs_missing :: "env \<Rightarrow> string list" where
  "sqs_missing env = filter (\<lambda>varName. falsy_str (env varName)) sqs_requiredEnvVars"

definition sqs_errorMsg :: "env \<Rightarrow> string" where
  "sqs_errorMsg env =
     ''Missing required AWS SQS environment variables: '' @ join '', '' (sqs_missing env)"

text \<open>What one iteration of the loop leaves in the trace when the configuration is incomplete.\<close>

definition config_failure_round :: "env \<Rightarrow> event list" where
  "config_failure_round env =
     [Console (MissingEnvVars (sqs_errorMsg env)),
      Console (SQSPollingError (ErrorMsg (sqs_errorMsg env))),
      SetTimeout 5000]"

text \<open>The commands that receiveSQSMessages and deleteSQSMessage build.\<close>

definition receive_cmd :: "env \<Rightarrow> nat \<Rightarrow> receive_command" where
  "receive_cmd env k =
     \<lparr>rc_QueueUrl = env ''AWS_SQS_QUEUE_URL'', rc_MaxNumberOfMessages = k,
      rc_WaitTimeSeconds = 20, rc_MessageAttributeNames = [''All'']\<rparr>"

definition delete_cmd :: "env \<Rightarrow> string option \<Rightarrow> delete_command" where
  "delete_cmd env rh = \<lparr>dc_QueueUrl = env ''AWS_SQS_QUEUE_URL'', dc_ReceiptHandle = rh\<rparr>"

text \<open>
  Building the console line of a parsed message: the topic that the line shows, or the
  exception that reading the topic, converting it to a string or writing the body as
  JSON throws.
\<close>

definition new_message_line :: "world \<Rightarrow> jsval \<Rightarrow> error + jsval" where
  "new_message_line w body =
     (case get_property body ''topic'' of
        Inl e \<Rightarrow> Inl e
      | Inr topic \<Rightarrow>
          (case ToString w topic of
             Inl e \<Rightarrow> Inl e
           | Inr topic_text \<Rightarrow>
               (case JSON_stringify w body of
                  Inl e \<Rightarrow> Inl e
                | Inr body_text \<Rightarrow> Inr topic)))"

text \<open>The console line and the broadcast of a message that has been parsed.\<close>

definition published :: "jsval \<Rightarrow> jsval \<Rightarrow> event list" where
  "published topic body = [Console (NewSQSMessage topic body), IoEmit ''message'' body]"

text \<open>
  The state in which the loop reaches a message of a batch: the state after the receive,
  run through the messages that come earlier in the batch.
\<close>

definition state_before :: "world \<Rightarrow> env \<Rightarrow> sqs_message list \<Rightarrow> runtime \<Rightarrow> runtime" where
  "state_before w env earlier st = snd (for_messages w env earlier st)"

text \<open>The queue client exists or can be created.\<close>

definition queue_available :: "env \<Rightarrow> runtime \<Rightarrow> bool" where
  "queue_available env st = (sqsClient st \<noteq> None \<or> sqs_missing env = [])"

text \<open>
  Building the console line of the send-message handler: the topic and the text that the
  line shows, or the exception that destructuring the data or converting the two to
  strings throws.
\<close>

definition send_message_line :: "world \<Rightarrow> jsval \<Rightarrow> error + jsval \<times> jsval" where
  "send_message_line w data =
     (case get_property data ''text'' of
        Inl e \<Rightarrow> Inl e
      | Inr tx \<Rightarrow>
          (case get_property data ''topic'' of
             Inl e \<Rightarrow> Inl e
           | Inr topic \<Rightarrow>
               (case ToString w topic of
                  Inl e \<Rightarrow> Inl e
                | Inr topic_text \<Rightarrow>
                    (case ToString w tx of
                       Inl e \<Rightarrow> Inl e
                     | Inr text_text \<Rightarrow> Inr (topic, tx)))))"

text \<open>The topic after the default of the parameter has been applied.\<close>

definition default_topic :: "jsval \<Rightarrow> jsval" where
  "default_topic topic_arg = (if topic_arg = JUndefined then JStr ''general'' else topic_arg)"

text \<open>The value of a property of an object, \<^verbatim>\<open>undefined\<close> when it has none of that name.\<close>

definition property_of :: "(string \<times> jsval) list \<Rightarrow> string \<Rightarrow> jsval" where
  "property_of fs name = (case map_of fs name of None \<Rightarrow> JUndefined | Some x \<Rightarrow> x)"

text \<open>The command that getSignedUrlForFile builds.\<close>

definition get_object_cmd :: "env \<Rightarrow> jsval \<Rightarrow> get_object_command" where
  "get_object_cmd env key = \<lparr>gc_Bucket = env ''AWS_S3_BUCKET_NAME'', gc_Key = key\<rparr>"

text \<open>The value of \<^verbatim>\<open>expiresIn\<close> after the default of the destructuring has been applied.\<close>

definition given_or_default :: "jsval \<Rightarrow> jsval" where
  "given_or_default given = (if given = JUndefined then JNum ''3600'' else given)"

section \<open>Example inputs\<close>

text \<open>A fresh process, and a process whose queue client has been created.\<close>

definition init_runtime :: runtime where
  "init_runtime = \<lparr>sqsClient = None, s3Client = None, trace = []\<rparr>"

definition with_client :: "env \<Rightarrow> runtime" where
  "with_client env = init_runtime\<lparr>sqsClient := Some (new_client env)\<rparr>"

text \<open>A complete configuration.\<close>

definition full_env :: env where
  "full_env =
     [''AWS_REGION'' \<mapsto> ''eu-west-1'',
      ''AWS_ACCESS_KEY_ID'' \<mapsto> ''AKIA'',
      ''AWS_SECRET_ACCESS_KEY'' \<mapsto> ''secret'',
      ''AWS_SQS_QUEUE_URL'' \<mapsto> ''https://sqs.example/q'',
      ''AWS_S3_BUCKET_NAME'' \<mapsto> ''bucket'']"

text \<open>A world in which every call succeeds and the queue is empty.\<close>

definition calm_world :: world where
  "calm_world =
     \<lparr>sqs_receive_reply = (\<lambda>h. Inr None),
      sqs_delete_reply = (\<lambda>h. Inr ()),
      sqs_send_reply = (\<lambda>h. Inr ''msg-1''),
      io_emit_reply = (\<lambda>h. Inr ()),
      presign_reply = (\<lambda>h. Inr ''https://bucket.example/signed''),
      date_iso = (\<lambda>h. ''2026-01-01T00:00:00.000Z''),
      date_now = (\<lambda>h. 1767225600000),
      stringify_overflow = (\<lambda>v. False),
      join_overflow = (\<lambda>v. False)\<rparr>"

text \<open>
  Four messages: text that is not JSON, an envelope, the JSON text \<^verbatim>\<open>null\<close>, and an
  object whose topic is an object with a property named \<^verbatim>\<open>toString\<close>.
\<close>

definition msg_bad :: sqs_message where
  "msg_bad = \<lparr>Body = Some ''not-json'', ReceiptHandle = Some ''r2''\<rparr>"

definition msg_hi :: sqs_message where
  \<open>msg_hi = \<lparr>Body = Some ''{"text":"hi","topic":"t1"}'', ReceiptHandle = Some ''r1''\<rparr>\<close>

definition msg_null :: sqs_message where
  "msg_null = \<lparr>Body = Some ''null'', ReceiptHandle = Some ''r3''\<rparr>"

definition msg_method :: sqs_message where
  \<open>msg_method =
     \<lparr>Body = Some ''{"topic":{"toString":1},"text":"x"}'', ReceiptHandle = Some ''r4''\<rparr>\<close>

text \<open>A queue that delivers the first three, with every delete rejected.\<close>

definition failing_delete_world :: world where
  "failing_delete_world =
     calm_world\<lparr>sqs_receive_reply := (\<lambda>h. Inr (Some [msg_bad, msg_hi, msg_null])),
                sqs_delete_reply := (\<lambda>h. Inl (ServiceError ''delete failed''))\<rparr>"

text \<open>A queue that delivers the envelope.\<close>

definition one_message_world :: world where
  "one_message_world = calm_world\<lparr>sqs_receive_reply := (\<lambda>h. Inr (Some [msg_hi]))\<rparr>"

text \<open>A queue whose first receive fails and whose later receives are empty.\<close>

definition flaky_world :: world where
  "flaky_world =
     calm_world\<lparr>sqs_receive_reply :=
       (\<lambda>h. if length h \<le> 1 then Inl (ServiceError ''network unreachable'') else Inr None)\<rparr>"

text \<open>
  A client's message whose text is an object with a property named \<^verbatim>\<open>toString\<close>.
\<close>

definition data_method :: jsval where
  "data_method =
     JObj [(''text'', JObj [(''toString'', JNum ''1'')]), (''topic'', JStr ''t1'')]"

text \<open>A client's message, the body that is sent for it and the command that carries it.\<close>

definition client_fields :: "(string \<times> jsval) list" where
  "client_fields = [(''text'', JStr ''hello''), (''topic'', JStr ''t1'')]"

definition sent_hello :: string where
  \<open>sent_hello =
     ''{"text":"hello","senderId":"sock-1","topic":"t1","timestamp":"2026-01-01T00:00:00.000Z"}''\<close>

definition sent_hello_cmd :: send_command where
  "sent_hello_cmd =
     \<lparr>sc_QueueUrl = Some ''https://sqs.example/q'',
      sc_MessageBody = Some sent_hello,
      sc_Topic_DataType = ''String'',
      sc_Topic_StringValue = JStr ''t1''\<rparr>"

text \<open>The body sent for the payload \<^verbatim>\<open>{text: "hi"}\<close> with no topic.\<close>

definition sent_hi :: string where
  \<open>sent_hi = ''{"text":"hi","topic":"general","timestamp":"2026-01-01T00:00:00.000Z"}''\<close>

text \<open>
  Four request bodies for the signed-URL route: an expiry that is no number, an expiry
  of thirty days, no expiry, and the expiry \<^verbatim>\<open>12\<close> after a no-break space (U+00A0).
\<close>

definition body_abc :: jsval where
  "body_abc = JObj [(''fileKey'', JStr ''uploads/a.png''), (''expiresIn'', JStr ''abc'')]"

definition body_month :: jsval where
  "body_month = JObj [(''fileKey'', JStr ''uploads/a.png''), (''expiresIn'', JNum ''2592000'')]"

definition body_plain :: jsval where
  "body_plain = JObj [(''fileKey'', JStr ''uploads/a.png'')]"

definition body_nbsp :: jsval where
  "body_nbsp =
     JObj [(''fileKey'', JStr ''uploads/a.png''),
           (''expiresIn'', JStr [CHR 0xC2, CHR 0xA0, CHR ''1'', CHR ''2''])]"

text \<open>A process whose storage client has been created, and its state after presigning.\<close>

definition with_s3_client :: "env \<Rightarrow> runtime" where
  "with_s3_client env = init_runtime\<lparr>s3Client := Some (new_client env)\<rparr>"

definition signed_state :: "number \<Rightarrow> runtime" where
  "signed_state expiry =
     add_events (with_s3_client full_env)
       [Presign (get_object_cmd full_env (JStr ''uploads/a.png'')) expiry]"

section \<open>Auxiliary facts\<close>

lemma skip_ws_length: "length (skip_ws cs) \<le> length cs"
  by (simp add: skip_ws_def length_dropWhile_le)

lemma prepend_Some:
  "prepend p r = Some (s, rest) \<Longrightarrow> \<exists>s'. r = Some (s', rest)"
  by (auto simp: prepend_def split: option.splits)

lemma lex_string_step:
  assumes "lex_string (c # cs) = Some (s, rest)"
  shows "rest = cs \<or> (\<exists>p t. length t \<le> length cs \<and> prepend p (lex_string t) = Some (s, rest))"
proof (cases "c = CHR 0x22")
  case True
  with assms show ?thesis by simp
next
  case notq: False
  show ?thesis
  proof (cases "c = CHR 0x5C")
    case False
    with assms notq have "prepend [c] (lex_string cs) = Some (s, rest)"
      by (auto split: if_splits)
    then show ?thesis by (intro disjI2 exI [of _ "[c]"] exI [of _ cs]) simp
  next
    case True
    show ?thesis
    proof (cases cs)
      case Nil
      with assms notq True show ?thesis by simp
    next
      case (Cons e r)
      have short: "length (drop k r) \<le> length cs" for k
        using Cons by simp
      have "\<exists>p k. prepend p (lex_string (drop k r)) = Some (s, rest)"
      proof (cases "e = CHR ''u''")
        case False
        with assms notq True Cons obtain ch where
          "prepend [ch] (lex_string (drop 0 r)) = Some (s, rest)"
          by (auto split: option.splits)
        then show ?thesis by blast
      next
        case u: True
        with assms notq True Cons obtain n where n: "lex_unit r = Some n"
          by (auto split: option.splits)
        show ?thesis
        proof (cases "lex_low_surrogate (drop 4 r)")
          case None
          with assms notq True Cons u n
          have "prepend (utf8 n) (lex_string (drop 4 r)) = Some (s, rest)"
            by simp
          then show ?thesis by blast
        next
          case (Some m)
          show ?thesis
          proof (cases "0xD800 \<le> n \<and> n < 0xDC00")
            case True
            with assms notq \<open>c = CHR 0x5C\<close> Cons u n Some
            have "prepend (utf8 (0x10000 + (n - 0xD800) * 1024 + (m - 0xDC00)))
                    (lex_string (drop 10 r)) = Some (s, rest)"
              by simp
            then show ?thesis by blast
          next
            case False
            with assms notq True Cons u n Some
            have "prepend (utf8 n) (lex_string (drop 4 r)) = Some (s, rest)"
              by auto
            then show ?thesis by blast
          qed
        qed
      qed
      then obtain p k where "prepend p (lex_string (drop k r)) = Some (s, rest)"
        by blast
      with short [of k] show ?thesis by blast
    qed
  qed
qed

lemma lex_string_shorter: "lex_string cs = Some (s, rest) \<Longrightarrow> length rest < length cs"
proof (induction "length cs" arbitrary: cs s rest rule: less_induct)
  case less
  show ?case
  proof (cases cs)
    case Nil
    with less.prems show ?thesis by simp
  next
    case (Cons c cs')
    from less.prems Cons lex_string_step [of c cs' s rest]
    consider "rest = cs'"
      | p t where "length t \<le> length cs'" "prepend p (lex_string t) = Some (s, rest)"
      by blast
    then show ?thesis
    proof cases
      case 1
      with Cons show ?thesis by simp
    next
      case 2
      from 2(2) obtain s' where "lex_string t = Some (s', rest)"
        using prepend_Some by blast
      moreover have "length t < length cs" using 2(1) Cons by simp
      ultimately have "length rest < length t" by (rule less.hyps [rotated])
      with 2(1) Cons show ?thesis by simp
    qed
  qed
qed

lemma lex_int_shorter: "lex_int cs = Some (i, rest) \<Longrightarrow> length rest < length cs"
proof -
  assume a: "lex_int cs = Some (i, rest)"
  then obtain c r where cs: "cs = c # r" by (cases cs) (auto simp: lex_int_def)
  show ?thesis
  proof (cases "c = CHR ''0''")
    case True
    with a cs show ?thesis by (simp add: lex_int_def)
  next
    case False
    with a cs have d: "is_digit c" and rest: "rest = dropWhile is_digit cs"
      by (auto simp: lex_int_def split: if_splits)
    then have "rest = dropWhile is_digit r" using cs by simp
    then have "length rest \<le> length r" by (simp add: length_dropWhile_le)
    with cs show ?thesis by simp
  qed
qed

lemma lex_frac_shorter: "lex_frac cs = Some (f, rest) \<Longrightarrow> length rest \<le> length cs"
  by (cases cs)
     (auto simp: lex_frac_def split: if_splits intro: le_SucI length_dropWhile_le)

lemma lex_sign_shorter: "lex_sign cs = (sg, rest) \<Longrightarrow> length rest \<le> length cs"
  by (cases cs) (auto simp: lex_sign_def split: if_splits)

lemma lex_exp_shorter: "lex_exp cs = Some (e, rest) \<Longrightarrow> length rest \<le> length cs"
proof (cases cs)
  case Nil
  assume "lex_exp cs = Some (e, rest)"
  with Nil show ?thesis by (simp add: lex_exp_def)
next
  case (Cons c r)
  assume a: "lex_exp cs = Some (e, rest)"
  show ?thesis
  proof (cases "c = CHR ''e'' \<or> c = CHR ''E''")
    case True
    obtain sg r' where s: "lex_sign r = (sg, r')" by (cases "lex_sign r") blast
    with a Cons True have "rest = dropWhile is_digit r'"
      by (auto simp: lex_exp_def split: if_splits)
    then have "length rest \<le> length r'" by (simp add: length_dropWhile_le)
    moreover have "length r' \<le> length r" using s by (rule lex_sign_shorter)
    ultimately show ?thesis using Cons by simp
  next
    case False
    with a Cons show ?thesis by (auto simp: lex_exp_def)
  qed
qed

lemma lex_number_shorter: "lex_number cs = Some (lx, rest) \<Longrightarrow> length rest < length cs"
proof -
  assume a: "lex_number cs = Some (lx, rest)"
  obtain sg r0 where s: "(case cs of [] \<Rightarrow> ([], []) | c # r \<Rightarrow> if c = CHR ''-'' then ([c], r) else ([], cs)) = (sg, r0)"
    by (cases "(case cs of [] \<Rightarrow> ([], []) | c # r \<Rightarrow> if c = CHR ''-'' then ([c], r) else ([]::string, cs))") blast
  have l0: "length r0 \<le> length cs"
    using s by (cases cs) (auto split: if_splits)
  from a s obtain i r1 f r2 e where i: "lex_int r0 = Some (i, r1)"
    and f: "lex_frac r1 = Some (f, r2)" and e: "lex_exp r2 = Some (e, rest)"
    by (auto simp: lex_number_def split: option.splits)
  from lex_int_shorter [OF i] lex_frac_shorter [OF f] lex_exp_shorter [OF e] l0
  show ?thesis by simp
qed

lemma skip_ws_Cons_shorter: "skip_ws r = d # r' \<Longrightarrow> length r' < length r"
  using skip_ws_length [of r] by simp

lemma parse_value_step_shorter:
  assumes IHv: "\<And>cs v rest. parse_value n cs = Some (v, rest) \<Longrightarrow> length rest < length cs"
    and IHe: "\<And>acc cs vs rest. parse_elements n acc cs = Some (vs, rest) \<Longrightarrow> length rest < length cs"
    and IHm: "\<And>cs kv rest. parse_member n cs = Some (kv, rest) \<Longrightarrow> length rest < length cs"
    and IHms: "\<And>acc cs fs rest. parse_members n acc cs = Some (fs, rest) \<Longrightarrow> length rest < length cs"
    and run: "parse_value (Suc n) cs = Some (v, rest)"
  shows "length rest < length cs"
proof (cases cs)
  case Nil
  with run show ?thesis by simp
next
  case (Cons c r)
  consider (arr) "c = CHR ''[''" | (obj) "c \<noteq> CHR ''[''" "c = CHR ''{''"
    | (str) "c \<noteq> CHR ''[''" "c \<noteq> CHR ''{''" "c = CHR 0x22"
    | (num) "c \<noteq> CHR ''[''" "c \<noteq> CHR ''{''" "c \<noteq> CHR 0x22" "c = CHR ''-'' \<or> is_digit c"
    | (lit) "c \<noteq> CHR ''[''" "c \<noteq> CHR ''{''" "c \<noteq> CHR 0x22" "\<not> (c = CHR ''-'' \<or> is_digit c)"
    by blast
  then show ?thesis
  proof cases
    case arr
    from run Cons arr obtain d r' where sk: "skip_ws r = d # r'"
      by (cases "skip_ws r") auto
    show ?thesis
    proof (cases "d = CHR '']''")
      case True
      with run Cons arr sk have "rest = r'" by simp
      with skip_ws_Cons_shorter [OF sk] Cons show ?thesis by simp
    next
      case False
      with run Cons arr sk obtain v1 rest1 vs where
        a: "parse_value n (d # r') = Some (v1, rest1)"
        and b: "parse_elements n [v1] (skip_ws rest1) = Some (vs, rest)"
        by (auto split: option.splits)
      have "length rest < length (skip_ws rest1)" using b by (rule IHe)
      also have "\<dots> \<le> length rest1" by (rule skip_ws_length)
      also have "\<dots> < length (d # r')" using a by (rule IHv)
      also have "\<dots> \<le> length r" using skip_ws_length [of r] sk by simp
      finally show ?thesis using Cons by simp
    qed
  next
    case obj
    from run Cons obj obtain d r' where sk: "skip_ws r = d # r'"
      by (cases "skip_ws r") auto
    show ?thesis
    proof (cases "d = CHR ''}''")
      case True
      with run Cons obj sk have "rest = r'" by simp
      with skip_ws_Cons_shorter [OF sk] Cons show ?thesis by simp
    next
      case False
      with run Cons obj sk obtain kv rest1 fs where
        a: "parse_member n (d # r') = Some (kv, rest1)"
        and b: "parse_members n [kv] (skip_ws rest1) = Some (fs, rest)"
        by (auto split: option.splits)
      have "length rest < length (skip_ws rest1)" using b by (rule IHms)
      also have "\<dots> \<le> length rest1" by (rule skip_ws_length)
      also have "\<dots> < length (d # r')" using a by (rule IHm)
      also have "\<dots> \<le> length r" using skip_ws_length [of r] sk by simp
      finally show ?thesis using Cons by simp
    qed
  next
    case str
    with run Cons obtain s where "lex_string r = Some (s, rest)"
      by (auto split: option.splits)
    from lex_string_shorter [OF this] Cons show ?thesis by simp
  next
    case num
    with run Cons obtain lx where "lex_number cs = Some (lx, rest)"
      by (auto split: option.splits)
    from lex_number_shorter [OF this] show ?thesis .
  next
    case lit
    with run Cons have "rest = drop 4 cs \<or> rest = drop 5 cs"
      by (auto split: if_splits)
    with Cons show ?thesis by auto
  qed
qed

lemma parse_elements_step_shorter:
  assumes IHv: "\<And>cs v rest. parse_value n cs = Some (v, rest) \<Longrightarrow> length rest < length cs"
    and IHe: "\<And>acc cs vs rest. parse_elements n acc cs = Some (vs, rest) \<Longrightarrow> length rest < length cs"
    and run: "parse_elements (Suc n) acc cs = Some (vs, rest)"
  shows "length rest < length cs"
proof (cases cs)
  case Nil
  with run show ?thesis by simp
next
  case (Cons c r)
  show ?thesis
  proof (cases "c = CHR '']''")
    case True
    with run Cons show ?thesis by simp
  next
    case False
    with run Cons obtain v1 rest1 where
      a: "parse_value n (skip_ws r) = Some (v1, rest1)"
      and b: "parse_elements n (acc @ [v1]) (skip_ws rest1) = Some (vs, rest)"
      by (auto split: if_splits option.splits)
    have "length rest < length (skip_ws rest1)" using b by (rule IHe)
    also have "\<dots> \<le> length rest1" by (rule skip_ws_length)
    also have "\<dots> < length (skip_ws r)" using a by (rule IHv)
    also have "\<dots> \<le> length r" by (rule skip_ws_length)
    finally show ?thesis using Cons by simp
  qed
qed

lemma parse_member_step_shorter:
  assumes IHv: "\<And>cs v rest. parse_value n cs = Some (v, rest) \<Longrightarrow> length rest < length cs"
    and run: "parse_member (Suc n) cs = Some (kv, rest)"
  shows "length rest < length cs"
proof (cases cs)
  case Nil
  with run show ?thesis by simp
next
  case (Cons c r)
  with run obtain k rest1 d r' v where
    a: "lex_string r = Some (k, rest1)" and sk: "skip_ws rest1 = d # r'"
    and b: "parse_value n (skip_ws r') = Some (v, rest)"
    by (auto split: if_splits option.splits list.splits)
  have "length rest < length (skip_ws r')" using b by (rule IHv)
  also have "\<dots> \<le> length r'" by (rule skip_ws_length)
  also have "\<dots> < length rest1" using sk by (rule skip_ws_Cons_shorter)
  also have "\<dots> < length r" using a by (rule lex_string_shorter)
  finally show ?thesis using Cons by simp
qed

lemma parse_members_step_shorter:
  assumes IHm: "\<And>cs kv rest. parse_member n cs = Some (kv, rest) \<Longrightarrow> length rest < length cs"
    and IHms: "\<And>acc cs fs rest. parse_members n acc cs = Some (fs, rest) \<Longrightarrow> length rest < length cs"
    and run: "parse_members (Suc n) acc cs = Some (fs, rest)"
  shows "length rest < length cs"
proof (cases cs)
  case Nil
  with run show ?thesis by simp
next
  case (Cons c r)
  show ?thesis
  proof (cases "c = CHR ''}''")
    case True
    with run Cons show ?thesis by simp
  next
    case False
    with run Cons obtain k v rest1 where
      a: "parse_member n (skip_ws r) = Some ((k, v), rest1)"
      and b: "parse_members n (obj_define acc k v) (skip_ws rest1) = Some (fs, rest)"
      by (auto split: if_splits option.splits)
    have "length rest < length (skip_ws rest1)" using b by (rule IHms)
    also have "\<dots> \<le> length rest1" by (rule skip_ws_length)
    also have "\<dots> < length (skip_ws r)" using a by (rule IHm)
    also have "\<dots> \<le> length r" by (rule skip_ws_length)
    finally show ?thesis using Cons by simp
  qed
qed

lemma parse_shorter:
  "(\<forall>cs v rest. parse_value n cs = Some (v, rest) \<longrightarrow> length rest < length cs)
   \<and> (\<forall>acc cs vs rest. parse_elements n acc cs = Some (vs, rest) \<longrightarrow> length rest < length cs)
   \<and> (\<forall>cs kv rest. parse_member n cs = Some (kv, rest) \<longrightarrow> length rest < length cs)
   \<and> (\<forall>acc cs fs rest. parse_members n acc cs = Some (fs, rest) \<longrightarrow> length rest < length cs)"
proof (induction n)
  case 0
  show ?case by simp
next
  case (Suc n)
  then have IHv: "\<And>cs v rest. parse_value n cs = Some (v, rest) \<Longrightarrow> length rest < length cs"
    and IHe: "\<And>acc cs vs rest. parse_elements n acc cs = Some (vs, rest) \<Longrightarrow> length rest < length cs"
    and IHm: "\<And>cs kv rest. parse_member n cs = Some (kv, rest) \<Longrightarrow> length rest < length cs"
    and IHms: "\<And>acc cs fs rest. parse_members n acc cs = Some (fs, rest) \<Longrightarrow> length rest < length cs"
    by blast+
  show ?case
  proof (intro conjI allI impI)
    fix cs v rest
    assume run: "parse_value (Suc n) cs = Some (v, rest)"
    from IHv IHe IHm IHms run show "length rest < length cs"
      by (rule parse_value_step_shorter)
  next
    fix acc cs vs rest
    assume run: "parse_elements (Suc n) acc cs = Some (vs, rest)"
    from IHv IHe run show "length rest < length cs"
      by (rule parse_elements_step_shorter)
  next
    fix cs kv rest
    assume run: "parse_member (Suc n) cs = Some (kv, rest)"
    from IHv run show "length rest < length cs"
      by (rule parse_member_step_shorter)
  next
    fix acc cs fs rest
    assume run: "parse_members (Suc n) acc cs = Some (fs, rest)"
    from IHm IHms run show "length rest < length cs"
      by (rule parse_members_step_shorter)
  qed
qed

lemmas parse_simps_del =
  parse_value.simps parse_elements.simps parse_member.simps parse_members.simps

lemma parse_value_shorter:
  "parse_value n cs = Some (v, rest) \<Longrightarrow> length rest < length cs"
  using parse_shorter [of n] by blast

lemma parse_member_shorter:
  "parse_member n cs = Some (kv, rest) \<Longrightarrow> length rest < length cs"
  using parse_shorter [of n] by blast

lemma parse_value_step_fuel:
  assumes IHv: "\<And>xs. length xs \<le> n \<Longrightarrow> parse_value (Suc n) xs = parse_value n xs"
    and IHe: "\<And>acc xs. length xs \<le> n \<Longrightarrow> parse_elements (Suc n) acc xs = parse_elements n acc xs"
    and IHm: "\<And>xs. length xs \<le> n \<Longrightarrow> parse_member (Suc n) xs = parse_member n xs"
    and IHms: "\<And>acc xs. length xs \<le> n \<Longrightarrow> parse_members (Suc n) acc xs = parse_members n acc xs"
    and len: "length cs \<le> Suc n"
  shows "parse_value (Suc (Suc n)) cs = parse_value (Suc n) cs"
proof (cases cs)
  case Nil
  then show ?thesis by simp
next
  case (Cons c r)
  note L = parse_value.simps(2) [of "Suc n" "c # r"]
  note R = parse_value.simps(2) [of n "c # r"]
  from len Cons have lr: "length r \<le> n" by simp
  show ?thesis
  proof (cases "skip_ws r")
    case Nil
    then show ?thesis unfolding Cons L R by (simp del: parse_simps_del)
  next
    case sk: (Cons d r')
    have ld: "length (d # r') \<le> n"
      using skip_ws_length [of r] sk lr by simp
    have ev: "parse_value (Suc n) (d # r') = parse_value n (d # r')"
      using ld by (rule IHv)
    have em: "parse_member (Suc n) (d # r') = parse_member n (d # r')"
      using ld by (rule IHm)
    have ee: "parse_elements (Suc n) [v] (skip_ws rest) = parse_elements n [v] (skip_ws rest)"
      if "parse_value n (d # r') = Some (v, rest)" for v rest
    proof -
      have "length rest < length (d # r')" using that by (rule parse_value_shorter)
      with ld have "length (skip_ws rest) \<le> n"
        using skip_ws_length [of rest] by simp
      then show ?thesis by (rule IHe)
    qed
    have ems: "parse_members (Suc n) [kv] (skip_ws rest) = parse_members n [kv] (skip_ws rest)"
      if "parse_member n (d # r') = Some (kv, rest)" for kv rest
    proof -
      have "length rest < length (d # r')" using that by (rule parse_member_shorter)
      with ld have "length (skip_ws rest) \<le> n"
        using skip_ws_length [of rest] by simp
      then show ?thesis by (rule IHms)
    qed
    have arr: "(case parse_value (Suc n) (d # r') of None \<Rightarrow> None
          | Some (v, rest) \<Rightarrow>
              (case parse_elements (Suc n) [v] (skip_ws rest) of None \<Rightarrow> None
               | Some (vs, rest') \<Rightarrow> Some (JArr vs, rest'))) =
        (case parse_value n (d # r') of None \<Rightarrow> None
          | Some (v, rest) \<Rightarrow>
              (case parse_elements n [v] (skip_ws rest) of None \<Rightarrow> None
               | Some (vs, rest') \<Rightarrow> Some (JArr vs, rest')))"
      unfolding ev using ee by (cases "parse_value n (d # r')") (auto simp del: parse_simps_del)
    have obj: "(case parse_member (Suc n) (d # r') of None \<Rightarrow> None
          | Some ((k, v), rest) \<Rightarrow>
              (case parse_members (Suc n) [(k, v)] (skip_ws rest) of None \<Rightarrow> None
               | Some (fs, rest') \<Rightarrow> Some (JObj fs, rest'))) =
        (case parse_member n (d # r') of None \<Rightarrow> None
          | Some ((k, v), rest) \<Rightarrow>
              (case parse_members n [(k, v)] (skip_ws rest) of None \<Rightarrow> None
               | Some (fs, rest') \<Rightarrow> Some (JObj fs, rest')))"
      unfolding em using ems by (cases "parse_member n (d # r')") (auto simp del: parse_simps_del)
    show ?thesis
      unfolding Cons by (simp only: L R sk list.case arr obj)
  qed
qed

lemma parse_elements_step_fuel:
  assumes IHv: "\<And>xs. length xs \<le> n \<Longrightarrow> parse_value (Suc n) xs = parse_value n xs"
    and IHe: "\<And>acc xs. length xs \<le> n \<Longrightarrow> parse_elements (Suc n) acc xs = parse_elements n acc xs"
    and len: "length cs \<le> Suc n"
  shows "parse_elements (Suc (Suc n)) acc cs = parse_elements (Suc n) acc cs"
proof (cases cs)
  case Nil
  then show ?thesis by simp
next
  case (Cons c r)
  note L = parse_elements.simps(2) [of "Suc n" acc "c # r"]
  note R = parse_elements.simps(2) [of n acc "c # r"]
  from len Cons have lr: "length (skip_ws r) \<le> n"
    using skip_ws_length [of r] by simp
  have ev: "parse_value (Suc n) (skip_ws r) = parse_value n (skip_ws r)"
    using lr by (rule IHv)
  have ee: "parse_elements (Suc n) (acc @ [v]) (skip_ws rest) =
      parse_elements n (acc @ [v]) (skip_ws rest)"
    if "parse_value n (skip_ws r) = Some (v, rest)" for v rest
  proof -
    have "length rest < length (skip_ws r)" using that by (rule parse_value_shorter)
    with lr have "length (skip_ws rest) \<le> n"
      using skip_ws_length [of rest] by simp
    then show ?thesis by (rule IHe)
  qed
  have "(case parse_value (Suc n) (skip_ws r) of None \<Rightarrow> None
        | Some (v, rest) \<Rightarrow> parse_elements (Suc n) (acc @ [v]) (skip_ws rest)) =
      (case parse_value n (skip_ws r) of None \<Rightarrow> None
        | Some (v, rest) \<Rightarrow> parse_elements n (acc @ [v]) (skip_ws rest))"
    unfolding ev using ee by (cases "parse_value n (skip_ws r)") (auto simp del: parse_simps_del)
  then show ?thesis
    unfolding Cons L R by (simp del: parse_simps_del)
qed

lemma parse_member_step_fuel:
  assumes IHv: "\<And>xs. length xs \<le> n \<Longrightarrow> parse_value (Suc n) xs = parse_value n xs"
    and len: "length cs \<le> Suc n"
  shows "parse_member (Suc (Suc n)) cs = parse_member (Suc n) cs"
proof (cases cs)
  case Nil
  then show ?thesis by simp
next
  case (Cons c r)
  note L = parse_member.simps(2) [of "Suc n" "c # r"]
  note R = parse_member.simps(2) [of n "c # r"]
  from len Cons have lr: "length r \<le> n" by simp
  have ev: "parse_value (Suc n) (skip_ws r') = parse_value n (skip_ws r')"
    if "lex_string r = Some (k, rest)" and "skip_ws rest = d # r'" for k rest d r'
  proof -
    have "length rest < length r" using that(1) by (rule lex_string_shorter)
    moreover have "length r' < length rest" using that(2) by (rule skip_ws_Cons_shorter)
    ultimately have "length (skip_ws r') \<le> n"
      using skip_ws_length [of r'] lr by simp
    then show ?thesis by (rule IHv)
  qed
  show ?thesis
    unfolding Cons L R using ev
    by (auto simp del: parse_simps_del split: option.splits list.splits)
qed

lemma parse_members_step_fuel:
  assumes IHm: "\<And>xs. length xs \<le> n \<Longrightarrow> parse_member (Suc n) xs = parse_member n xs"
    and IHms: "\<And>acc xs. length xs \<le> n \<Longrightarrow> parse_members (Suc n) acc xs = parse_members n acc xs"
    and len: "length cs \<le> Suc n"
  shows "parse_members (Suc (Suc n)) acc cs = parse_members (Suc n) acc cs"
proof (cases cs)
  case Nil
  then show ?thesis by simp
next
  case (Cons c r)
  note L = parse_members.simps(2) [of "Suc n" acc "c # r"]
  note R = parse_members.simps(2) [of n acc "c # r"]
  from len Cons have lr: "length (skip_ws r) \<le> n"
    using skip_ws_length [of r] by simp
  have em: "parse_member (Suc n) (skip_ws r) = parse_member n (skip_ws r)"
    using lr by (rule IHm)
  have ems: "parse_members (Suc n) (obj_define acc k v) (skip_ws rest) =
      parse_members n (obj_define acc k v) (skip_ws rest)"
    if "parse_member n (skip_ws r) = Some ((k, v), rest)" for k v rest
  proof -
    have "length rest < length (skip_ws r)" using that by (rule parse_member_shorter)
    with lr have "length (skip_ws rest) \<le> n"
      using skip_ws_length [of rest] by simp
    then show ?thesis by (rule IHms)
  qed
  have "(case parse_member (Suc n) (skip_ws r) of None \<Rightarrow> None
        | Some ((k, v), rest) \<Rightarrow> parse_members (Suc n) (obj_define acc k v) (skip_ws rest)) =
      (case parse_member n (skip_ws r) of None \<Rightarrow> None
        | Some ((k, v), rest) \<Rightarrow> parse_members n (obj_define acc k v) (skip_ws rest))"
    unfolding em using ems by (cases "parse_member n (skip_ws r)") (auto simp del: parse_simps_del)
  then show ?thesis
    unfolding Cons L R by (simp del: parse_simps_del)
qed

lemma parse_fuel_step:
  "(\<forall>xs. length xs \<le> n \<longrightarrow> parse_value (Suc n) xs = parse_value n xs)
   \<and> (\<forall>acc xs. length xs \<le> n \<longrightarrow> parse_elements (Suc n) acc xs = parse_elements n acc xs)
   \<and> (\<forall>xs. length xs \<le> n \<longrightarrow> parse_member (Suc n) xs = parse_member n xs)
   \<and> (\<forall>acc xs. length xs \<le> n \<longrightarrow> parse_members (Suc n) acc xs = parse_members n acc xs)"
proof (induction n)
  case 0
  show ?case by simp
next
  case (Suc n)
  then have IHv: "\<And>xs. length xs \<le> n \<Longrightarrow> parse_value (Suc n) xs = parse_value n xs"
    and IHe: "\<And>acc xs. length xs \<le> n \<Longrightarrow> parse_elements (Suc n) acc xs = parse_elements n acc xs"
    and IHm: "\<And>xs. length xs \<le> n \<Longrightarrow> parse_member (Suc n) xs = parse_member n xs"
    and IHms: "\<And>acc xs. length xs \<le> n \<Longrightarrow> parse_members (Suc n) acc xs = parse_members n acc xs"
    by blast+
  show ?case
  proof (intro conjI allI impI)
    fix xs :: string
    assume len: "length xs \<le> Suc n"
    from IHv IHe IHm IHms len show "parse_value (Suc (Suc n)) xs = parse_value (Suc n) xs"
      by (rule parse_value_step_fuel)
    from IHv len show "parse_member (Suc (Suc n)) xs = parse_member (Suc n) xs"
      by (rule parse_member_step_fuel)
  next
    fix acc :: "jsval list" and xs :: string
    assume len: "length xs \<le> Suc n"
    from IHv IHe len show "parse_elements (Suc (Suc n)) acc xs = parse_elements (Suc n) acc xs"
      by (rule parse_elements_step_fuel)
  next
    fix acc :: "(string \<times> jsval) list" and xs :: string
    assume len: "length xs \<le> Suc n"
    from IHm IHms len show "parse_members (Suc (Suc n)) acc xs = parse_members (Suc n) acc xs"
      by (rule parse_members_step_fuel)
  qed
qed

lemma parse_value_fuel:
  "length cs \<le> n \<Longrightarrow> parse_value (n + k) cs = parse_value n cs"
proof (induction k)
  case 0
  show ?case by simp
next
  case (Suc k)
  have "parse_value (Suc (n + k)) cs = parse_value (n + k) cs"
    using parse_fuel_step [of "n + k"] Suc.prems by simp
  with Suc show ?case by simp
qed

lemma JSON_parse_any_fuel:
  assumes "length text \<le> n"
  shows "JSON_parse text =
     (case parse_value n (skip_ws text) of
        None \<Rightarrow> Inl SyntaxError
      | Some (v, rest) \<Rightarrow> if skip_ws rest = [] then Inr v else Inl SyntaxError)"
proof -
  have a: "length (skip_ws text) \<le> length text" by (rule skip_ws_length)
  have "parse_value (Suc (length text)) (skip_ws text) = parse_value (length text) (skip_ws text)"
    using parse_value_fuel [OF a, of 1] by simp
  moreover have "parse_value n (skip_ws text) = parse_value (length text) (skip_ws text)"
    using parse_value_fuel [OF a, of "n - length text"] assms by simp
  ultimately show ?thesis by (simp add: JSON_parse_def del: parse_simps_del)
qed

lemma bind_prog_Inr: "m st = (Inr x, st') \<Longrightarrow> bind_prog m f st = f x st'"
  by (simp add: bind_prog_def)

lemma bind_prog_Inl: "m st = (Inl e, st') \<Longrightarrow> bind_prog m f st = (Inl e, st')"
  by (simp add: bind_prog_def)

lemma try_catch_Inr: "m st = (Inr x, st') \<Longrightarrow> try_catch m h st = (Inr x, st')"
  by (simp add: try_catch_def)

lemma try_catch_Inl: "m st = (Inl e, st') \<Longrightarrow> try_catch m h st = h e st'"
  by (simp add: try_catch_def)

lemma emit_event_apply: "emit_event ev st = (Inr (), st\<lparr>trace := trace st @ [ev]\<rparr>)"
  by (simp add: emit_event_def)

lemma call_world_apply:
  "call_world ev reply st = (reply (trace st @ [ev]), st\<lparr>trace := trace st @ [ev]\<rparr>)"
  by (simp add: call_world_def bind_prog_def emit_event_def)

lemma getSQSClient_cached:
  "sqsClient st = Some c \<Longrightarrow> getSQSClient env st = (Inr c, st)"
  by (simp add: getSQSClient_def)

lemma getSQSClient_missing:
  assumes "sqsClient st = None" and "sqs_missing env \<noteq> []"
  shows "getSQSClient env st =
           (Inl (ErrorMsg (sqs_errorMsg env)),
            st\<lparr>trace := trace st @ [Console (MissingEnvVars (sqs_errorMsg env))]\<rparr>)"
  using assms
  by (simp add: getSQSClient_def sqs_missing_def sqs_errorMsg_def Let_def bind_prog_def
      emit_event_def throw_prog_def)

lemma getSQSClient_fresh:
  assumes "sqsClient st = None" and "sqs_missing env = []"
  shows "getSQSClient env st =
           (Inr (new_client env),
            st\<lparr>sqsClient := Some (new_client env),
               trace := trace st @ [Console SQSClientInitialized]\<rparr>)"
  using assms
  by (simp add: getSQSClient_def sqs_missing_def Let_def bind_prog_def
      emit_event_def return_prog_def)

lemma getSQSClient_Inr_client:
  "getSQSClient env st = (Inr c, st') \<Longrightarrow> sqsClient st' = Some c"
  by (cases "sqsClient st"; cases "sqs_missing env = []")
     (auto simp: getSQSClient_cached getSQSClient_missing getSQSClient_fresh)

lemma getSQSClient_Inl_client:
  "getSQSClient env st = (Inl e, st') \<Longrightarrow> sqsClient st' = None \<and> sqsClient st = None"
  by (cases "sqsClient st"; cases "sqs_missing env = []")
     (auto simp: getSQSClient_cached getSQSClient_missing getSQSClient_fresh)

lemma receiveSQSMessages_with_client:
  assumes "getSQSClient env st = (Inr c, st1)"
  shows "receiveSQSMessages w env k st =
     ((case sqs_receive_reply w (trace st1 @ [SqsReceive (receive_cmd env k)]) of
         Inl e \<Rightarrow> Inl e
       | Inr Messages \<Rightarrow> Inr (case Messages of None \<Rightarrow> [] | Some ms \<Rightarrow> ms)),
      st1\<lparr>trace := trace st1 @ [SqsReceive (receive_cmd env k)]\<rparr>)"
  using assms
  by (simp add: receiveSQSMessages_def bind_prog_def call_world_apply receive_cmd_def
      return_prog_def Let_def emit_event_def call_world_def split: sum.splits)

lemma receiveSQSMessages_no_client:
  assumes "getSQSClient env st = (Inl e, st1)"
  shows "receiveSQSMessages w env k st = (Inl e, st1)"
  using assms by (simp add: receiveSQSMessages_def bind_prog_def)

lemma deleteSQSMessage_with_client:
  assumes "sqsClient st = Some c"
  shows "deleteSQSMessage w env rh st =
     (sqs_delete_reply w (trace st @ [SqsDelete (delete_cmd env rh)]),
      st\<lparr>trace := trace st @ [SqsDelete (delete_cmd env rh)]\<rparr>)"
  using assms
  by (simp add: deleteSQSMessage_def bind_prog_def getSQSClient_cached call_world_apply
      delete_cmd_def Let_def)

lemma add_events_simps [simp]:
  "trace (add_events st evs) = trace st @ evs"
  "sqsClient (add_events st evs) = sqsClient st"
  "s3Client (add_events st evs) = s3Client st"
  "add_events (add_events st xs) ys = add_events st (xs @ ys)"
  "add_events st [] = st"
  by (simp_all add: add_events_def)

lemma process_message_unfold:
  "process_message w env m st =
     (case JSON_parse (string_of_optional (Body m)) of
        Inl e \<Rightarrow> (Inr (), add_events st [Console (FailedToParse e)])
      | Inr body \<Rightarrow>
          (case new_message_line w body of
             Inl e \<Rightarrow> (Inr (), add_events st [Console (FailedToParse e)])
           | Inr topic \<Rightarrow>
               try_catch
                 (bind_prog (call_world (IoEmit ''message'' body) (io_emit_reply w)) (\<lambda>_.
                  deleteSQSMessage w env (ReceiptHandle m)))
                 (\<lambda>parseErr. emit_event (Console (FailedToParse parseErr)))
                 (add_events st [Console (NewSQSMessage topic body)])))"
proof (cases "JSON_parse (string_of_optional (Body m))")
  case (Inl e)
  then show ?thesis
    by (simp add: process_message_def try_catch_def bind_prog_def lift_result_def
        emit_event_def add_events_def)
next
  case parsed: (Inr body)
  show ?thesis
  proof (cases "get_property body ''topic''")
    case (Inl e)
    with parsed show ?thesis
      by (simp add: process_message_def new_message_line_def try_catch_def bind_prog_def
          lift_result_def emit_event_def add_events_def)
  next
    case topic: (Inr topic)
    show ?thesis
    proof (cases "ToString w topic")
      case (Inl e)
      with parsed topic show ?thesis
        by (simp add: process_message_def new_message_line_def try_catch_def bind_prog_def
            lift_result_def emit_event_def add_events_def)
    next
      case shown: (Inr topic_text)
      show ?thesis
      proof (cases "JSON_stringify w body")
        case (Inl e)
        with parsed topic shown show ?thesis
          by (simp add: process_message_def new_message_line_def try_catch_def bind_prog_def
              lift_result_def emit_event_def add_events_def)
      next
        case (Inr body_text)
        with parsed topic shown show ?thesis
          by (simp add: process_message_def new_message_line_def try_catch_def bind_prog_def
              lift_result_def emit_event_def add_events_def)
      qed
    qed
  qed
qed

lemma process_message_parse_error:
  assumes "JSON_parse (string_of_optional (Body m)) = Inl e"
  shows "process_message w env m st = (Inr (), add_events st [Console (FailedToParse e)])"
  using assms
  by (simp add: process_message_def try_catch_def bind_prog_def lift_result_def
      emit_event_def add_events_def)

lemma process_message_no_property:
  assumes "JSON_parse (string_of_optional (Body m)) = Inr body"
    and "get_property body ''topic'' = Inl e"
  shows "process_message w env m st = (Inr (), add_events st [Console (FailedToParse e)])"
  using assms
  by (simp add: process_message_def try_catch_def bind_prog_def lift_result_def
      emit_event_def add_events_def)

lemma process_message_no_line:
  assumes "JSON_parse (string_of_optional (Body m)) = Inr body"
    and "new_message_line w body = Inl e"
  shows "process_message w env m st = (Inr (), add_events st [Console (FailedToParse e)])"
  using assms by (simp add: process_message_unfold)

lemma new_message_line_topic:
  "new_message_line w body = Inr topic \<Longrightarrow> get_property body ''topic'' = Inr topic"
  by (simp add: new_message_line_def split: sum.splits)

lemma get_property_Inl_iff:
  "(get_property v name = Inl e) = ((v = JNull \<or> v = JUndefined) \<and> e = TypeError)"
  by (cases v) (auto simp: get_property_def split: option.splits)

lemma process_message_emit_fails:
  assumes "JSON_parse (string_of_optional (Body m)) = Inr body"
    and "new_message_line w body = Inr topic"
    and "io_emit_reply w (trace st @ published topic body) = Inl e"
  shows "process_message w env m st =
           (Inr (), add_events st (published topic body @ [Console (FailedToParse e)]))"
  using assms
  by (simp add: process_message_unfold try_catch_def bind_prog_def
      emit_event_def add_events_def call_world_def published_def)

lemma process_message_deleted:
  assumes "JSON_parse (string_of_optional (Body m)) = Inr body"
    and "new_message_line w body = Inr topic"
    and "io_emit_reply w (trace st @ published topic body) = Inr ()"
    and "sqsClient st = Some c"
  shows "process_message w env m st =
           (Inr (), add_events st
              (published topic body @ [SqsDelete (delete_cmd env (ReceiptHandle m))] @
               (case sqs_delete_reply w
                       (trace st @ published topic body @
                        [SqsDelete (delete_cmd env (ReceiptHandle m))]) of
                  Inl e \<Rightarrow> [Console (FailedToParse e)]
                | Inr u \<Rightarrow> [])))"
proof -
  let ?st2 = "add_events st (published topic body)"
  have del: "deleteSQSMessage w env (ReceiptHandle m) ?st2 =
     (sqs_delete_reply w (trace ?st2 @ [SqsDelete (delete_cmd env (ReceiptHandle m))]),
      ?st2\<lparr>trace := trace ?st2 @ [SqsDelete (delete_cmd env (ReceiptHandle m))]\<rparr>)"
    using assms(4) by (intro deleteSQSMessage_with_client [where c = c]) simp
  show ?thesis
    using assms(1-3) del
    by (simp add: process_message_unfold try_catch_def bind_prog_def
        emit_event_def add_events_def call_world_def published_def
        split: sum.splits)
qed

lemma extends_trace_refl [simp]: "extends_trace st st"
  by (simp add: extends_trace_def)

lemma extends_trace_trans:
  "extends_trace a b \<Longrightarrow> extends_trace b c \<Longrightarrow> extends_trace a c"
  unfolding extends_trace_def
  by (metis append_eq_conv_conj append_assoc append_take_drop_id)

lemma extends_trace_add [simp]: "extends_trace st (add_events st evs)"
  by (simp add: extends_trace_def)

lemma extends_traceI: "trace st' = trace st @ evs \<Longrightarrow> extends_trace st st'"
  by (simp add: extends_trace_def)

lemma extends_trace_length: "extends_trace st st' \<Longrightarrow> length (trace st) \<le> length (trace st')"
  unfolding extends_trace_def by (metis length_take min.cobounded1)

lemma getSQSClient_cases:
  obtains (cached) c where "sqsClient st = Some c" "getSQSClient env st = (Inr c, st)"
  | (missing) "sqsClient st = None"
      "getSQSClient env st = (Inl (ErrorMsg (sqs_errorMsg env)),
          add_events st [Console (MissingEnvVars (sqs_errorMsg env))])"
  | (fresh) "sqsClient st = None"
      "getSQSClient env st = (Inr (new_client env),
          add_events (st\<lparr>sqsClient := Some (new_client env)\<rparr>) [Console SQSClientInitialized])"
proof (cases "sqsClient st")
  case (Some c)
  then show ?thesis using cached getSQSClient_cached by blast
next
  case None
  show ?thesis
  proof (cases "sqs_missing env = []")
    case True
    with None show ?thesis
      using fresh getSQSClient_fresh [of st env] by (simp add: add_events_def)
  next
    case False
    with None show ?thesis
      using missing getSQSClient_missing [of st env] by (simp add: add_events_def)
  qed
qed

lemma getSQSClient_extends: "extends_trace st (snd (getSQSClient env st))"
  by (rule getSQSClient_cases [where st = st and env = env]) (simp_all add: extends_trace_def)

lemma deleteSQSMessage_extends: "extends_trace st (snd (deleteSQSMessage w env rh st))"
  by (rule getSQSClient_cases [where st = st and env = env])
     (simp_all add: deleteSQSMessage_def bind_prog_def call_world_apply Let_def extends_trace_def)

lemma process_message_total:
  "\<exists>st'. process_message w env m st = (Inr (), st') \<and> extends_trace st st'
         \<and> length (trace st) < length (trace st')"
proof (cases "JSON_parse (string_of_optional (Body m))")
  case (Inl e)
  then show ?thesis by (simp add: process_message_parse_error)
next
  case (Inr body)
  note parsed = this
  show ?thesis
  proof (cases "new_message_line w body")
    case (Inl e)
    with parsed show ?thesis by (simp add: process_message_no_line)
  next
    case (Inr topic)
    note tprop = this
    show ?thesis
    proof (cases "io_emit_reply w (trace st @ published topic body)")
      case (Inl e)
      with parsed tprop show ?thesis by (simp add: process_message_emit_fails)
    next
      case (Inr u)
      let ?st2 = "add_events st (published topic body)"
      obtain r st3 where del: "deleteSQSMessage w env (ReceiptHandle m) ?st2 = (r, st3)"
        by (cases "deleteSQSMessage w env (ReceiptHandle m) ?st2") blast
      have ext: "extends_trace ?st2 st3"
        using deleteSQSMessage_extends [of ?st2 w env "ReceiptHandle m"] del by simp
      have len: "length (trace st) < length (trace st3)"
        using extends_trace_length [OF ext] by (simp add: published_def)
      have ext': "extends_trace st st3"
        using extends_trace_trans [OF _ ext, of st] by simp
      have run: "process_message w env m st =
          (case r of Inl e \<Rightarrow> (Inr (), add_events st3 [Console (FailedToParse e)])
                   | Inr x \<Rightarrow> (Inr (), st3))"
        using parsed tprop Inr del
        by (simp add: process_message_unfold try_catch_def bind_prog_def
            emit_event_def add_events_def call_world_def published_def
            split: sum.splits)
      show ?thesis
      proof (cases r)
        case (Inl e)
        with run ext' len show ?thesis
          using extends_trace_trans [OF ext', of "add_events st3 [Console (FailedToParse e)]"]
          by simp
      next
        case (Inr x)
        with run ext' len show ?thesis by simp
      qed
    qed
  qed
qed

lemma for_messages_total:
  "\<exists>st'. for_messages w env ms st = (Inr (), st') \<and> extends_trace st st'
         \<and> length (trace st) + length ms \<le> length (trace st')"
proof (induction ms arbitrary: st)
  case Nil
  show ?case by (simp add: return_prog_def)
next
  case (Cons m ms)
  obtain st1 where m: "process_message w env m st = (Inr (), st1)"
    and e1: "extends_trace st st1" and l1: "length (trace st) < length (trace st1)"
    using process_message_total by blast
  obtain st2 where ms: "for_messages w env ms st1 = (Inr (), st2)"
    and e2: "extends_trace st1 st2" and l2: "length (trace st1) + length ms \<le> length (trace st2)"
    using Cons.IH by blast
  have "for_messages w env (m # ms) st = (Inr (), st2)"
    using m ms by (simp add: bind_prog_def)
  moreover have "extends_trace st st2" using e1 e2 by (rule extends_trace_trans)
  moreover have "length (trace st) + length (m # ms) \<le> length (trace st2)"
    using l1 l2 by simp
  ultimately show ?case by blast
qed

lemma for_messages_append:
  "for_messages w env (ms1 @ ms2) st =
     for_messages w env ms2 (snd (for_messages w env ms1 st))"
proof (induction ms1 arbitrary: st)
  case Nil
  show ?case by (simp add: return_prog_def)
next
  case (Cons m ms1)
  obtain st1 where m: "process_message w env m st = (Inr (), st1)"
    using process_message_total by blast
  then show ?case using Cons.IH [of st1] by (simp add: bind_prog_def)
qed

lemma receiveSQSMessages_extends:
  "extends_trace st (snd (receiveSQSMessages w env k st))"
  by (rule getSQSClient_cases [where st = st and env = env])
     (simp_all add: receiveSQSMessages_with_client receiveSQSMessages_no_client
        extends_trace_def)

lemma receiveSQSMessages_grows:
  "length (trace st) < length (trace (snd (receiveSQSMessages w env k st)))"
  by (rule getSQSClient_cases [where st = st and env = env])
     (simp_all add: receiveSQSMessages_with_client receiveSQSMessages_no_client)

lemma poll_once_receive_error:
  assumes "receiveSQSMessages w env 5 st = (Inl e, st1)"
  shows "poll_once w env st =
           (Inr (), add_events st1 [Console (SQSPollingError e), SetTimeout 5000])"
  using assms
  by (simp add: poll_once_def try_catch_def bind_prog_def emit_event_def add_events_def)

lemma poll_once_received:
  assumes "receiveSQSMessages w env 5 st = (Inr ms, st1)"
  shows "poll_once w env st = for_messages w env ms st1"
proof -
  obtain st2 where "for_messages w env ms st1 = (Inr (), st2)"
    using for_messages_total by blast
  with assms show ?thesis
    by (simp add: poll_once_def try_catch_def bind_prog_def)
qed

lemma poll_once_total:
  "\<exists>st'. poll_once w env st = (Inr (), st') \<and> extends_trace st st'
         \<and> length (trace st) < length (trace st')"
proof -
  obtain r st1 where rcv: "receiveSQSMessages w env 5 st = (r, st1)"
    by (cases "receiveSQSMessages w env 5 st") blast
  have e1: "extends_trace st st1" and l1: "length (trace st) < length (trace st1)"
    using receiveSQSMessages_extends [of st w env 5] receiveSQSMessages_grows [of st w env 5] rcv
    by simp_all
  show ?thesis
  proof (cases r)
    case (Inl e)
    with rcv have "poll_once w env st =
        (Inr (), add_events st1 [Console (SQSPollingError e), SetTimeout 5000])"
      by (simp add: poll_once_receive_error)
    moreover have "extends_trace st (add_events st1 [Console (SQSPollingError e), SetTimeout 5000])"
      using e1 extends_trace_add by (rule extends_trace_trans)
    ultimately show ?thesis using l1 by simp
  next
    case (Inr ms)
    with rcv have p: "poll_once w env st = for_messages w env ms st1"
      by (simp add: poll_once_received)
    obtain st2 where f: "for_messages w env ms st1 = (Inr (), st2)"
      and e2: "extends_trace st1 st2" and l2: "length (trace st1) + length ms \<le> length (trace st2)"
      using for_messages_total by blast
    have "extends_trace st st2" using e1 e2 by (rule extends_trace_trans)
    with p f l1 l2 show ?thesis by simp
  qed
qed

lemma poll_loop_total:
  "\<exists>st'. poll_loop w env n st = Running st' \<and> extends_trace st st'
         \<and> length (trace st) + n \<le> length (trace st')"
proof (induction n arbitrary: st)
  case 0
  show ?case by simp
next
  case (Suc n)
  obtain st1 where p: "poll_once w env st = (Inr (), st1)"
    and e1: "extends_trace st st1" and l1: "length (trace st) < length (trace st1)"
    using poll_once_total by blast
  obtain st2 where l: "poll_loop w env n st1 = Running st2"
    and e2: "extends_trace st1 st2" and l2: "length (trace st1) + n \<le> length (trace st2)"
    using Suc.IH by blast
  have "poll_loop w env (Suc n) st = Running st2" using p l by simp
  moreover have "extends_trace st st2" using e1 e2 by (rule extends_trace_trans)
  moreover have "length (trace st) + Suc n \<le> length (trace st2)" using l1 l2 by simp
  ultimately show ?case by blast
qed

lemma poll_once_missing_config:
  assumes "sqsClient st = None" and "sqs_missing env \<noteq> []"
  shows "poll_once w env st = (Inr (), add_events st (config_failure_round env))"
proof -
  have "receiveSQSMessages w env 5 st =
      (Inl (ErrorMsg (sqs_errorMsg env)),
       add_events st [Console (MissingEnvVars (sqs_errorMsg env))])"
    using getSQSClient_missing [OF assms]
    by (simp add: receiveSQSMessages_no_client add_events_def)
  then show ?thesis
    by (simp add: poll_once_receive_error config_failure_round_def)
qed

lemma poll_loop_missing_config:
  assumes "sqsClient st = None" and "sqs_missing env \<noteq> []"
  shows "poll_loop w env n st =
           Running (add_events st (concat (replicate n (config_failure_round env))))"
  using assms(1)
proof (induction n arbitrary: st)
  case 0
  show ?case by simp
next
  case (Suc n)
  have "sqsClient (add_events st (config_failure_round env)) = None"
    using Suc.prems by simp
  from Suc.IH [OF this] poll_once_missing_config [OF Suc.prems assms(2)]
  show ?case by simp
qed

lemma sqs_missing_no_url:
  "sqs_missing (full_env(''AWS_SQS_QUEUE_URL'' := None)) = [''AWS_SQS_QUEUE_URL'']"
  by (simp add: sqs_missing_def full_env_def sqs_requiredEnvVars_def falsy_str_def)

lemma events_after_add [simp]: "events_after st (add_events st evs) = evs"
  by (simp add: events_after_def)

lemma parse_not_json: "JSON_parse ''not-json'' = Inl SyntaxError"
  by code_simp

lemma parse_null: "JSON_parse ''null'' = Inr JNull"
  by code_simp

lemma new_message_line_string:
  assumes "get_property body ''topic'' = Inr (JStr t)" and "\<not> stringify_overflow w body"
  shows "new_message_line w body = Inr (JStr t)"
  using assms
  by (simp add: new_message_line_def ToString_def JSON_stringify_def del: serialize.simps)

lemma new_message_line_null: "new_message_line w JNull = Inl TypeError"
  by (simp add: new_message_line_def get_property_def)

lemma parse_method:
  \<open>JSON_parse ''{"topic":{"toString":1},"text":"x"}'' =
     Inr (JObj [(''topic'', JObj [(''toString'', JNum ''1'')]), (''text'', JStr ''x'')])\<close>
  by code_simp

lemma new_message_line_method:
  "new_message_line w
     (JObj [(''topic'', JObj [(''toString'', JNum ''1'')]), (''text'', JStr ''x'')]) =
   Inl TypeError"
  by (simp add: new_message_line_def get_property_def ToString_def)

lemma parse_hi:
  \<open>JSON_parse ''{"text":"hi","topic":"t1"}'' =
     Inr (JObj [(''text'', JStr ''hi''), (''topic'', JStr ''t1'')])\<close>
  by code_simp

lemma failing_delete_receive:
  "receiveSQSMessages failing_delete_world full_env 5 (with_client full_env) =
     (Inr [msg_bad, msg_hi, msg_null],
      add_events (with_client full_env) [SqsReceive (receive_cmd full_env 5)])"
proof -
  have c: "getSQSClient full_env (with_client full_env) =
      (Inr (new_client full_env), with_client full_env)"
    by (simp add: getSQSClient_cached with_client_def)
  show ?thesis
    by (simp add: receiveSQSMessages_with_client [OF c] failing_delete_world_def add_events_def)
qed

lemma failing_delete_round:
  "poll_once failing_delete_world full_env (with_client full_env) =
     (Inr (), add_events (with_client full_env)
        [SqsReceive (receive_cmd full_env 5),
         Console (FailedToParse SyntaxError),
         Console (NewSQSMessage (JStr ''t1'') (JObj [(''text'', JStr ''hi''), (''topic'', JStr ''t1'')])),
         IoEmit ''message'' (JObj [(''text'', JStr ''hi''), (''topic'', JStr ''t1'')]),
         SqsDelete (delete_cmd full_env (Some ''r1'')),
         Console (FailedToParse (ServiceError ''delete failed'')),
         Console (FailedToParse TypeError)])"
proof -
  let ?w = failing_delete_world
  let ?st0 = "with_client full_env"
  let ?st1 = "add_events ?st0 [SqsReceive (receive_cmd full_env 5)]"
  have r: "receiveSQSMessages ?w full_env 5 ?st0 = (Inr [msg_bad, msg_hi, msg_null], ?st1)"
    by (rule failing_delete_receive)
  have m1: "process_message ?w full_env msg_bad ?st1 =
      (Inr (), add_events ?st1 [Console (FailedToParse SyntaxError)])"
    by (rule process_message_parse_error)
       (simp add: msg_bad_def string_of_optional_def parse_not_json)
  let ?st2 = "add_events ?st1 [Console (FailedToParse SyntaxError)]"
  let ?body = "JObj [(''text'', JStr ''hi''), (''topic'', JStr ''t1'')]"
  have m2: "process_message ?w full_env msg_hi ?st2 =
      (Inr (), add_events ?st2
        (published (JStr ''t1'') ?body @ [SqsDelete (delete_cmd full_env (ReceiptHandle msg_hi))] @
         [Console (FailedToParse (ServiceError ''delete failed''))]))"
    using process_message_deleted [of msg_hi ?body ?w "JStr ''t1''" ?st2 "new_client full_env" full_env]
      new_message_line_string [of ?body "''t1''" ?w]
    by (simp add: msg_hi_def string_of_optional_def parse_hi get_property_def
        failing_delete_world_def calm_world_def with_client_def del: serialize.simps)
  let ?st3 = "add_events ?st2
        (published (JStr ''t1'') ?body @ [SqsDelete (delete_cmd full_env (ReceiptHandle msg_hi))] @
         [Console (FailedToParse (ServiceError ''delete failed''))])"
  have m3: "process_message ?w full_env msg_null ?st3 =
      (Inr (), add_events ?st3 [Console (FailedToParse TypeError)])"
    by (rule process_message_no_line [where body = JNull])
       (simp_all add: msg_null_def string_of_optional_def parse_null new_message_line_null)
  have "poll_once ?w full_env ?st0 = for_messages ?w full_env [msg_bad, msg_hi, msg_null] ?st1"
    using r by (rule poll_once_received)
  also have "\<dots> = (Inr (), add_events ?st3 [Console (FailedToParse TypeError)])"
    using m1 m2 m3 by (simp add: bind_prog_def return_prog_def)
  finally show ?thesis
    by (simp add: published_def msg_hi_def)
qed

lemma parse_value_defined: "parse_value n cs = Some (v, rest) \<Longrightarrow> v \<noteq> JUndefined"
  by (cases n) (auto split: list.splits if_splits option.splits prod.splits)

lemma JSON_parse_defined:
  assumes "JSON_parse text = Inr v"
  shows "v \<noteq> JUndefined"
proof -
  obtain rest where "parse_value (Suc (length text)) (skip_ws text) = Some (v, rest)"
    using assms unfolding JSON_parse_def
    by (cases "parse_value (Suc (length text)) (skip_ws text)")
       (auto simp del: parse_value.simps split: if_splits)
  then show ?thesis by (rule parse_value_defined)
qed

lemma process_message_keeps_client:
  "sqsClient st = Some c \<Longrightarrow> sqsClient (snd (process_message w env m st)) = Some c"
proof -
  assume c: "sqsClient st = Some c"
  show ?thesis
  proof (cases "JSON_parse (string_of_optional (Body m))")
    case (Inl e)
    then show ?thesis using c by (simp add: process_message_parse_error)
  next
    case (Inr body)
    note parsed = this
    show ?thesis
    proof (cases "new_message_line w body")
      case (Inl e)
      with parsed show ?thesis using c by (simp add: process_message_no_line)
    next
      case (Inr topic)
      note tprop = this
      show ?thesis
      proof (cases "io_emit_reply w (trace st @ published topic body)")
        case (Inl e)
        with parsed tprop show ?thesis using c by (simp add: process_message_emit_fails)
      next
        case (Inr u)
        with parsed tprop show ?thesis
          using c process_message_deleted [of m body w topic st c env] by simp
      qed
    qed
  qed
qed

lemma for_messages_keeps_client:
  "sqsClient st = Some c \<Longrightarrow> sqsClient (snd (for_messages w env ms st)) = Some c"
proof (induction ms arbitrary: st)
  case Nil
  then show ?case by (simp add: return_prog_def)
next
  case (Cons m ms)
  obtain st1 where m: "process_message w env m st = (Inr (), st1)"
    using process_message_total by blast
  have "sqsClient st1 = Some c"
    using process_message_keeps_client [OF Cons.prems, of w env m] m by simp
  from Cons.IH [OF this] m show ?case by (simp add: bind_prog_def)
qed

lemma received_has_client:
  assumes "receiveSQSMessages w env k st = (Inr ms, st1)"
  shows "\<exists>c. sqsClient st1 = Some c"
proof (rule getSQSClient_cases [where st = st and env = env])
  fix c assume "sqsClient st = Some c" and g: "getSQSClient env st = (Inr c, st)"
  then show ?thesis using assms by (auto simp: receiveSQSMessages_with_client [OF g])
next
  assume "getSQSClient env st = (Inl (ErrorMsg (sqs_errorMsg env)),
          add_events st [Console (MissingEnvVars (sqs_errorMsg env))])"
  then show ?thesis using assms by (simp add: receiveSQSMessages_no_client)
next
  assume g: "getSQSClient env st = (Inr (new_client env),
          add_events (st\<lparr>sqsClient := Some (new_client env)\<rparr>) [Console SQSClientInitialized])"
  show ?thesis using assms by (auto simp: receiveSQSMessages_with_client [OF g])
qed

lemma receive_events:
  "events_after st (snd (receiveSQSMessages w env k st)) = [SqsReceive (receive_cmd env k)]
   \<or> events_after st (snd (receiveSQSMessages w env k st)) =
        [Console SQSClientInitialized, SqsReceive (receive_cmd env k)]
   \<or> events_after st (snd (receiveSQSMessages w env k st)) =
        [Console (MissingEnvVars (sqs_errorMsg env))]"
  by (rule getSQSClient_cases [where st = st and env = env])
     (simp_all add: receiveSQSMessages_with_client receiveSQSMessages_no_client
        events_after_def)

lemma replace_trailing_slash_cases:
  "(d = replace_trailing_slash d @ ''/'') \<or>
   (d = replace_trailing_slash d \<and> (d = [] \<or> last d \<noteq> CHR ''/''))"
proof (cases "d \<noteq> [] \<and> last d = CHR ''/''")
  case True
  then have "d = butlast d @ ''/''"
    by (metis append_butlast_last_id)
  moreover from True have "replace_trailing_slash d = butlast d"
    by (simp add: replace_trailing_slash_def)
  ultimately show ?thesis by simp
next
  case False
  then show ?thesis by (auto simp: replace_trailing_slash_def)
qed

lemma replace_leading_slash_cases:
  "(k = ''/'' @ replace_leading_slash k) \<or>
   (k = replace_leading_slash k \<and> (k = [] \<or> hd k \<noteq> CHR ''/''))"
  by (cases k) (auto simp: replace_leading_slash_def)

lemma map_of_obj_put:
  "map_of (obj_put fs k v) k' = (if k' = k then Some v else map_of fs k')"
  by (induction fs) auto

lemma publish_calls_append:
  "publish_calls (xs @ ys) = publish_calls xs @ publish_calls ys"
  by (induction xs rule: publish_calls.induct) simp_all

lemma send_calls_append:
  "send_calls (xs @ ys) = send_calls xs @ send_calls ys"
  by (induction xs rule: send_calls.induct) simp_all

lemma JSON_stringify_object:
  "JSON_stringify w (JObj fs) =
     (if stringify_overflow w (JObj fs) then Inl RangeError
      else Inr (Some (serialize (JObj fs))))"
  by (simp add: JSON_stringify_def is_nested_def del: serialize.simps)

lemma sendSQSMessage_with_client:
  assumes "getSQSClient env st = (Inr c, st1)"
    and "\<not> stringify_overflow w (JObj
           (obj_put (obj_put data ''topic'' (default_topic topic_arg))
              ''timestamp'' (JStr (date_iso w (trace st1)))))"
  shows "sendSQSMessage w env data topic_arg st =
     (sqs_send_reply w (trace st1 @
        [SqsSend \<lparr>sc_QueueUrl = env ''AWS_SQS_QUEUE_URL'',
                  sc_MessageBody = Some (serialize (JObj
                    (obj_put (obj_put data ''topic'' (default_topic topic_arg))
                       ''timestamp'' (JStr (date_iso w (trace st1)))))),
                  sc_Topic_DataType = ''String'',
                  sc_Topic_StringValue = default_topic topic_arg\<rparr>]),
      add_events st1
        [SqsSend \<lparr>sc_QueueUrl = env ''AWS_SQS_QUEUE_URL'',
                  sc_MessageBody = Some (serialize (JObj
                    (obj_put (obj_put data ''topic'' (default_topic topic_arg))
                       ''timestamp'' (JStr (date_iso w (trace st1)))))),
                  sc_Topic_DataType = ''String'',
                  sc_Topic_StringValue = default_topic topic_arg\<rparr>])"
  using assms
  by (simp add: sendSQSMessage_def bind_prog_def read_world_def call_world_apply Let_def
      default_topic_def add_events_def lift_result_def JSON_stringify_object
      del: serialize.simps)

lemma sendSQSMessage_overflow:
  assumes "getSQSClient env st = (Inr c, st1)"
    and "stringify_overflow w (JObj
           (obj_put (obj_put data ''topic'' (default_topic topic_arg))
              ''timestamp'' (JStr (date_iso w (trace st1)))))"
  shows "sendSQSMessage w env data topic_arg st = (Inl RangeError, st1)"
  using assms
  by (simp add: sendSQSMessage_def bind_prog_def read_world_def Let_def
      default_topic_def lift_result_def JSON_stringify_object del: serialize.simps)

lemma sendSQSMessage_no_client:
  assumes "getSQSClient env st = (Inl e, st1)"
  shows "sendSQSMessage w env data topic_arg st = (Inl e, st1)"
  using assms by (simp add: sendSQSMessage_def bind_prog_def Let_def)

lemma getSQSClient_events:
  "\<exists>evs. trace (snd (getSQSClient env st)) = trace st @ evs
       \<and> publish_calls evs = [] \<and> send_calls evs = [] \<and> delete_calls evs = []"
  by (rule getSQSClient_cases [where st = st and env = env]) simp_all

lemma process_message_publishes:
  "\<exists>evs. trace (snd (process_message w env m st)) = trace st @ evs
     \<and> (publish_calls evs = []
        \<or> (\<exists>body. JSON_parse (string_of_optional (Body m)) = Inr body
              \<and> publish_calls evs = [body]))"
proof (cases "JSON_parse (string_of_optional (Body m))")
  case (Inl e)
  then show ?thesis by (simp add: process_message_parse_error)
next
  case (Inr body)
  note parsed = this
  show ?thesis
  proof (cases "new_message_line w body")
    case (Inl e)
    with parsed show ?thesis by (simp add: process_message_no_line)
  next
    case (Inr topic)
    note tprop = this
    show ?thesis
    proof (cases "io_emit_reply w (trace st @ published topic body)")
      case (Inl e)
      with parsed tprop show ?thesis
        by (simp add: process_message_emit_fails published_def)
    next
      case (Inr u)
      let ?st2 = "add_events st (published topic body)"
      obtain r st3 where del: "deleteSQSMessage w env (ReceiptHandle m) ?st2 = (r, st3)"
        by (cases "deleteSQSMessage w env (ReceiptHandle m) ?st2") blast
      obtain g st2' where g: "getSQSClient env ?st2 = (g, st2')"
        by (cases "getSQSClient env ?st2") blast
      obtain evs where evs: "trace st2' = trace ?st2 @ evs" "publish_calls evs = []"
        using getSQSClient_events [of env ?st2] g by auto
      have "\<exists>xs. trace st3 = trace ?st2 @ xs \<and> publish_calls xs = []"
      proof (cases g)
        case (Inl e)
        with g del evs show ?thesis
          by (auto simp: deleteSQSMessage_def bind_prog_def)
      next
        case (Inr c)
        with g del evs show ?thesis
          by (auto simp: deleteSQSMessage_def bind_prog_def call_world_apply Let_def
              publish_calls_append)
      qed
      then obtain xs where xs: "trace st3 = trace ?st2 @ xs" "publish_calls xs = []"
        by blast
      have run: "process_message w env m st =
          (case r of Inl e \<Rightarrow> (Inr (), add_events st3 [Console (FailedToParse e)])
                   | Inr x \<Rightarrow> (Inr (), st3))"
        using parsed tprop Inr del
        by (simp add: process_message_unfold try_catch_def bind_prog_def
            emit_event_def add_events_def call_world_def published_def split: sum.splits)
      show ?thesis
      proof (cases r)
        case (Inl e)
        with run xs parsed show ?thesis
          by (simp add: published_def publish_calls_append)
      next
        case (Inr x)
        with run xs parsed show ?thesis
          by (simp add: published_def publish_calls_append)
      qed
    qed
  qed
qed

lemma obj_put_keys: "fst ` set (obj_put fs k v) = insert k (fst ` set fs)"
proof (induction fs)
  case Nil
  show ?case by simp
next
  case (Cons f fs)
  obtain k' v' where f: "f = (k', v')" by (cases f)
  show ?case
  proof (cases "k' = k")
    case True
    with f show ?thesis by simp
  next
    case False
    have "fst ` set (obj_put (f # fs) k v) = insert k' (fst ` set (obj_put fs k v))"
      using f False by simp
    also have "\<dots> = insert k' (insert k (fst ` set fs))"
      by (simp only: Cons.IH)
    also have "\<dots> = insert k (fst ` set (f # fs))"
      using f by (simp add: insert_commute)
    finally show ?thesis .
  qed
qed

lemma obj_put_distinct: "distinct (map fst fs) \<Longrightarrow> distinct (map fst (obj_put fs k v))"
proof (induction fs)
  case Nil
  show ?case by simp
next
  case (Cons f fs)
  obtain k' v' where f: "f = (k', v')" by (cases f)
  show ?case
  proof (cases "k' = k")
    case True
    with Cons.prems f show ?thesis by simp
  next
    case False
    have "k' \<notin> fst ` set (obj_put fs k v)"
      using Cons.prems f False by (simp add: obj_put_keys)
    with Cons f False show ?thesis by simp
  qed
qed

lemma obj_put_fresh: "k \<notin> fst ` set fs \<Longrightarrow> obj_put fs k v = fs @ [(k, v)]"
  by (induction fs) auto

lemma serialize_hi:
  \<open>serialize (JObj [(''text'', JStr ''hi''), (''topic'', JStr ''general''),
       (''timestamp'', JStr ''2026-01-01T00:00:00.000Z'')]) = sent_hi\<close>
  by code_simp

lemma parse_sent_hi:
  \<open>JSON_parse sent_hi =
     Inr (JObj [(''text'', JStr ''hi''), (''topic'', JStr ''general''),
       (''timestamp'', JStr ''2026-01-01T00:00:00.000Z'')])\<close>
  by code_simp

lemma getSQSClient_Inl_missing:
  assumes "getSQSClient env st = (Inl e, st')"
  shows "sqsClient st = None \<and> sqs_missing env \<noteq> []"
proof -
  have "sqsClient st = None"
    using assms getSQSClient_cached [of st _ env] by (cases "sqsClient st") auto
  moreover have "sqs_missing env \<noteq> []"
    using assms getSQSClient_fresh [of st env] \<open>sqsClient st = None\<close> by auto
  ultimately show ?thesis by simp
qed

lemma envelope_of_client_message:
  "obj_put (obj_put [(''text'', t), (''senderId'', s)] ''topic'' tp) ''timestamp'' ts =
     [(''text'', t), (''senderId'', s), (''topic'', tp), (''timestamp'', ts)]"
  by simp

lemma on_send_message_unfold:
  "on_send_message w env sid data st =
     (case send_message_line w data of
        Inl e \<Rightarrow> (Inr (), add_events st [Console (SocketSendError e)])
      | Inr (topic, tx) \<Rightarrow>
          try_catch
            (bind_prog (sendSQSMessage w env [(''text'', tx), (''senderId'', JStr sid)] topic)
               (\<lambda>_. return_prog ()))
            (\<lambda>error. emit_event (Console (SocketSendError error)))
            (add_events st [Console (SendingToSQS topic tx)]))"
proof (cases "get_property data ''text''")
  case (Inl e)
  then show ?thesis
    by (simp add: on_send_message_def send_message_line_def try_catch_def bind_prog_def
        lift_result_def emit_event_def add_events_def)
next
  case tx: (Inr tx)
  show ?thesis
  proof (cases "get_property data ''topic''")
    case (Inl e)
    with tx show ?thesis
      by (simp add: on_send_message_def send_message_line_def try_catch_def bind_prog_def
          lift_result_def emit_event_def add_events_def)
  next
    case topic: (Inr topic)
    show ?thesis
    proof (cases "ToString w topic")
      case (Inl e)
      with tx topic show ?thesis
        by (simp add: on_send_message_def send_message_line_def try_catch_def bind_prog_def
            lift_result_def emit_event_def add_events_def)
    next
      case shown: (Inr topic_text)
      show ?thesis
      proof (cases "ToString w tx")
        case (Inl e)
        with tx topic shown show ?thesis
          by (simp add: on_send_message_def send_message_line_def try_catch_def bind_prog_def
              lift_result_def emit_event_def add_events_def)
      next
        case (Inr text_text)
        with tx topic shown show ?thesis
          by (simp add: on_send_message_def send_message_line_def try_catch_def bind_prog_def
              lift_result_def emit_event_def add_events_def)
      qed
    qed
  qed
qed

lemma send_message_line_object:
  assumes "ToString w (property_of fs ''topic'') = Inr topic_text"
    and "ToString w (property_of fs ''text'') = Inr text_text"
  shows "send_message_line w (JObj fs) = Inr (property_of fs ''topic'', property_of fs ''text'')"
  using assms
  by (simp add: send_message_line_def get_property_def property_of_def split: option.splits)

lemma send_message_line_properties:
  assumes "send_message_line w (JObj fs) = Inr (topic, tx)"
  shows "topic = property_of fs ''topic'' \<and> tx = property_of fs ''text''"
  using assms
  by (auto simp: send_message_line_def get_property_def property_of_def
      split: option.splits sum.splits)

lemma on_send_message_events:
  "\<exists>evs. fst (on_send_message w env sid data st) = Inr ()
     \<and> trace (snd (on_send_message w env sid data st)) = trace st @ evs
     \<and> publish_calls evs = []
     \<and> (\<forall>topic tx. send_message_line w data = Inr (topic, tx) \<and> queue_available env st
            \<and> (\<forall>now. \<not> stringify_overflow w (JObj
                  [(''text'', tx), (''senderId'', JStr sid),
                   (''topic'', default_topic topic), (''timestamp'', JStr now)])) \<longrightarrow>
          (\<exists>now. send_calls evs =
             [\<lparr>sc_QueueUrl = env ''AWS_SQS_QUEUE_URL'',
               sc_MessageBody = Some (serialize (JObj
                 [(''text'', tx), (''senderId'', JStr sid),
                  (''topic'', default_topic topic), (''timestamp'', JStr now)])),
               sc_Topic_DataType = ''String'',
               sc_Topic_StringValue = default_topic topic\<rparr>]))"
proof (cases "send_message_line w data")
  case (Inl e)
  then have "on_send_message w env sid data st =
      (Inr (), add_events st [Console (SocketSendError e)])"
    by (simp add: on_send_message_unfold)
  with Inl show ?thesis by simp
next
  case (Inr line)
  obtain topic tx where line: "line = (topic, tx)" by (cases line)
  let ?st1 = "add_events st [Console (SendingToSQS topic tx)]"
  let ?data = "[(''text'', tx), (''senderId'', JStr sid)]"
  have run: "on_send_message w env sid data st =
     try_catch (bind_prog (sendSQSMessage w env ?data topic) (\<lambda>_. return_prog ()))
       (\<lambda>error. emit_event (Console (SocketSendError error))) ?st1"
    using Inr line by (simp add: on_send_message_unfold)
  obtain g st2 where g: "getSQSClient env ?st1 = (g, st2)"
    by (cases "getSQSClient env ?st1") blast
  obtain xs where xs: "trace st2 = trace ?st1 @ xs" "publish_calls xs = []" "send_calls xs = []"
    using getSQSClient_events [of env ?st1] g by auto
  let ?fs = "[(''text'', tx), (''senderId'', JStr sid),
              (''topic'', default_topic topic), (''timestamp'', JStr (date_iso w (trace st2)))]"
  have fs: "obj_put (obj_put ?data ''topic'' (default_topic topic))
      ''timestamp'' (JStr (date_iso w (trace st2))) = ?fs"
    by simp
  show ?thesis
  proof (cases g)
    case (Inl e)
    with g have no: "sqsClient ?st1 = None \<and> sqs_missing env \<noteq> []"
      using getSQSClient_Inl_missing by blast
    have "on_send_message w env sid data st =
        (Inr (), add_events st2 [Console (SocketSendError e)])"
      using run g Inl
      by (simp add: sendSQSMessage_no_client try_catch_def bind_prog_def emit_event_def
          add_events_def)
    with xs no show ?thesis
      by (simp add: publish_calls_append queue_available_def)
  next
    case client: (Inr c)
    show ?thesis
    proof (cases "stringify_overflow w (JObj ?fs)")
      case True
      have "sendSQSMessage w env ?data topic ?st1 = (Inl RangeError, st2)"
        using g client True sendSQSMessage_overflow [of env ?st1 c st2 w ?data topic]
        unfolding fs by simp
      then have "on_send_message w env sid data st =
          (Inr (), add_events st2 [Console (SocketSendError RangeError)])"
        using run by (simp add: try_catch_def bind_prog_def emit_event_def add_events_def)
      with xs True Inr line show ?thesis
        by (auto simp: publish_calls_append)
    next
      case False
      let ?cmd = "\<lparr>sc_QueueUrl = env ''AWS_SQS_QUEUE_URL'',
                    sc_MessageBody = Some (serialize (JObj ?fs)),
                    sc_Topic_DataType = ''String'',
                    sc_Topic_StringValue = default_topic topic\<rparr>"
      have send: "sendSQSMessage w env ?data topic ?st1 =
          (sqs_send_reply w (trace st2 @ [SqsSend ?cmd]), add_events st2 [SqsSend ?cmd])"
        using g client False sendSQSMessage_with_client [of env ?st1 c st2 w ?data topic]
        unfolding fs by (simp del: serialize.simps)
      have fin: "\<exists>ys. fst (on_send_message w env sid data st) = Inr ()
          \<and> trace (snd (on_send_message w env sid data st)) = trace st2 @ [SqsSend ?cmd] @ ys
          \<and> publish_calls ys = [] \<and> send_calls ys = []"
      proof (cases "sqs_send_reply w (trace st2 @ [SqsSend ?cmd])")
        case (Inl e)
        with run send show ?thesis
          by (simp add: try_catch_def bind_prog_def emit_event_def del: serialize.simps)
      next
        case (Inr id)
        with run send show ?thesis
          by (simp add: try_catch_def bind_prog_def return_prog_def del: serialize.simps)
      qed
      then obtain ys where ys: "fst (on_send_message w env sid data st) = Inr ()"
        "trace (snd (on_send_message w env sid data st)) = trace st2 @ [SqsSend ?cmd] @ ys"
        "publish_calls ys = []" "send_calls ys = []"
        by blast
      have sent: "send_calls ([Console (SendingToSQS topic tx)] @ xs @ [SqsSend ?cmd] @ ys) = [?cmd]"
        using xs(3) ys(4) by (simp add: send_calls_append del: serialize.simps)
      have quiet: "publish_calls ([Console (SendingToSQS topic tx)] @ xs @ [SqsSend ?cmd] @ ys) = []"
        using xs(2) ys(3) by (simp add: publish_calls_append del: serialize.simps)
      have tr: "trace (snd (on_send_message w env sid data st)) =
          trace st @ ([Console (SendingToSQS topic tx)] @ xs @ [SqsSend ?cmd] @ ys)"
        using ys(2) xs(1) by (simp del: serialize.simps)
      show ?thesis
      proof (intro exI [of _ "[Console (SendingToSQS topic tx)] @ xs @ [SqsSend ?cmd] @ ys"]
          conjI allI impI)
        show "fst (on_send_message w env sid data st) = Inr ()" by (rule ys(1))
        show "trace (snd (on_send_message w env sid data st)) =
          trace st @ ([Console (SendingToSQS topic tx)] @ xs @ [SqsSend ?cmd] @ ys)"
          by (rule tr)
        show "publish_calls ([Console (SendingToSQS topic tx)] @ xs @ [SqsSend ?cmd] @ ys) = []"
          by (rule quiet)
        fix topic' tx'
        assume "send_message_line w data = Inr (topic', tx') \<and> queue_available env st
            \<and> (\<forall>now. \<not> stringify_overflow w (JObj
                  [(''text'', tx'), (''senderId'', JStr sid),
                   (''topic'', default_topic topic'), (''timestamp'', JStr now)]))"
        with Inr line have same: "topic' = topic" "tx' = tx" by simp_all
        show "\<exists>now. send_calls ([Console (SendingToSQS topic tx)] @ xs @ [SqsSend ?cmd] @ ys) =
             [\<lparr>sc_QueueUrl = env ''AWS_SQS_QUEUE_URL'',
               sc_MessageBody = Some (serialize (JObj
                 [(''text'', tx'), (''senderId'', JStr sid),
                  (''topic'', default_topic topic'), (''timestamp'', JStr now)])),
               sc_Topic_DataType = ''String'',
               sc_Topic_StringValue = default_topic topic'\<rparr>]"
          unfolding same sent by (intro exI [of _ "date_iso w (trace st2)"]) (rule refl)
      qed
    qed
  qed
qed

lemma serialize_hello:
  "serialize (JObj [(''text'', JStr ''hello''), (''senderId'', JStr ''sock-1''),
       (''topic'', JStr ''t1''), (''timestamp'', JStr ''2026-01-01T00:00:00.000Z'')]) = sent_hello"
  by code_simp

lemma sqs_missing_full_env: "sqs_missing full_env = []"
  by (simp add: sqs_missing_def full_env_def sqs_requiredEnvVars_def falsy_str_def)

lemma client_message_run:
  "on_send_message calm_world full_env ''sock-1'' (JObj client_fields) init_runtime =
     (Inr (),
      add_events (init_runtime\<lparr>sqsClient := Some (new_client full_env)\<rparr>)
        [Console (SendingToSQS (JStr ''t1'') (JStr ''hello'')),
         Console SQSClientInitialized,
         SqsSend sent_hello_cmd])"
proof -
  let ?st1 = "add_events init_runtime [Console (SendingToSQS (JStr ''t1'') (JStr ''hello''))]"
  let ?st2 = "add_events (init_runtime\<lparr>sqsClient := Some (new_client full_env)\<rparr>)
        [Console (SendingToSQS (JStr ''t1'') (JStr ''hello'')), Console SQSClientInitialized]"
  have p: "property_of client_fields ''text'' = JStr ''hello''"
    "property_of client_fields ''topic'' = JStr ''t1''"
    by (simp_all add: property_of_def client_fields_def)
  have l: "send_message_line calm_world (JObj client_fields) = Inr (JStr ''t1'', JStr ''hello'')"
    using send_message_line_object [of calm_world client_fields "''t1''" "''hello''"]
    by (simp add: p ToString_def)
  have g: "getSQSClient full_env ?st1 = (Inr (new_client full_env), ?st2)"
    using getSQSClient_fresh [of ?st1 full_env]
    by (simp add: sqs_missing_full_env init_runtime_def add_events_def)
  have s: "sendSQSMessage calm_world full_env
        [(''text'', JStr ''hello''), (''senderId'', JStr ''sock-1'')] (JStr ''t1'') ?st1 =
      (Inr ''msg-1'', add_events ?st2 [SqsSend sent_hello_cmd])"
    using sendSQSMessage_with_client [OF g, of calm_world
        "[(''text'', JStr ''hello''), (''senderId'', JStr ''sock-1'')]" "JStr ''t1''"]
    by (simp add: calm_world_def full_env_def default_topic_def
        sent_hello_cmd_def serialize_hello [symmetric] del: serialize.simps)
  show ?thesis
    using s
    by (simp add: on_send_message_unfold l try_catch_def bind_prog_def return_prog_def)
qed

lemma bit_length_le: "a < 2 ^ k \<Longrightarrow> bit_length a \<le> k"
proof (induction k arbitrary: a)
  case 0
  then have "a \<le> 0" by simp
  then show ?case by (subst bit_length.simps) simp
next
  case (Suc k)
  show ?case
  proof (cases "a \<le> 0")
    case True
    then show ?thesis by (subst bit_length.simps) simp
  next
    case False
    have "a div 2 < 2 ^ k" using Suc.prems by simp
    then have "bit_length (a div 2) \<le> k" by (rule Suc.IH)
    with False show ?thesis by (subst bit_length.simps) simp
  qed
qed

lemma round_to_double_exact:
  assumes "\<bar>x\<bar> < 9007199254740992"
  shows "round_to_double x = Finite x"
proof -
  have "\<bar>x\<bar> < 2 ^ 53" using assms by simp
  then have "bit_length \<bar>x\<bar> \<le> 53" by (rule bit_length_le)
  then show ?thesis by (simp add: round_to_double_def Let_def)
qed

lemma parseInt_default: "parseInt ''3600'' = Finite 3600"
  by (simp add: parseInt_def ws_length_def code_def digit_of_def digits_value_def Let_def
      round_to_double_exact)

lemma parseInt_abc: "parseInt ''abc'' = NaN"
  by (simp add: parseInt_def ws_length_def code_def digit_of_def digits_value_def Let_def)

lemma parseInt_month: "parseInt ''2592000'' = Finite 2592000"
  by (simp add: parseInt_def ws_length_def code_def digit_of_def digits_value_def Let_def
      round_to_double_exact)

lemma parseInt_nbsp: "parseInt [CHR 0xC2, CHR 0xA0, CHR ''1'', CHR ''2''] = Finite 12"
  by (simp add: parseInt_def ws_length_def code_def digit_of_def digits_value_def Let_def
      round_to_double_exact)

lemma maxExpiry_value: "maxExpiry = 604800"
  by (simp add: maxExpiry_def)

lemma expiry_instant:
  assumes "\<bar>e\<bar> \<le> 9007199254740" and "\<bar>now + e * 1000\<bar> \<le> 8640000000000000"
  shows "toISOString (plus_number now (times_1000 (Finite e))) = Inr (now + e * 1000)"
proof -
  have "\<bar>e * 1000\<bar> < 9007199254740992" using assms(1) by simp
  then have t: "times_1000 (Finite e) = Finite (e * 1000)"
    by (simp add: times_1000_def round_to_double_exact)
  have "\<bar>now + e * 1000\<bar> < 9007199254740992" using assms(2) by simp
  then have "plus_number now (Finite (e * 1000)) = Finite (now + e * 1000)"
    by (simp add: plus_number_def round_to_double_exact)
  with t assms(2) show ?thesis by (simp add: toISOString_def)
qed

lemma getS3Client_cached:
  "s3Client st = Some c \<Longrightarrow> getS3Client env st = (Inr c, st)"
  by (simp add: getS3Client_def)

lemma getSignedUrlForFile_with_client:
  assumes "getS3Client env st = (Inr c, st1)"
  shows "getSignedUrlForFile w env key expiry st =
     (presign_reply w (trace st1 @ [Presign (get_object_cmd env key) expiry]),
      add_events st1 [Presign (get_object_cmd env key) expiry])"
  using assms
  by (simp add: getSignedUrlForFile_def bind_prog_def call_world_apply Let_def
      get_object_cmd_def add_events_def)

lemma JSON_stringify_string: "JSON_stringify w (JStr k) = Inr (Some (quote k))"
  by (simp add: JSON_stringify_def is_nested_def)

lemma post_get_signed_url_unfold:
  assumes "get_property body ''fileKey'' = Inr fileKey" and "truthy fileKey"
    and "get_property body ''expiresIn'' = Inr given"
    and "ToString w (given_or_default given) = Inr s"
    and "expiry = Math_min (parseInt s) (Finite maxExpiry)"
  shows "post_get_signed_url w env body st =
      try_catch
        (bind_prog (getSignedUrlForFile w env fileKey expiry) (\<lambda>signedUrl.
         bind_prog (lift_result (getCloudFrontUrl_of env fileKey)) (\<lambda>cloudFrontUrl.
         bind_prog (read_world (date_now w)) (\<lambda>now.
         bind_prog (lift_result (toISOString (plus_number now (times_1000 expiry))))
           (\<lambda>expiresAt.
         bind_prog (lift_result (JSON_stringify w fileKey)) (\<lambda>written.
           return_prog (Status200
             \<lparr>d_fileKey = fileKey, d_signedUrl = signedUrl,
              d_cloudFrontUrl = cloudFrontUrl, d_expiresIn = expiry,
              d_expiresAt = expiresAt\<rparr>)))))))
        (\<lambda>error. bind_prog (emit_event (Console (SignedUrlError error)))
                   (\<lambda>_. return_prog (Status500 ''Failed to generate signed URL'' error)))
        st"
  using assms
  by (simp add: post_get_signed_url_def try_catch_def bind_prog_def lift_result_def
      given_or_default_def Let_def)

lemma post_get_signed_url_signed:
  assumes "get_property body ''fileKey'' = Inr (JStr k)" and "k \<noteq> []"
    and "get_property body ''expiresIn'' = Inr given"
    and "ToString w (given_or_default given) = Inr s"
    and "getS3Client env st = (Inr c, st1)"
    and "presign_reply w (trace st1 @ [Presign (get_object_cmd env (JStr k)) expiry]) = Inr url"
    and "expiry = Math_min (parseInt s) (Finite maxExpiry)"
    and "st2 = add_events st1 [Presign (get_object_cmd env (JStr k)) expiry]"
  shows "post_get_signed_url w env body st =
     (case toISOString (plus_number (date_now w (trace st2)) (times_1000 expiry)) of
        Inl e \<Rightarrow>
          (Inr (Status500 ''Failed to generate signed URL'' e),
           add_events st2 [Console (SignedUrlError e)])
      | Inr expiresAt \<Rightarrow>
          (Inr (Status200
             \<lparr>d_fileKey = JStr k, d_signedUrl = url,
              d_cloudFrontUrl = getCloudFrontUrl env k, d_expiresIn = expiry,
              d_expiresAt = expiresAt\<rparr>), st2))"
proof -
  have sign: "getSignedUrlForFile w env (JStr k) expiry st = (Inr url, st2)"
    using getSignedUrlForFile_with_client [OF assms(5), of w "JStr k" expiry] assms(6,8)
    by simp
  have tr: "truthy (JStr k)" using assms(2) by (simp add: truthy_def)
  show ?thesis
    unfolding post_get_signed_url_unfold [OF assms(1) tr assms(3,4,7)]
    using sign
    by (simp add: try_catch_def bind_prog_def lift_result_def
        return_prog_def read_world_def emit_event_def add_events_def
        getCloudFrontUrl_of_def JSON_stringify_string
        split: sum.splits)
qed

lemma getS3Client_events:
  "\<exists>evs. trace (snd (getS3Client env st)) = trace st @ evs
     \<and> (\<forall>cmd e. Presign cmd e \<notin> set evs)"
  by (cases "s3Client st")
     (auto simp: getS3Client_def Let_def bind_prog_def emit_event_def throw_prog_def
        return_prog_def)

lemma Math_min_Finite:
  assumes "Math_min a (Finite m) = Finite x"
  shows "(\<exists>n. a = Finite n \<and> x = min n m) \<or> (a = PlusInfinity \<and> x = m)"
  using assms by (cases a) (auto simp: Math_min_def)

lemma toISOString_Inr:
  assumes "toISOString (plus_number now (times_1000 e)) = Inr t"
  shows "\<exists>x. e = Finite x"
  using assms by (cases e) (auto simp: toISOString_def plus_number_def times_1000_def)

lemma post_get_signed_url_200:
  assumes "fst (post_get_signed_url w env body st) = Inr (Status200 d)"
  shows "\<exists>given s. get_property body ''expiresIn'' = Inr given
     \<and> ToString w (given_or_default given) = Inr s
     \<and> ((\<exists>n. parseInt s = Finite n \<and> d_expiresIn d = Finite (min n 604800))
        \<or> (parseInt s = PlusInfinity \<and> d_expiresIn d = Finite 604800))
     \<and> Presign (get_object_cmd env (d_fileKey d)) (d_expiresIn d)
          \<in> set (events_after st (snd (post_get_signed_url w env body st)))"
proof -
  let ?h = "\<lambda>error. bind_prog (emit_event (Console (SignedUrlError error)))
                   (\<lambda>_. return_prog (Status500 ''Failed to generate signed URL'' error))"
  have handler: "fst (?h e s) \<noteq> Inr (Status200 d)" for e s
    by (simp add: bind_prog_def emit_event_def return_prog_def)
  obtain fileKey where fk: "get_property body ''fileKey'' = Inr fileKey"
    using assms handler
    by (cases "get_property body ''fileKey''")
       (auto simp: post_get_signed_url_def try_catch_def bind_prog_def lift_result_def)
  obtain given where gv: "get_property body ''expiresIn'' = Inr given"
    using assms handler fk
    by (cases "get_property body ''expiresIn''")
       (auto simp: post_get_signed_url_def try_catch_def bind_prog_def lift_result_def)
  have tr: "truthy fileKey"
    using assms handler fk gv
    by (auto simp: post_get_signed_url_def try_catch_def bind_prog_def lift_result_def
        return_prog_def Let_def split: if_splits)
  obtain s where s: "ToString w (given_or_default given) = Inr s"
    using assms handler fk gv tr
    by (cases "ToString w (given_or_default given)")
       (auto simp: post_get_signed_url_def try_catch_def bind_prog_def lift_result_def
          given_or_default_def Let_def)
  let ?expiry = "Math_min (parseInt s) (Finite maxExpiry)"
  obtain r st2 where sg: "getSignedUrlForFile w env fileKey ?expiry st = (r, st2)"
    by (cases "getSignedUrlForFile w env fileKey ?expiry st") blast
  have run: "post_get_signed_url w env body st =
      try_catch
        (bind_prog (lift_result r) (\<lambda>signedUrl.
         bind_prog (lift_result (getCloudFrontUrl_of env fileKey)) (\<lambda>cloudFrontUrl.
         bind_prog (read_world (date_now w)) (\<lambda>now.
         bind_prog (lift_result (toISOString (plus_number now (times_1000 ?expiry))))
           (\<lambda>expiresAt.
         bind_prog (lift_result (JSON_stringify w fileKey)) (\<lambda>written.
           return_prog (Status200
             \<lparr>d_fileKey = fileKey, d_signedUrl = signedUrl,
              d_cloudFrontUrl = cloudFrontUrl, d_expiresIn = ?expiry,
              d_expiresAt = expiresAt\<rparr>))))))) ?h st2"
    unfolding post_get_signed_url_unfold [OF fk tr gv s refl]
    using sg by (simp add: try_catch_def bind_prog_def lift_result_def split: sum.splits)
  obtain url where url: "r = Inr url"
    using assms handler unfolding run
    by (cases r) (auto simp: try_catch_def bind_prog_def lift_result_def)
  obtain cf where cf: "getCloudFrontUrl_of env fileKey = Inr cf"
    using assms handler unfolding run url
    by (cases "getCloudFrontUrl_of env fileKey")
       (auto simp: try_catch_def bind_prog_def lift_result_def)
  obtain t where t:
    "toISOString (plus_number (date_now w (trace st2)) (times_1000 ?expiry)) = Inr t"
    using assms handler unfolding run url cf
    by (cases "toISOString (plus_number (date_now w (trace st2)) (times_1000 ?expiry))")
       (auto simp: try_catch_def bind_prog_def lift_result_def read_world_def)
  obtain written where wr: "JSON_stringify w fileKey = Inr written"
    using assms handler t unfolding run url cf
    by (cases "JSON_stringify w fileKey")
       (auto simp: try_catch_def bind_prog_def lift_result_def read_world_def)
  have res: "post_get_signed_url w env body st =
      (Inr (Status200
             \<lparr>d_fileKey = fileKey, d_signedUrl = url,
              d_cloudFrontUrl = cf, d_expiresIn = ?expiry,
              d_expiresAt = t\<rparr>), st2)"
    unfolding run url cf using t wr
    by (simp add: try_catch_def bind_prog_def lift_result_def read_world_def return_prog_def)
  with assms have d: "d = \<lparr>d_fileKey = fileKey, d_signedUrl = url,
              d_cloudFrontUrl = cf, d_expiresIn = ?expiry, d_expiresAt = t\<rparr>"
    by simp
  obtain x where x: "?expiry = Finite x"
    using toISOString_Inr [OF t] by blast
  then have rd: "(\<exists>n. parseInt s = Finite n \<and> x = min n maxExpiry)
      \<or> (parseInt s = PlusInfinity \<and> x = maxExpiry)"
    by (rule Math_min_Finite)
  obtain g st1 where g: "getS3Client env st = (g, st1)"
    by (cases "getS3Client env st") blast
  obtain c where c: "g = Inr c"
    using sg url g by (cases g) (auto simp: getSignedUrlForFile_def bind_prog_def Let_def)
  have st2: "st2 = add_events st1 [Presign (get_object_cmd env fileKey) ?expiry]"
    using getSignedUrlForFile_with_client [of env st c st1 w fileKey ?expiry] g c sg by simp
  obtain evs where evs: "trace st1 = trace st @ evs"
    using getS3Client_events [of env st] g by auto
  have "Presign (get_object_cmd env fileKey) ?expiry \<in> set (events_after st st2)"
    unfolding st2 by (simp add: events_after_def evs)
  with res d gv s x rd show ?thesis
    by (auto simp: maxExpiry_def)
qed

lemma post_get_signed_url_capped:
  assumes "get_property body ''fileKey'' = Inr (JStr k)" and "k \<noteq> []"
    and "get_property body ''expiresIn'' = Inr given"
    and "ToString w (given_or_default given) = Inr s"
    and "parseInt s = Finite n"
    and "getS3Client env st = (Inr c, st1)"
    and "st2 = add_events st1 [Presign (get_object_cmd env (JStr k)) (Finite (min n 604800))]"
    and "presign_reply w (trace st2) = Inr url"
    and "toISOString (plus_number (date_now w (trace st2))
           (times_1000 (Finite (min n 604800)))) = Inr t"
  shows "post_get_signed_url w env body st =
           (Inr (Status200
              \<lparr>d_fileKey = JStr k, d_signedUrl = url,
               d_cloudFrontUrl = getCloudFrontUrl env k,
               d_expiresIn = Finite (min n 604800),
               d_expiresAt = t\<rparr>), st2)"
proof -
  have e: "Finite (min n 604800) = Math_min (parseInt s) (Finite maxExpiry)"
    using assms(5) by (simp add: Math_min_def maxExpiry_def)
  have p: "presign_reply w (trace st1 @
      [Presign (get_object_cmd env (JStr k)) (Finite (min n 604800))]) = Inr url"
    using assms(7,8) by simp
  show ?thesis
    using post_get_signed_url_signed [OF assms(1,2,3,4,6) p e assms(7)] assms(9) by simp
qed

lemma ToString_default: "ToString w (given_or_default JUndefined) = Inr ''3600''"
  by (simp add: given_or_default_def ToString_def)

lemma s3_client_ready:
  "getS3Client full_env (with_s3_client full_env) =
     (Inr (new_client full_env), with_s3_client full_env)"
  by (simp add: getS3Client_cached with_s3_client_def)

lemma body_month_props:
  "get_property body_month ''fileKey'' = Inr (JStr ''uploads/a.png'')"
  "get_property body_month ''expiresIn'' = Inr (JNum ''2592000'')"
  by (simp_all add: body_month_def get_property_def)

lemma body_nbsp_props:
  "get_property body_nbsp ''fileKey'' = Inr (JStr ''uploads/a.png'')"
  "get_property body_nbsp ''expiresIn'' = Inr (JStr [CHR 0xC2, CHR 0xA0, CHR ''1'', CHR ''2''])"
  by (simp_all add: body_nbsp_def get_property_def)

lemma body_abc_props:
  "get_property body_abc ''fileKey'' = Inr (JStr ''uploads/a.png'')"
  "get_property body_abc ''expiresIn'' = Inr (JStr ''abc'')"
  by (simp_all add: body_abc_def get_property_def)

lemma body_month_hyps:
  "get_property body_month ''fileKey'' = Inr (JStr ''uploads/a.png'') \<and> ''uploads/a.png'' \<noteq> []
   \<and> get_property body_month ''expiresIn'' = Inr (JNum ''2592000'')
   \<and> ToString calm_world (given_or_default (JNum ''2592000'')) = Inr ''2592000''
   \<and> parseInt ''2592000'' = Finite 2592000
   \<and> getS3Client full_env (with_s3_client full_env) =
       (Inr (new_client full_env), with_s3_client full_env)
   \<and> signed_state (Finite 604800) =
       add_events (with_s3_client full_env)
         [Presign (get_object_cmd full_env (JStr ''uploads/a.png''))
            (Finite (min 2592000 604800))]
   \<and> presign_reply calm_world (trace (signed_state (Finite 604800))) =
       Inr ''https://bucket.example/signed''
   \<and> toISOString (plus_number (date_now calm_world (trace (signed_state (Finite 604800))))
        (times_1000 (Finite (min 2592000 604800)))) = Inr 1767830400000"
proof -
  have ts: "ToString calm_world (given_or_default (JNum ''2592000'')) = Inr ''2592000''"
    by (simp add: given_or_default_def ToString_def)
  have sm: "signed_state (Finite 604800) =
      add_events (with_s3_client full_env)
        [Presign (get_object_cmd full_env (JStr ''uploads/a.png''))
           (Finite (min 2592000 604800))]"
    by (simp add: signed_state_def)
  have pm: "presign_reply calm_world (trace (signed_state (Finite 604800))) =
      Inr ''https://bucket.example/signed''"
    by (simp add: calm_world_def)
  have dm: "toISOString (plus_number (date_now calm_world (trace (signed_state (Finite 604800))))
        (times_1000 (Finite (min 2592000 604800)))) = Inr 1767830400000"
    using expiry_instant [of 604800 1767225600000] by (simp add: calm_world_def)
  have k: "''uploads/a.png'' \<noteq> []" by simp
  from body_month_props(1) k body_month_props(2) ts parseInt_month s3_client_ready sm pm dm
  show ?thesis by (intro conjI)
qed

lemma body_nbsp_hyps:
  "get_property body_nbsp ''fileKey'' = Inr (JStr ''uploads/a.png'') \<and> ''uploads/a.png'' \<noteq> []
   \<and> get_property body_nbsp ''expiresIn'' =
       Inr (JStr [CHR 0xC2, CHR 0xA0, CHR ''1'', CHR ''2''])
   \<and> ToString calm_world
        (given_or_default (JStr [CHR 0xC2, CHR 0xA0, CHR ''1'', CHR ''2''])) =
       Inr [CHR 0xC2, CHR 0xA0, CHR ''1'', CHR ''2'']
   \<and> parseInt [CHR 0xC2, CHR 0xA0, CHR ''1'', CHR ''2''] = Finite 12
   \<and> getS3Client full_env (with_s3_client full_env) =
       (Inr (new_client full_env), with_s3_client full_env)
   \<and> signed_state (Finite 12) =
       add_events (with_s3_client full_env)
         [Presign (get_object_cmd full_env (JStr ''uploads/a.png'')) (Finite (min 12 604800))]
   \<and> presign_reply calm_world (trace (signed_state (Finite 12))) =
       Inr ''https://bucket.example/signed''
   \<and> toISOString (plus_number (date_now calm_world (trace (signed_state (Finite 12))))
        (times_1000 (Finite (min 12 604800)))) = Inr 1767225612000"
proof -
  have ts: "ToString calm_world
        (given_or_default (JStr [CHR 0xC2, CHR 0xA0, CHR ''1'', CHR ''2''])) =
       Inr [CHR 0xC2, CHR 0xA0, CHR ''1'', CHR ''2'']"
    by (simp add: given_or_default_def ToString_def)
  have sm: "signed_state (Finite 12) =
      add_events (with_s3_client full_env)
        [Presign (get_object_cmd full_env (JStr ''uploads/a.png'')) (Finite (min 12 604800))]"
    by (simp add: signed_state_def)
  have pm: "presign_reply calm_world (trace (signed_state (Finite 12))) =
      Inr ''https://bucket.example/signed''"
    by (simp add: calm_world_def)
  have dm: "toISOString (plus_number (date_now calm_world (trace (signed_state (Finite 12))))
        (times_1000 (Finite (min 12 604800)))) = Inr 1767225612000"
    using expiry_instant [of 12 1767225600000] by (simp add: calm_world_def)
  have k: "''uploads/a.png'' \<noteq> []" by simp
  from body_nbsp_props(1) k body_nbsp_props(2) ts parseInt_nbsp s3_client_ready sm pm dm
  show ?thesis by (intro conjI)
qed

section \<open>The queue client and a missing configuration\<close>

text \<open>
  C1, as the code has it. When a required variable is unset or empty and no client
  exists yet, getSQSClient logs and throws an error that names the missing variables, and
  creates no client. The error is not fatal and it is retried: the polling loop catches
  it, logs it, waits 5000 ms and constructs again in the next iteration. After \<open>n\<close>
  iterations the loop is still running, no client exists, and the trace holds \<open>n\<close>
  rounds of failed construction, polling error and timer.
\<close>

theorem missing_config_is_retried:
  assumes "sqsClient st = None" and "sqs_missing env \<noteq> []"
  shows "getSQSClient env st =
           (Inl (ErrorMsg (sqs_errorMsg env)),
            add_events st [Console (MissingEnvVars (sqs_errorMsg env))])
       \<and> poll_loop w env n st =
           Running (add_events st (concat (replicate n (config_failure_round env))))"
  using getSQSClient_missing [OF assms] poll_loop_missing_config [OF assms]
  by (simp add: add_events_def)

text \<open>
  With only the queue URL missing, three iterations make three attempts.
\<close>

theorem missing_config_is_retried_witness:
  "sqsClient init_runtime = None
   \<and> sqs_missing (full_env(''AWS_SQS_QUEUE_URL'' := None)) = [''AWS_SQS_QUEUE_URL'']
   \<and> poll_loop calm_world (full_env(''AWS_SQS_QUEUE_URL'' := None)) 3 init_runtime =
       Running \<lparr>sqsClient = None, s3Client = None,
         trace =
           [Console (MissingEnvVars
              ''Missing required AWS SQS environment variables: AWS_SQS_QUEUE_URL''),
            Console (SQSPollingError (ErrorMsg
              ''Missing required AWS SQS environment variables: AWS_SQS_QUEUE_URL'')),
            SetTimeout 5000,
            Console (MissingEnvVars
              ''Missing required AWS SQS environment variables: AWS_SQS_QUEUE_URL''),
            Console (SQSPollingError (ErrorMsg
              ''Missing required AWS SQS environment variables: AWS_SQS_QUEUE_URL'')),
            SetTimeout 5000,
            Console (MissingEnvVars
              ''Missing required AWS SQS environment variables: AWS_SQS_QUEUE_URL''),
            Console (SQSPollingError (ErrorMsg
              ''Missing required AWS SQS environment variables: AWS_SQS_QUEUE_URL'')),
            SetTimeout 5000]\<rparr>"
proof -
  have c: "sqsClient init_runtime = None" by (simp add: init_runtime_def)
  have m: "sqs_missing (full_env(''AWS_SQS_QUEUE_URL'' := None)) \<noteq> []"
    by (simp add: sqs_missing_no_url)
  have three: "replicate 3 x = [x, x, x]" for x :: "event list"
    by (simp add: numeral_3_eq_3)
  show ?thesis
    using missing_config_is_retried [OF c m, of calm_world 3] c
    by (simp add: sqs_missing_no_url three config_failure_round_def sqs_errorMsg_def
        add_events_def init_runtime_def)
qed

text \<open>
  C1, as stated, fails. With an empty environment the first construction throws the
  configuration error; the process does not stop and the loop does not give up: two
  iterations of startSQSPolling attempt the construction twice, and the loop is still
  running.
\<close>

theorem config_error_retried_counterexample:
  "fst (getSQSClient Map.empty init_runtime) =
     Inl (ErrorMsg (''Missing required AWS SQS environment variables: '' @
        ''AWS_REGION, AWS_ACCESS_KEY_ID, AWS_SECRET_ACCESS_KEY, AWS_SQS_QUEUE_URL''))
   \<and> startSQSPolling calm_world Map.empty 2 init_runtime =
       Running \<lparr>sqsClient = None, s3Client = None,
         trace =
           [Console StartingPolling,
            Console (MissingEnvVars (''Missing required AWS SQS environment variables: '' @
              ''AWS_REGION, AWS_ACCESS_KEY_ID, AWS_SECRET_ACCESS_KEY, AWS_SQS_QUEUE_URL'')),
            Console (SQSPollingError (ErrorMsg
              (''Missing required AWS SQS environment variables: '' @
              ''AWS_REGION, AWS_ACCESS_KEY_ID, AWS_SECRET_ACCESS_KEY, AWS_SQS_QUEUE_URL''))),
            SetTimeout 5000,
            Console (MissingEnvVars (''Missing required AWS SQS environment variables: '' @
              ''AWS_REGION, AWS_ACCESS_KEY_ID, AWS_SECRET_ACCESS_KEY, AWS_SQS_QUEUE_URL'')),
            Console (SQSPollingError (ErrorMsg
              (''Missing required AWS SQS environment variables: '' @
              ''AWS_REGION, AWS_ACCESS_KEY_ID, AWS_SECRET_ACCESS_KEY, AWS_SQS_QUEUE_URL''))),
            SetTimeout 5000]\<rparr>"
  by (simp add: startSQSPolling_def poll_once_def receiveSQSMessages_def getSQSClient_def
      init_runtime_def sqs_requiredEnvVars_def falsy_str_def bind_prog_def try_catch_def
      emit_event_def throw_prog_def numeral_2_eq_2 Let_def)

section \<open>The polling loop\<close>

text \<open>
  C2. Whatever the world answers (any batch, any failure of JSON.parse, of the
  broadcast or of the delete): processing one message never throws; a batch is
  processed to its end, leaving at least one event for each message; a message in the
  middle of a batch is processed in the state its predecessors left, whatever happened
  to them, and the messages after it follow; one iteration of the loop never throws,
  and when its receive returns a batch the iteration is the processing of that batch;
  after any number \<open>n\<close> of iterations the loop is still running, with at least \<open>n\<close>
  more events in the trace.
\<close>

theorem polling_loop_never_halts:
  "(\<exists>st'. process_message w env m st = (Inr (), st'))
   \<and> (\<exists>st'. for_messages w env ms st = (Inr (), st')
          \<and> length (trace st) + length ms \<le> length (trace st'))
   \<and> for_messages w env (ms1 @ m # ms2) st =
       for_messages w env ms2
         (snd (process_message w env m (snd (for_messages w env ms1 st))))
   \<and> (\<exists>st'. poll_once w env st = (Inr (), st'))
   \<and> (receiveSQSMessages w env 5 st = (Inr ms, st1) \<longrightarrow>
        poll_once w env st = for_messages w env ms st1)
   \<and> (\<exists>st'. poll_loop w env n st = Running st' \<and> extends_trace st st'
          \<and> length (trace st) + n \<le> length (trace st'))"
proof (intro conjI)
  show "\<exists>st'. process_message w env m st = (Inr (), st')"
    using process_message_total by blast
  show "\<exists>st'. for_messages w env ms st = (Inr (), st')
          \<and> length (trace st) + length ms \<le> length (trace st')"
    using for_messages_total by blast
  show "for_messages w env (ms1 @ m # ms2) st =
       for_messages w env ms2
         (snd (process_message w env m (snd (for_messages w env ms1 st))))"
  proof -
    obtain st1 where "process_message w env m (snd (for_messages w env ms1 st)) = (Inr (), st1)"
      using process_message_total by blast
    then show ?thesis
      by (simp add: for_messages_append [of w env ms1 "m # ms2"] bind_prog_def)
  qed
  show "\<exists>st'. poll_once w env st = (Inr (), st')"
    using poll_once_total by blast
  show "receiveSQSMessages w env 5 st = (Inr ms, st1) \<longrightarrow>
        poll_once w env st = for_messages w env ms st1"
    using poll_once_received by blast
  show "\<exists>st'. poll_loop w env n st = Running st' \<and> extends_trace st st'
          \<and> length (trace st) + n \<le> length (trace st')"
    using poll_loop_total by blast
qed

text \<open>
  A batch of three messages with every delete rejected: the first fails to parse, the
  second is broadcast and its delete fails, the third is still reached; four iterations
  complete.
\<close>

theorem polling_loop_never_halts_witness:
  "(\<exists>st'. poll_loop failing_delete_world full_env 4 init_runtime = Running st'
        \<and> extends_trace init_runtime st'
        \<and> length (trace init_runtime) + 4 \<le> length (trace st'))
   \<and> receiveSQSMessages failing_delete_world full_env 5 (with_client full_env) =
     (Inr [msg_bad, msg_hi, msg_null],
      add_events (with_client full_env) [SqsReceive (receive_cmd full_env 5)])
   \<and> poll_once failing_delete_world full_env (with_client full_env) =
     for_messages failing_delete_world full_env [msg_bad, msg_hi, msg_null]
       (add_events (with_client full_env) [SqsReceive (receive_cmd full_env 5)])
   \<and> poll_once failing_delete_world full_env (with_client full_env) =
     (Inr (), add_events (with_client full_env)
        [SqsReceive (receive_cmd full_env 5),
         Console (FailedToParse SyntaxError),
         Console (NewSQSMessage (JStr ''t1'') (JObj [(''text'', JStr ''hi''), (''topic'', JStr ''t1'')])),
         IoEmit ''message'' (JObj [(''text'', JStr ''hi''), (''topic'', JStr ''t1'')]),
         SqsDelete (delete_cmd full_env (Some ''r1'')),
         Console (FailedToParse (ServiceError ''delete failed'')),
         Console (FailedToParse TypeError)])"
proof -
  note loop = polling_loop_never_halts [where w = failing_delete_world and env = full_env
      and n = 4]
  have a: "\<exists>st'. poll_loop failing_delete_world full_env 4 init_runtime = Running st'
        \<and> extends_trace init_runtime st'
        \<and> length (trace init_runtime) + 4 \<le> length (trace st')"
    using loop [where st = init_runtime, THEN conjunct2, THEN conjunct2, THEN conjunct2,
        THEN conjunct2, THEN conjunct2] .
  have b: "poll_once failing_delete_world full_env (with_client full_env) =
     for_messages failing_delete_world full_env [msg_bad, msg_hi, msg_null]
       (add_events (with_client full_env) [SqsReceive (receive_cmd full_env 5)])"
    using loop [where st = "with_client full_env", THEN conjunct2, THEN conjunct2,
        THEN conjunct2, THEN conjunct2, THEN conjunct1, THEN mp, OF failing_delete_receive] .
  show ?thesis
    by (rule conjI [OF a conjI [OF failing_delete_receive conjI [OF b failing_delete_round]]])
qed

text \<open>
  C3. When JSON.parse throws on the body of a message, processing the message adds one
  console line to the trace and nothing else: no broadcast and no delete command.
\<close>

theorem parse_failure_skips_message:
  assumes "JSON_parse (string_of_optional (Body m)) = Inl e"
  shows "process_message w env m st = (Inr (), add_events st [Console (FailedToParse e)])
       \<and> publish_calls (events_after st (snd (process_message w env m st))) = []
       \<and> delete_calls (events_after st (snd (process_message w env m st))) = []"
  using process_message_parse_error [OF assms] by simp

text \<open>The body \<^verbatim>\<open>not-json\<close>.\<close>

theorem parse_failure_skips_message_witness:
  "JSON_parse (string_of_optional (Body msg_bad)) = Inl SyntaxError
   \<and> process_message calm_world full_env msg_bad (with_client full_env) =
       (Inr (), add_events (with_client full_env) [Console (FailedToParse SyntaxError)])
   \<and> publish_calls (events_after (with_client full_env)
        (snd (process_message calm_world full_env msg_bad (with_client full_env)))) = []
   \<and> delete_calls (events_after (with_client full_env)
        (snd (process_message calm_world full_env msg_bad (with_client full_env)))) = []"
proof -
  have p: "JSON_parse (string_of_optional (Body msg_bad)) = Inl SyntaxError"
    by (simp add: msg_bad_def string_of_optional_def parse_not_json)
  show ?thesis
    using parse_failure_skips_message [OF p, of calm_world full_env "with_client full_env"] p
    by simp
qed

text \<open>
  What the loop does with a message whose console line can be built. Take a message of
  a received batch, in the state in which the loop reaches it, whose body parses as JSON
  and for which reading \<^verbatim>\<open>body.topic\<close>, converting it to a string and writing the
  body as JSON all succeed. Then the poller prints the message and issues exactly one
  broadcast of the parsed value; if the broadcast call returns, it then issues exactly
  one delete command, with the message's own receipt handle; a failure of the broadcast
  or of the delete is logged.
\<close>

lemma process_message_published_then_deleted:
  assumes "receiveSQSMessages w env 5 st0 = (Inr (earlier @ m # later), st1)"
    and "st = state_before w env earlier st1"
    and "JSON_parse (string_of_optional (Body m)) = Inr body"
    and "new_message_line w body = Inr topic"
  shows "process_message w env m st =
       (Inr (), add_events st
          (published topic body @
           (case io_emit_reply w (trace st @ published topic body) of
              Inl e \<Rightarrow> [Console (FailedToParse e)]
            | Inr u \<Rightarrow>
                [SqsDelete (delete_cmd env (ReceiptHandle m))] @
                (case sqs_delete_reply w
                        (trace st @ published topic body @
                         [SqsDelete (delete_cmd env (ReceiptHandle m))]) of
                   Inl e \<Rightarrow> [Console (FailedToParse e)]
                 | Inr u \<Rightarrow> []))))
     \<and> publish_calls (events_after st (snd (process_message w env m st))) = [body]
     \<and> (io_emit_reply w (trace st @ published topic body) = Inr () \<longrightarrow>
          delete_calls (events_after st (snd (process_message w env m st))) =
            [delete_cmd env (ReceiptHandle m)])"
proof -
  obtain c where "sqsClient st1 = Some c"
    using received_has_client [OF assms(1)] by blast
  then have client: "sqsClient st = Some c"
    unfolding assms(2) state_before_def by (rule for_messages_keeps_client)
  note topic = assms(4)
  show ?thesis
  proof (cases "io_emit_reply w (trace st @ published topic body)")
    case (Inl e)
    have "process_message w env m st =
        (Inr (), add_events st (published topic body @ [Console (FailedToParse e)]))"
      using assms(3) topic Inl by (rule process_message_emit_fails)
    with Inl show ?thesis
      by (simp add: published_def)
  next
    case (Inr u)
    let ?del = "SqsDelete (delete_cmd env (ReceiptHandle m))"
    have run: "process_message w env m st =
        (Inr (), add_events st
           (published topic body @ [?del] @
            (case sqs_delete_reply w (trace st @ published topic body @ [?del]) of
               Inl e \<Rightarrow> [Console (FailedToParse e)]
             | Inr u \<Rightarrow> [])))"
      using process_message_deleted [OF assms(3) topic _ client, of env] Inr by simp
    show ?thesis
    proof (cases "sqs_delete_reply w (trace st @ published topic body @ [?del])")
      case failed: (Inl e)
      with run Inr show ?thesis
        by (simp add: published_def)
    next
      case deleted: (Inr x)
      with run Inr show ?thesis
        by (simp add: published_def)
    qed
  qed
qed

text \<open>
  C4, at two bodies that parse as JSON. The console line is built inside the \<^verbatim>\<open>try\<close>
  block, before the broadcast, and building it can throw. The body \<^verbatim>\<open>null\<close> parses
  to the value \<^verbatim>\<open>null\<close>, and reading \<^verbatim>\<open>body.topic\<close> throws a TypeError. The body
  \<^verbatim>\<open>{"topic":{"toString":1},"text":"x"}\<close> parses to an object whose topic cannot be
  converted to a string: the template literal throws a TypeError. In both cases the
  \<^verbatim>\<open>catch\<close> block, whose message speaks of a failure to parse, logs the error: no
  broadcast is issued and no delete command, and the message stays in the queue.
\<close>

theorem parsed_body_not_published:
  "JSON_parse (string_of_optional (Body msg_null)) = Inr JNull
   \<and> process_message calm_world full_env msg_null (with_client full_env) =
       (Inr (), add_events (with_client full_env) [Console (FailedToParse TypeError)])
   \<and> publish_calls (events_after (with_client full_env)
        (snd (process_message calm_world full_env msg_null (with_client full_env)))) = []
   \<and> delete_calls (events_after (with_client full_env)
        (snd (process_message calm_world full_env msg_null (with_client full_env)))) = []
   \<and> JSON_parse (string_of_optional (Body msg_method)) =
       Inr (JObj [(''topic'', JObj [(''toString'', JNum ''1'')]), (''text'', JStr ''x'')])
   \<and> process_message calm_world full_env msg_method (with_client full_env) =
       (Inr (), add_events (with_client full_env) [Console (FailedToParse TypeError)])
   \<and> publish_calls (events_after (with_client full_env)
        (snd (process_message calm_world full_env msg_method (with_client full_env)))) = []
   \<and> delete_calls (events_after (with_client full_env)
        (snd (process_message calm_world full_env msg_method (with_client full_env)))) = []"
proof -
  have p: "JSON_parse (string_of_optional (Body msg_null)) = Inr JNull"
    by (simp add: msg_null_def string_of_optional_def parse_null)
  have n: "process_message calm_world full_env msg_null (with_client full_env) =
       (Inr (), add_events (with_client full_env) [Console (FailedToParse TypeError)])"
    using p new_message_line_null by (rule process_message_no_line)
  have q: "JSON_parse (string_of_optional (Body msg_method)) =
       Inr (JObj [(''topic'', JObj [(''toString'', JNum ''1'')]), (''text'', JStr ''x'')])"
    by (simp add: msg_method_def string_of_optional_def parse_method)
  have m: "process_message calm_world full_env msg_method (with_client full_env) =
       (Inr (), add_events (with_client full_env) [Console (FailedToParse TypeError)])"
    using q new_message_line_method by (rule process_message_no_line)
  from p q show ?thesis unfolding n m by simp
qed

text \<open>
  C5. When receiveSQSMessages throws, the iteration logs the error, awaits a timer of
  5000 ms and ends without throwing; the loop goes on, and every later event (the next
  receive among them) comes after the timer.
\<close>

theorem receive_error_backs_off:
  assumes "receiveSQSMessages w env 5 st = (Inl e, st1)"
  shows "poll_once w env st =
           (Inr (), add_events st1 [Console (SQSPollingError e), SetTimeout 5000])
       \<and> (\<exists>st'. poll_loop w env (Suc n) st = Running st'
             \<and> extends_trace (add_events st1 [Console (SQSPollingError e), SetTimeout 5000]) st')"
proof -
  let ?st2 = "add_events st1 [Console (SQSPollingError e), SetTimeout 5000]"
  have once: "poll_once w env st = (Inr (), ?st2)"
    using assms by (rule poll_once_receive_error)
  obtain st' where "poll_loop w env n ?st2 = Running st'" and "extends_trace ?st2 st'"
    using poll_loop_total by blast
  with once show ?thesis by simp
qed

text \<open>
  The first receive is rejected by the service: the trace shows the receive, the console
  line, the timer, and then the next receive.
\<close>

theorem receive_error_backs_off_witness:
  "receiveSQSMessages flaky_world full_env 5 (with_client full_env) =
     (Inl (ServiceError ''network unreachable''),
      add_events (with_client full_env) [SqsReceive (receive_cmd full_env 5)])
   \<and> poll_loop flaky_world full_env 2 (with_client full_env) =
       Running (add_events (with_client full_env)
         [SqsReceive (receive_cmd full_env 5),
          Console (SQSPollingError (ServiceError ''network unreachable'')),
          SetTimeout 5000,
          SqsReceive (receive_cmd full_env 5)])"
proof -
  let ?st0 = "with_client full_env"
  let ?st1 = "add_events ?st0 [SqsReceive (receive_cmd full_env 5)]"
  let ?st2 = "add_events ?st1 [Console (SQSPollingError (ServiceError ''network unreachable'')),
     SetTimeout 5000]"
  have c: "getSQSClient full_env ?st0 = (Inr (new_client full_env), ?st0)"
    by (simp add: getSQSClient_cached with_client_def)
  have r: "receiveSQSMessages flaky_world full_env 5 ?st0 =
      (Inl (ServiceError ''network unreachable''), ?st1)"
    using receiveSQSMessages_with_client [OF c, of flaky_world 5]
    by (simp add: flaky_world_def add_events_def with_client_def init_runtime_def)
  have once: "poll_once flaky_world full_env ?st0 = (Inr (), ?st2)"
    using receive_error_backs_off [OF r, of 0] by simp
  have c2: "getSQSClient full_env ?st2 = (Inr (new_client full_env), ?st2)"
    by (simp add: getSQSClient_cached with_client_def)
  have r2: "receiveSQSMessages flaky_world full_env 5 ?st2 =
      (Inr [], add_events ?st2 [SqsReceive (receive_cmd full_env 5)])"
    using receiveSQSMessages_with_client [OF c2, of flaky_world 5]
    by (simp add: flaky_world_def add_events_def with_client_def init_runtime_def)
  have twice: "poll_once flaky_world full_env ?st2 =
      (Inr (), add_events ?st2 [SqsReceive (receive_cmd full_env 5)])"
    using poll_once_received [OF r2] by (simp add: return_prog_def)
  show ?thesis
    using r once twice by (simp add: numeral_2_eq_2)
qed

text \<open>
  C6. When receiveSQSMessages returns no message, the iteration ends in the state the
  receive left: since the iteration began there has been no delete command and no timer,
  and the loop goes on to the next iteration from that state.
\<close>

theorem empty_receive_continues_at_once:
  assumes "receiveSQSMessages w env 5 st = (Inr [], st1)"
  shows "poll_once w env st = (Inr (), st1)
       \<and> delete_calls (events_after st st1) = []
       \<and> timers (events_after st st1) = []
       \<and> poll_loop w env (Suc n) st = poll_loop w env n st1"
proof -
  have once: "poll_once w env st = (Inr (), st1)"
    using poll_once_received [OF assms] by (simp add: return_prog_def)
  have "delete_calls (events_after st st1) = [] \<and> timers (events_after st st1) = []"
    using receive_events [of st w env 5] assms by auto
  with once show ?thesis by simp
qed

text \<open>Three empty receives follow each other with nothing in between.\<close>

theorem empty_receive_continues_at_once_witness:
  "receiveSQSMessages calm_world full_env 5 (with_client full_env) =
     (Inr [], add_events (with_client full_env) [SqsReceive (receive_cmd full_env 5)])
   \<and> poll_loop calm_world full_env 3 (with_client full_env) =
       Running (add_events (with_client full_env)
         [SqsReceive (receive_cmd full_env 5), SqsReceive (receive_cmd full_env 5),
          SqsReceive (receive_cmd full_env 5)])"
proof -
  have r: "receiveSQSMessages calm_world full_env 5 (add_events (with_client full_env) evs) =
     (Inr [], add_events (add_events (with_client full_env) evs) [SqsReceive (receive_cmd full_env 5)])"
    for evs
  proof -
    have c: "getSQSClient full_env (add_events (with_client full_env) evs) =
        (Inr (new_client full_env), add_events (with_client full_env) evs)"
      by (simp add: getSQSClient_cached with_client_def)
    show ?thesis
      using receiveSQSMessages_with_client [OF c, of calm_world 5]
      by (simp add: calm_world_def add_events_def)
  qed
  have step: "poll_loop calm_world full_env (Suc n) (add_events (with_client full_env) evs) =
      poll_loop calm_world full_env n
        (add_events (with_client full_env) (evs @ [SqsReceive (receive_cmd full_env 5)]))"
    for n evs
    using empty_receive_continues_at_once [OF r [of evs], of n] by simp
  have "poll_loop calm_world full_env (Suc (Suc (Suc 0))) (add_events (with_client full_env) []) =
      Running (add_events (with_client full_env)
         [SqsReceive (receive_cmd full_env 5), SqsReceive (receive_cmd full_env 5),
          SqsReceive (receive_cmd full_env 5)])"
    by (simp only: step append_Nil append_Cons poll_loop.simps(1))
  then show ?thesis
    using r [of "[]"] by (simp add: numeral_3_eq_3)
qed

section \<open>Sending to the queue\<close>

text \<open>
  C7. When the queue client is available and the engine's stack suffices to write the
  body, sendSQSMessage sends exactly one command. Its body is the JSON text of the object
  \<open>fs\<close> that the object literal builds: the payload's properties in their order,
  with \<^verbatim>\<open>topic\<close> set to the topic and then \<^verbatim>\<open>timestamp\<close> set to the clock's reading
  during the call. So \<open>fs\<close> has the topic and the timestamp, agrees with the payload on
  every other key, has the payload's keys and these two, has no key twice when the
  payload has none twice, and is the payload followed by topic and timestamp when the
  payload has neither. The Topic attribute has data type String and the topic as value;
  the topic is \<^verbatim>\<open>general\<close> when the argument is undefined and the argument otherwise.
  On the receiving side, whatever the poller broadcasts for a message is exactly what
  its body parses to: the poller sets no timestamp (and changes nothing else).
\<close>

theorem send_builds_envelope:
  assumes "getSQSClient env st = (Inr c, st1)"
    and "fs = obj_put (obj_put data ''topic'' (default_topic topic_arg))
                ''timestamp'' (JStr (date_iso w (trace st1)))"
    and "\<not> stringify_overflow w (JObj fs)"
    and "cmd = \<lparr>sc_QueueUrl = env ''AWS_SQS_QUEUE_URL'',
                sc_MessageBody = Some (serialize (JObj fs)),
                sc_Topic_DataType = ''String'',
                sc_Topic_StringValue = default_topic topic_arg\<rparr>"
  shows "sendSQSMessage w env data topic_arg st =
           (sqs_send_reply w (trace st1 @ [SqsSend cmd]), add_events st1 [SqsSend cmd])
       \<and> map_of fs ''topic'' = Some (default_topic topic_arg)
       \<and> map_of fs ''timestamp'' = Some (JStr (date_iso w (trace st1)))
       \<and> (\<forall>k. k \<noteq> ''topic'' \<and> k \<noteq> ''timestamp'' \<longrightarrow> map_of fs k = map_of data k)
       \<and> fst ` set fs = fst ` set data \<union> {''topic'', ''timestamp''}
       \<and> (distinct (map fst data) \<longrightarrow> distinct (map fst fs))
       \<and> (''topic'' \<notin> fst ` set data \<and> ''timestamp'' \<notin> fst ` set data \<longrightarrow>
            fs = data @ [(''topic'', default_topic topic_arg),
                         (''timestamp'', JStr (date_iso w (trace st1)))])
       \<and> default_topic JUndefined = JStr ''general''
       \<and> (topic_arg \<noteq> JUndefined \<longrightarrow> default_topic topic_arg = topic_arg)
       \<and> (\<forall>v \<in> set (publish_calls (events_after st' (snd (process_message w env m st')))).
             JSON_parse (string_of_optional (Body m)) = Inr v)"
proof (intro conjI)
  show "sendSQSMessage w env data topic_arg st =
           (sqs_send_reply w (trace st1 @ [SqsSend cmd]), add_events st1 [SqsSend cmd])"
    using sendSQSMessage_with_client [OF assms(1), of w data topic_arg] assms(2,3,4)
    by (simp del: serialize.simps)
  show "map_of fs ''topic'' = Some (default_topic topic_arg)"
    unfolding assms(2) by (simp add: map_of_obj_put)
  show "map_of fs ''timestamp'' = Some (JStr (date_iso w (trace st1)))"
    unfolding assms(2) by (simp add: map_of_obj_put)
  show "\<forall>k. k \<noteq> ''topic'' \<and> k \<noteq> ''timestamp'' \<longrightarrow> map_of fs k = map_of data k"
    unfolding assms(2) by (simp add: map_of_obj_put)
  show "fst ` set fs = fst ` set data \<union> {''topic'', ''timestamp''}"
    unfolding assms(2) by (auto simp: obj_put_keys)
  show "distinct (map fst data) \<longrightarrow> distinct (map fst fs)"
    unfolding assms(2) by (simp add: obj_put_distinct)
  show "''topic'' \<notin> fst ` set data \<and> ''timestamp'' \<notin> fst ` set data \<longrightarrow>
            fs = data @ [(''topic'', default_topic topic_arg),
                         (''timestamp'', JStr (date_iso w (trace st1)))]"
  proof
    assume fresh: "''topic'' \<notin> fst ` set data \<and> ''timestamp'' \<notin> fst ` set data"
    then have one: "obj_put data ''topic'' (default_topic topic_arg) =
        data @ [(''topic'', default_topic topic_arg)]"
      by (simp add: obj_put_fresh)
    have "''timestamp'' \<notin> fst ` set (data @ [(''topic'', default_topic topic_arg)])"
      using fresh by simp
    then show "fs = data @ [(''topic'', default_topic topic_arg),
                         (''timestamp'', JStr (date_iso w (trace st1)))]"
      unfolding assms(2) one by (simp add: obj_put_fresh)
  qed
  show "default_topic JUndefined = JStr ''general''"
    by (simp add: default_topic_def)
  show "topic_arg \<noteq> JUndefined \<longrightarrow> default_topic topic_arg = topic_arg"
    by (simp add: default_topic_def)
  obtain evs where evs: "trace (snd (process_message w env m st')) = trace st' @ evs"
    "publish_calls evs = []
        \<or> (\<exists>body. JSON_parse (string_of_optional (Body m)) = Inr body
              \<and> publish_calls evs = [body])"
    using process_message_publishes by blast
  then show "\<forall>v \<in> set (publish_calls (events_after st' (snd (process_message w env m st')))).
             JSON_parse (string_of_optional (Body m)) = Inr v"
    by (auto simp: events_after_def)
qed

text \<open>
  The payload \<^verbatim>\<open>{text: "hi"}\<close> with no topic: the body sent, and what the poller's
  JSON.parse makes of it.
\<close>

theorem send_builds_envelope_witness:
  "getSQSClient full_env (with_client full_env) =
      (Inr (new_client full_env), with_client full_env)
   \<and> [(''text'', JStr ''hi''), (''topic'', JStr ''general''),
       (''timestamp'', JStr ''2026-01-01T00:00:00.000Z'')] =
      obj_put (obj_put [(''text'', JStr ''hi'')] ''topic'' (default_topic JUndefined))
        ''timestamp'' (JStr (date_iso calm_world (trace (with_client full_env))))
   \<and> \<not> stringify_overflow calm_world
         (JObj [(''text'', JStr ''hi''), (''topic'', JStr ''general''),
                (''timestamp'', JStr ''2026-01-01T00:00:00.000Z'')])
   \<and> sendSQSMessage calm_world full_env [(''text'', JStr ''hi'')] JUndefined
        (with_client full_env) =
       (Inr ''msg-1'',
        add_events (with_client full_env)
          [SqsSend \<lparr>sc_QueueUrl = Some ''https://sqs.example/q'',
             sc_MessageBody = Some sent_hi,
             sc_Topic_DataType = ''String'',
             sc_Topic_StringValue = JStr ''general''\<rparr>])
   \<and> JSON_parse sent_hi =
       Inr (JObj [(''text'', JStr ''hi''), (''topic'', JStr ''general''),
         (''timestamp'', JStr ''2026-01-01T00:00:00.000Z'')])"
proof -
  let ?fs = "[(''text'', JStr ''hi''), (''topic'', JStr ''general''),
       (''timestamp'', JStr ''2026-01-01T00:00:00.000Z'')]"
  let ?cmd = "\<lparr>sc_QueueUrl = full_env ''AWS_SQS_QUEUE_URL'',
                sc_MessageBody = Some (serialize (JObj ?fs)),
                sc_Topic_DataType = ''String'',
                sc_Topic_StringValue = default_topic JUndefined\<rparr>"
  have c: "getSQSClient full_env (with_client full_env) =
      (Inr (new_client full_env), with_client full_env)"
    by (simp add: getSQSClient_cached with_client_def)
  have f: "?fs =
      obj_put (obj_put [(''text'', JStr ''hi'')] ''topic'' (default_topic JUndefined))
        ''timestamp'' (JStr (date_iso calm_world (trace (with_client full_env))))"
    by (simp add: default_topic_def calm_world_def)
  have o: "\<not> stringify_overflow calm_world (JObj ?fs)"
    by (simp add: calm_world_def)
  have "sendSQSMessage calm_world full_env [(''text'', JStr ''hi'')] JUndefined
        (with_client full_env) =
       (sqs_send_reply calm_world (trace (with_client full_env) @ [SqsSend ?cmd]),
        add_events (with_client full_env) [SqsSend ?cmd])"
    using send_builds_envelope [OF c f o refl, THEN conjunct1] .
  then have b: "sendSQSMessage calm_world full_env [(''text'', JStr ''hi'')] JUndefined
        (with_client full_env) =
       (Inr ''msg-1'',
        add_events (with_client full_env)
          [SqsSend \<lparr>sc_QueueUrl = Some ''https://sqs.example/q'',
             sc_MessageBody = Some (serialize (JObj ?fs)),
             sc_Topic_DataType = ''String'',
             sc_Topic_StringValue = JStr ''general''\<rparr>])"
    by (simp add: calm_world_def full_env_def default_topic_def del: serialize.simps)
  have b': "sendSQSMessage calm_world full_env [(''text'', JStr ''hi'')] JUndefined
        (with_client full_env) =
       (Inr ''msg-1'',
        add_events (with_client full_env)
          [SqsSend \<lparr>sc_QueueUrl = Some ''https://sqs.example/q'',
             sc_MessageBody = Some sent_hi,
             sc_Topic_DataType = ''String'',
             sc_Topic_StringValue = JStr ''general''\<rparr>])"
    using b by (simp only: serialize_hi)
  show ?thesis
    by (rule conjI [OF c conjI [OF f conjI [OF o conjI [OF b' parse_sent_hi]]]])
qed

text \<open>
  What the handler of a socket's send-message event does. It never throws and never
  broadcasts. For data that is an object whose topic and text can be converted to
  strings, with the queue client available and the engine's stack sufficient to write
  the body, it sends exactly one command, whose body carries the text, the sender's
  socket id, the topic (or \<^verbatim>\<open>general\<close>) and a timestamp.
\<close>

lemma client_message_forwarded:
  "fst (on_send_message w env sid data st) = Inr ()
   \<and> publish_calls (events_after st (snd (on_send_message w env sid data st))) = []
   \<and> (data = JObj fs \<and> ToString w (property_of fs ''topic'') = Inr topic_text
        \<and> ToString w (property_of fs ''text'') = Inr text_text
        \<and> queue_available env st
        \<and> (\<forall>now. \<not> stringify_overflow w (JObj
               [(''text'', property_of fs ''text''), (''senderId'', JStr sid),
                (''topic'', default_topic (property_of fs ''topic'')),
                (''timestamp'', JStr now)])) \<longrightarrow>
        (\<exists>now. send_calls (events_after st (snd (on_send_message w env sid data st))) =
           [\<lparr>sc_QueueUrl = env ''AWS_SQS_QUEUE_URL'',
             sc_MessageBody = Some (serialize (JObj
               [(''text'', property_of fs ''text''), (''senderId'', JStr sid),
                (''topic'', default_topic (property_of fs ''topic'')),
                (''timestamp'', JStr now)])),
             sc_Topic_DataType = ''String'',
             sc_Topic_StringValue = default_topic (property_of fs ''topic'')\<rparr>]))"
proof -
  obtain evs where evs: "fst (on_send_message w env sid data st) = Inr ()"
    "trace (snd (on_send_message w env sid data st)) = trace st @ evs"
    "publish_calls evs = []"
    "\<forall>topic tx. send_message_line w data = Inr (topic, tx) \<and> queue_available env st
            \<and> (\<forall>now. \<not> stringify_overflow w (JObj
                  [(''text'', tx), (''senderId'', JStr sid),
                   (''topic'', default_topic topic), (''timestamp'', JStr now)])) \<longrightarrow>
          (\<exists>now. send_calls evs =
             [\<lparr>sc_QueueUrl = env ''AWS_SQS_QUEUE_URL'',
               sc_MessageBody = Some (serialize (JObj
                 [(''text'', tx), (''senderId'', JStr sid),
                  (''topic'', default_topic topic), (''timestamp'', JStr now)])),
               sc_Topic_DataType = ''String'',
               sc_Topic_StringValue = default_topic topic\<rparr>])"
    using on_send_message_events [of w env sid data st] by blast
  have after: "events_after st (snd (on_send_message w env sid data st)) = evs"
    using evs(2) by (simp add: events_after_def)
  have sent: "data = JObj fs \<and> ToString w (property_of fs ''topic'') = Inr topic_text
        \<and> ToString w (property_of fs ''text'') = Inr text_text
        \<and> queue_available env st
        \<and> (\<forall>now. \<not> stringify_overflow w (JObj
               [(''text'', property_of fs ''text''), (''senderId'', JStr sid),
                (''topic'', default_topic (property_of fs ''topic'')),
                (''timestamp'', JStr now)])) \<longrightarrow>
        (\<exists>now. send_calls (events_after st (snd (on_send_message w env sid data st))) =
           [\<lparr>sc_QueueUrl = env ''AWS_SQS_QUEUE_URL'',
             sc_MessageBody = Some (serialize (JObj
               [(''text'', property_of fs ''text''), (''senderId'', JStr sid),
                (''topic'', default_topic (property_of fs ''topic'')),
                (''timestamp'', JStr now)])),
             sc_Topic_DataType = ''String'',
             sc_Topic_StringValue = default_topic (property_of fs ''topic'')\<rparr>])"
    unfolding after
    using evs(4) [rule_format, of "property_of fs ''topic''" "property_of fs ''text''"]
      send_message_line_object [of w fs topic_text text_text]
    by blast
  have quiet: "publish_calls (events_after st (snd (on_send_message w env sid data st))) = []"
    unfolding after by (rule evs(3))
  from evs(1) quiet sent show ?thesis by (intro conjI)
qed

text \<open>
  C8, at a message whose text is an object with a property named \<^verbatim>\<open>toString\<close>. The
  console line is built inside the \<^verbatim>\<open>try\<close> block, before the call of
  sendSQSMessage; converting the text to a string for it throws a TypeError, which the
  \<^verbatim>\<open>catch\<close> block logs: no command is sent to the queue, and nothing is broadcast.
  The message of the specification's scenario, \<^verbatim>\<open>{text: "hello", topic: "t1"}\<close>, is
  forwarded with the sender's id.
\<close>

theorem object_text_not_forwarded:
  "on_send_message calm_world full_env ''sock-1'' data_method init_runtime =
     (Inr (), add_events init_runtime [Console (SocketSendError TypeError)])
   \<and> send_calls (events_after init_runtime
        (snd (on_send_message calm_world full_env ''sock-1'' data_method init_runtime))) = []
   \<and> publish_calls (events_after init_runtime
        (snd (on_send_message calm_world full_env ''sock-1'' data_method init_runtime))) = []
   \<and> on_send_message calm_world full_env ''sock-1'' (JObj client_fields) init_runtime =
     (Inr (),
      add_events (init_runtime\<lparr>sqsClient := Some (new_client full_env)\<rparr>)
        [Console (SendingToSQS (JStr ''t1'') (JStr ''hello'')),
         Console SQSClientInitialized,
         SqsSend sent_hello_cmd])"
proof -
  have l: "send_message_line calm_world data_method = Inl TypeError"
    by (simp add: send_message_line_def data_method_def get_property_def ToString_def)
  have run: "on_send_message calm_world full_env ''sock-1'' data_method init_runtime =
     (Inr (), add_events init_runtime [Console (SocketSendError TypeError)])"
    by (simp add: on_send_message_unfold l)
  show ?thesis
    unfolding run using client_message_run by simp
qed

section \<open>The signed-URL route\<close>

text \<open>
  C9, as the code has it. Whenever the route answers 200, \<^verbatim>\<open>expiresIn\<close> (3600 when
  it is omitted) has been converted to a string from which parseInt has read a number,
  the response echoes the smaller of that number and 604800 as \<^verbatim>\<open>expiresIn\<close>, and
  the URL has been presigned with the number echoed. (parseInt reads an integer \<open>n\<close>,
  or an infinity when the digits exceed every double; the smaller of plus infinity and
  604800 is 604800.) The route does answer 200, with the expiry \<open>min n 604800\<close>, when
  \<^verbatim>\<open>fileKey\<close> is a non-empty string, parseInt reads an integer \<open>n\<close>, the storage
  client is available, the presigner succeeds and the expiry instant is a valid date;
  the instant is the clock's reading plus 1000 times the expiry when both are within
  range. An omitted \<^verbatim>\<open>expiresIn\<close> is read as 3600.
\<close>

theorem signed_url_expiry_capped:
  "(fst (post_get_signed_url w env body st) = Inr (Status200 d) \<longrightarrow>
      (\<exists>given s. get_property body ''expiresIn'' = Inr given
         \<and> ToString w (given_or_default given) = Inr s
         \<and> ((\<exists>n. parseInt s = Finite n \<and> d_expiresIn d = Finite (min n 604800))
            \<or> (parseInt s = PlusInfinity \<and> d_expiresIn d = Finite 604800))
         \<and> Presign (get_object_cmd env (d_fileKey d)) (d_expiresIn d)
              \<in> set (events_after st (snd (post_get_signed_url w env body st)))))
   \<and> (get_property body ''fileKey'' = Inr (JStr k) \<and> k \<noteq> []
        \<and> get_property body ''expiresIn'' = Inr given
        \<and> ToString w (given_or_default given) = Inr s
        \<and> parseInt s = Finite n
        \<and> getS3Client env st = (Inr c, st1)
        \<and> st2 = add_events st1 [Presign (get_object_cmd env (JStr k)) (Finite (min n 604800))]
        \<and> presign_reply w (trace st2) = Inr url
        \<and> toISOString (plus_number (date_now w (trace st2))
             (times_1000 (Finite (min n 604800)))) = Inr t \<longrightarrow>
      post_get_signed_url w env body st =
        (Inr (Status200
           \<lparr>d_fileKey = JStr k, d_signedUrl = url,
            d_cloudFrontUrl = getCloudFrontUrl env k,
            d_expiresIn = Finite (min n 604800),
            d_expiresAt = t\<rparr>), st2))
   \<and> (\<bar>e\<bar> \<le> 9007199254740 \<and> \<bar>now + e * 1000\<bar> \<le> 8640000000000000 \<longrightarrow>
        toISOString (plus_number now (times_1000 (Finite e))) = Inr (now + e * 1000))
   \<and> ToString w (given_or_default JUndefined) = Inr ''3600''
   \<and> parseInt ''3600'' = Finite 3600"
proof (intro conjI impI)
  assume "fst (post_get_signed_url w env body st) = Inr (Status200 d)"
  then show "\<exists>given s. get_property body ''expiresIn'' = Inr given
         \<and> ToString w (given_or_default given) = Inr s
         \<and> ((\<exists>n. parseInt s = Finite n \<and> d_expiresIn d = Finite (min n 604800))
            \<or> (parseInt s = PlusInfinity \<and> d_expiresIn d = Finite 604800))
         \<and> Presign (get_object_cmd env (d_fileKey d)) (d_expiresIn d)
              \<in> set (events_after st (snd (post_get_signed_url w env body st)))"
    by (rule post_get_signed_url_200)
next
  assume a: "get_property body ''fileKey'' = Inr (JStr k) \<and> k \<noteq> []
        \<and> get_property body ''expiresIn'' = Inr given
        \<and> ToString w (given_or_default given) = Inr s
        \<and> parseInt s = Finite n
        \<and> getS3Client env st = (Inr c, st1)
        \<and> st2 = add_events st1 [Presign (get_object_cmd env (JStr k)) (Finite (min n 604800))]
        \<and> presign_reply w (trace st2) = Inr url
        \<and> toISOString (plus_number (date_now w (trace st2))
             (times_1000 (Finite (min n 604800)))) = Inr t"
  then have "get_property body ''fileKey'' = Inr (JStr k)" and "k \<noteq> []"
    and "get_property body ''expiresIn'' = Inr given"
    and "ToString w (given_or_default given) = Inr s"
    and "parseInt s = Finite n"
    and "getS3Client env st = (Inr c, st1)"
    and "st2 = add_events st1 [Presign (get_object_cmd env (JStr k)) (Finite (min n 604800))]"
    and "presign_reply w (trace st2) = Inr url"
    and "toISOString (plus_number (date_now w (trace st2))
             (times_1000 (Finite (min n 604800)))) = Inr t"
    by blast+
  then show "post_get_signed_url w env body st =
        (Inr (Status200
           \<lparr>d_fileKey = JStr k, d_signedUrl = url,
            d_cloudFrontUrl = getCloudFrontUrl env k,
            d_expiresIn = Finite (min n 604800),
            d_expiresAt = t\<rparr>), st2)"
    by (rule post_get_signed_url_capped)
next
  assume "\<bar>e\<bar> \<le> 9007199254740 \<and> \<bar>now + e * 1000\<bar> \<le> 8640000000000000"
  then show "toISOString (plus_number now (times_1000 (Finite e))) = Inr (now + e * 1000)"
    using expiry_instant by blast
next
  show "ToString w (given_or_default JUndefined) = Inr ''3600''"
    by (rule ToString_default)
next
  show "parseInt ''3600'' = Finite 3600"
    by (rule parseInt_default)
qed

text \<open>
  Thirty days are capped at 604800 seconds, in the presigning and in the response; an
  expiry of 12 seconds written after a no-break space is read as 12.
\<close>

theorem signed_url_expiry_capped_witness:
  "post_get_signed_url calm_world full_env body_month (with_s3_client full_env) =
     (Inr (Status200
        \<lparr>d_fileKey = JStr ''uploads/a.png'',
         d_signedUrl = ''https://bucket.example/signed'',
         d_cloudFrontUrl = None,
         d_expiresIn = Finite 604800,
         d_expiresAt = 1767830400000\<rparr>), signed_state (Finite 604800))
   \<and> parseInt ''2592000'' = Finite 2592000
   \<and> (\<exists>given s. get_property body_month ''expiresIn'' = Inr given
         \<and> ToString calm_world (given_or_default given) = Inr s
         \<and> ((\<exists>n. parseInt s = Finite n \<and> Finite 604800 = Finite (min n 604800))
            \<or> (parseInt s = PlusInfinity \<and> Finite (604800::int) = Finite 604800))
         \<and> Presign (get_object_cmd full_env (JStr ''uploads/a.png'')) (Finite 604800)
              \<in> set (events_after (with_s3_client full_env) (signed_state (Finite 604800))))
   \<and> post_get_signed_url calm_world full_env body_nbsp (with_s3_client full_env) =
     (Inr (Status200
        \<lparr>d_fileKey = JStr ''uploads/a.png'',
         d_signedUrl = ''https://bucket.example/signed'',
         d_cloudFrontUrl = None,
         d_expiresIn = Finite 12,
         d_expiresAt = 1767225612000\<rparr>), signed_state (Finite 12))
   \<and> parseInt [CHR 0xC2, CHR 0xA0, CHR ''1'', CHR ''2''] = Finite 12
   \<and> toISOString (plus_number 1767225600000 (times_1000 (Finite 604800))) =
       Inr (1767225600000 + 604800 * 1000)
   \<and> ToString calm_world (given_or_default JUndefined) = Inr ''3600''
   \<and> parseInt ''3600'' = Finite 3600"
proof -
  note route = signed_url_expiry_capped [where w = calm_world and env = full_env
      and st = "with_s3_client full_env"]
  have cf: "getCloudFrontUrl full_env ''uploads/a.png'' = None"
    by (simp add: getCloudFrontUrl_def full_env_def falsy_str_def)
  have "post_get_signed_url calm_world full_env body_month (with_s3_client full_env) =
        (Inr (Status200
           \<lparr>d_fileKey = JStr ''uploads/a.png'', d_signedUrl = ''https://bucket.example/signed'',
            d_cloudFrontUrl = getCloudFrontUrl full_env ''uploads/a.png'',
            d_expiresIn = Finite (min 2592000 604800),
            d_expiresAt = 1767830400000\<rparr>), signed_state (Finite 604800))"
    using route [where body = body_month, THEN conjunct2, THEN conjunct1, THEN mp,
        OF body_month_hyps] .
  then have month:
    "post_get_signed_url calm_world full_env body_month (with_s3_client full_env) =
     (Inr (Status200
        \<lparr>d_fileKey = JStr ''uploads/a.png'',
         d_signedUrl = ''https://bucket.example/signed'',
         d_cloudFrontUrl = None,
         d_expiresIn = Finite 604800,
         d_expiresAt = 1767830400000\<rparr>), signed_state (Finite 604800))"
    using cf by simp
  have ok: "fst (post_get_signed_url calm_world full_env body_month (with_s3_client full_env)) =
      Inr (Status200
        \<lparr>d_fileKey = JStr ''uploads/a.png'',
         d_signedUrl = ''https://bucket.example/signed'',
         d_cloudFrontUrl = None,
         d_expiresIn = Finite 604800,
         d_expiresAt = 1767830400000\<rparr>)"
    unfolding month by simp
  have echoed: "\<exists>given s. get_property body_month ''expiresIn'' = Inr given
         \<and> ToString calm_world (given_or_default given) = Inr s
         \<and> ((\<exists>n. parseInt s = Finite n \<and> Finite 604800 = Finite (min n 604800))
            \<or> (parseInt s = PlusInfinity \<and> Finite (604800::int) = Finite 604800))
         \<and> Presign (get_object_cmd full_env (JStr ''uploads/a.png'')) (Finite 604800)
              \<in> set (events_after (with_s3_client full_env) (signed_state (Finite 604800)))"
    using route [where body = body_month, THEN conjunct1, THEN mp, OF ok]
    unfolding month by simp
  have "post_get_signed_url calm_world full_env body_nbsp (with_s3_client full_env) =
        (Inr (Status200
           \<lparr>d_fileKey = JStr ''uploads/a.png'', d_signedUrl = ''https://bucket.example/signed'',
            d_cloudFrontUrl = getCloudFrontUrl full_env ''uploads/a.png'',
            d_expiresIn = Finite (min 12 604800),
            d_expiresAt = 1767225612000\<rparr>), signed_state (Finite 12))"
    using route [where body = body_nbsp, THEN conjunct2, THEN conjunct1, THEN mp,
        OF body_nbsp_hyps] .
  then have nbsp:
    "post_get_signed_url calm_world full_env body_nbsp (with_s3_client full_env) =
     (Inr (Status200
        \<lparr>d_fileKey = JStr ''uploads/a.png'',
         d_signedUrl = ''https://bucket.example/signed'',
         d_cloudFrontUrl = None,
         d_expiresIn = Finite 12,
         d_expiresAt = 1767225612000\<rparr>), signed_state (Finite 12))"
    using cf by simp
  have range: "\<bar>604800\<bar> \<le> (9007199254740::int)
      \<and> \<bar>1767225600000 + 604800 * 1000\<bar> \<le> (8640000000000000::int)"
    by simp
  have instant: "toISOString (plus_number 1767225600000 (times_1000 (Finite 604800))) =
       Inr (1767225600000 + 604800 * 1000)"
    using route [where body = body_month, THEN conjunct2, THEN conjunct2, THEN conjunct1,
        THEN mp, OF range] .
  have dflt: "ToString calm_world (given_or_default JUndefined) = Inr ''3600''
      \<and> parseInt ''3600'' = Finite 3600"
    using route [where body = body_month, THEN conjunct2, THEN conjunct2, THEN conjunct2] .
  show ?thesis
    by (rule conjI [OF month conjI [OF parseInt_month conjI [OF echoed
          conjI [OF nbsp conjI [OF parseInt_nbsp conjI [OF instant dflt]]]]]])
qed

text \<open>
  C9, as stated, fails. For \<^verbatim>\<open>expiresIn: "abc"\<close> parseInt gives NaN and so does
  Math.min; the URL is presigned with NaN, \<^verbatim>\<open>toISOString\<close> of the invalid date throws
  a RangeError, and the response is 500: no expiry is echoed.
\<close>

theorem non_numeric_expiry_counterexample:
  "ToString calm_world (JStr ''abc'') = Inr ''abc''
   \<and> parseInt ''abc'' = NaN
   \<and> Math_min NaN (Finite 604800) = NaN
   \<and> post_get_signed_url calm_world full_env body_abc (with_s3_client full_env) =
     (Inr (Status500 ''Failed to generate signed URL'' RangeError),
      add_events (signed_state NaN) [Console (SignedUrlError RangeError)])"
proof -
  have ts: "ToString calm_world (given_or_default (JStr ''abc'')) = Inr ''abc''"
    by (simp add: given_or_default_def ToString_def)
  have e: "NaN = Math_min (parseInt ''abc'') (Finite maxExpiry)"
    by (simp add: parseInt_abc Math_min_def)
  have p: "presign_reply calm_world (trace (with_s3_client full_env) @
      [Presign (get_object_cmd full_env (JStr ''uploads/a.png'')) NaN]) =
      Inr ''https://bucket.example/signed''"
    by (simp add: calm_world_def)
  have s: "signed_state NaN = add_events (with_s3_client full_env)
       [Presign (get_object_cmd full_env (JStr ''uploads/a.png'')) NaN]"
    by (simp add: signed_state_def)
  have k: "''uploads/a.png'' \<noteq> []" by simp
  have "post_get_signed_url calm_world full_env body_abc (with_s3_client full_env) =
     (Inr (Status500 ''Failed to generate signed URL'' RangeError),
      add_events (signed_state NaN) [Console (SignedUrlError RangeError)])"
    using post_get_signed_url_signed [OF body_abc_props(1) k body_abc_props(2) ts
        s3_client_ready p e s]
    by (simp add: toISOString_def plus_number_def times_1000_def)
  moreover have "ToString calm_world (JStr ''abc'') = Inr ''abc''"
    by (simp add: ToString_def)
  moreover have "Math_min NaN (Finite 604800) = NaN"
    by (simp add: Math_min_def)
  ultimately show ?thesis using parseInt_abc by simp
qed

section \<open>The CloudFront URL\<close>

text \<open>
  C10. getCloudFrontUrl returns null exactly when AWS_CLOUDFRONT_DOMAIN is unset or
  empty. Otherwise it returns "https://" + d' + "/" + k', where d' is the domain with
  one trailing slash removed if it had one (and unchanged otherwise), and k' is the key
  with one leading slash removed if it had one (and unchanged otherwise).
\<close>

theorem getCloudFrontUrl_spec:
  "((getCloudFrontUrl env key = None) =
      (env ''AWS_CLOUDFRONT_DOMAIN'' = None \<or> env ''AWS_CLOUDFRONT_DOMAIN'' = Some []))
   \<and> (\<forall>d. env ''AWS_CLOUDFRONT_DOMAIN'' = Some d \<and> d \<noteq> [] \<longrightarrow>
        (\<exists>d' k'. getCloudFrontUrl env key = Some (''https://'' @ d' @ ''/'' @ k')
           \<and> (d = d' @ ''/'' \<or> (d = d' \<and> last d \<noteq> CHR ''/''))
           \<and> (key = ''/'' @ k' \<or> (key = k' \<and> (key = [] \<or> hd key \<noteq> CHR ''/'')))))"
proof (intro conjI allI impI)
  show "(getCloudFrontUrl env key = None) =
     (env ''AWS_CLOUDFRONT_DOMAIN'' = None \<or> env ''AWS_CLOUDFRONT_DOMAIN'' = Some [])"
    by (cases "env ''AWS_CLOUDFRONT_DOMAIN''")
       (simp_all add: getCloudFrontUrl_def falsy_str_def Let_def)
next
  fix d
  assume "env ''AWS_CLOUDFRONT_DOMAIN'' = Some d \<and> d \<noteq> []"
  then have d: "env ''AWS_CLOUDFRONT_DOMAIN'' = Some d" and ne: "d \<noteq> []" by simp_all
  have url: "getCloudFrontUrl env key =
      Some (''https://'' @ replace_trailing_slash d @ ''/'' @ replace_leading_slash key)"
    using d ne by (simp add: getCloudFrontUrl_def falsy_str_def Let_def)
  have dom: "d = replace_trailing_slash d @ ''/'' \<or>
             (d = replace_trailing_slash d \<and> last d \<noteq> CHR ''/'')"
    using replace_trailing_slash_cases [of d] ne by auto
  show "\<exists>d' k'. getCloudFrontUrl env key = Some (''https://'' @ d' @ ''/'' @ k')
        \<and> (d = d' @ ''/'' \<or> (d = d' \<and> last d \<noteq> CHR ''/''))
        \<and> (key = ''/'' @ k' \<or> (key = k' \<and> (key = [] \<or> hd key \<noteq> CHR ''/'')))"
    using url dom replace_leading_slash_cases [of key] by blast
qed

text \<open>
  The domain \<^verbatim>\<open>cdn.example.net//\<close> loses one of its two trailing slashes and the key
  \<^verbatim>\<open>//a.png\<close> one of its two leading slashes; an empty or unset domain gives
  \<^verbatim>\<open>null\<close>.
\<close>

theorem getCloudFrontUrl_spec_witness:
  "(\<exists>d' k'. getCloudFrontUrl [''AWS_CLOUDFRONT_DOMAIN'' \<mapsto> ''cdn.example.net//''] ''//a.png''
        = Some (''https://'' @ d' @ ''/'' @ k')
      \<and> ''cdn.example.net//'' = d' @ ''/'' \<and> ''//a.png'' = ''/'' @ k')
   \<and> getCloudFrontUrl [''AWS_CLOUDFRONT_DOMAIN'' \<mapsto> ''cdn.example.net//''] ''//a.png''
     = Some ''https://cdn.example.net///a.png''
   \<and> getCloudFrontUrl [''AWS_CLOUDFRONT_DOMAIN'' \<mapsto> []] ''//a.png'' = None
   \<and> getCloudFrontUrl Map.empty ''//a.png'' = None"
proof -
  have a: "getCloudFrontUrl [''AWS_CLOUDFRONT_DOMAIN'' \<mapsto> []] ''//a.png'' = None"
    using getCloudFrontUrl_spec [of "[''AWS_CLOUDFRONT_DOMAIN'' \<mapsto> []]" "''//a.png''"]
    by simp
  have b: "getCloudFrontUrl Map.empty ''//a.png'' = None"
    using getCloudFrontUrl_spec [of Map.empty "''//a.png''"] by simp
  have c: "\<exists>d' k'. getCloudFrontUrl [''AWS_CLOUDFRONT_DOMAIN'' \<mapsto> ''cdn.example.net//''] ''//a.png''
        = Some (''https://'' @ d' @ ''/'' @ k')
      \<and> ''cdn.example.net//'' = d' @ ''/'' \<and> ''//a.png'' = ''/'' @ k'"
    using getCloudFrontUrl_spec
      [of "[''AWS_CLOUDFRONT_DOMAIN'' \<mapsto> ''cdn.example.net//'']" "''//a.png''"]
    by simp
  have d: "getCloudFrontUrl [''AWS_CLOUDFRONT_DOMAIN'' \<mapsto> ''cdn.example.net//''] ''//a.png''
     = Some ''https://cdn.example.net///a.png''"
    by (simp add: getCloudFrontUrl_def falsy_str_def replace_trailing_slash_def
        replace_leading_slash_def)
  from a b c d show ?thesis by blast
qed

end
